theory Spec2Isabelle
  imports Main "HOL-Library.Monad_Syntax"
begin

section \<open>Values, exceptions, dates\<close>

text \<open>
  The values the two scripts move from the source to the destination are JSON values
  (\<open>response.json()\<close> in \<open>main.py\<close>, \<open>response.data\<close> in \<open>get_tvn.py\<close>). The
  scripts never compute with the numbers, so a number is kept as the literal it was read
  from: an integer, or a decimal \<open>PFloat m e\<close> standing for \<open>m * 10^e\<close>. \<open>PNaN\<close> is the
  float NaN that pandas puts into a cell that a row does not have. Strings are 8-bit
  strings: text beyond Latin-1 is outside the model.
\<close>

datatype pyval = PNone | PBool bool | PInt int | PFloat int int | PNaN | PStr string

text \<open>A raw source row is a Python dict from field names to values.\<close>

type_synonym raw_row = "string \<rightharpoonup> pyval"

text \<open>
  Every exception of the scripts is a value. The argument is the text that \<open>str(e)\<close>
  gives, which \<open>sync_data\<close> logs and mails.
\<close>

datatype exn =
    KeyError string
  | TypeError string
  | ValueError string
  | RequestError string
  | DatabaseError string
  | SMTPError string

fun str_exn :: "exn \<Rightarrow> string" where
  "str_exn (KeyError k) = [CHR 0x27] @ k @ [CHR 0x27]"
| "str_exn (TypeError m) = m"
| "str_exn (ValueError m) = m"
| "str_exn (RequestError m) = m"
| "str_exn (DatabaseError m) = m"
| "str_exn (SMTPError m) = m"

text \<open>\<open>record[k]\<close> on a dict: the value, or \<open>KeyError\<close> when the key is absent.\<close>

definition getitem :: "raw_row \<Rightarrow> string \<Rightarrow> exn + pyval" where
  "getitem r k = (case r k of None \<Rightarrow> Inl (KeyError k) | Some v \<Rightarrow> Inr v)"

record date =
  d_year :: nat
  d_month :: nat
  d_day :: nat

record datetime =
  year :: nat
  month :: nat
  day :: nat
  hour :: nat
  minute :: nat
  second :: nat

definition is_leap :: "nat \<Rightarrow> bool" where
  "is_leap y = (y mod 4 = 0 \<and> (y mod 100 \<noteq> 0 \<or> y mod 400 = 0))"

definition days_in_month :: "nat \<Rightarrow> nat \<Rightarrow> nat" where
  "days_in_month y m =
     (if m = 2 then (if is_leap y then 29 else 28)
      else if m = 4 \<or> m = 6 \<or> m = 9 \<or> m = 11 then 30 else 31)"

text \<open>The values that the constructor \<open>datetime(...)\<close> accepts.\<close>

definition valid_datetime :: "datetime \<Rightarrow> bool" where
  "valid_datetime t =
     (1 \<le> year t \<and> year t \<le> 9999 \<and> 1 \<le> month t \<and> month t \<le> 12 \<and>
      1 \<le> day t \<and> day t \<le> days_in_month (year t) (month t) \<and>
      hour t < 24 \<and> minute t < 60 \<and> second t < 60)"

section \<open>\<open>datetime.strptime\<close> and \<open>strftime\<close> for the formats of \<open>main.py\<close>\<close>

text \<open>
  CPython's \<open>_strptime\<close> turns the format into a regular expression, one group per
  directive, and takes the first match that backtracking finds from the start of the
  text; text left over after the match is an error. A matcher returns every way to match
  a prefix, in the order in which the regular expression tries them, with the rest of the
  text. The groups are
  \<^verbatim>\<open>%Y (\d\d\d\d)   %m (1[0-2]|0[1-9]|[1-9])   %d (3[0-1]|[1-2]\d|0[1-9]|[1-9]| [1-9])\<close>
  \<^verbatim>\<open>%H (2[0-3]|[0-1]\d|\d)   %M ([0-5]\d|\d)   %S (6[0-1]|[0-5]\d|\d)\<close>
  and white space in the format matches \<^verbatim>\<open>\s+\<close>.
\<close>

type_synonym 'a matcher = "string \<Rightarrow> ('a \<times> string) list"

definition between :: "nat \<Rightarrow> nat \<Rightarrow> char \<Rightarrow> bool" where
  "between lo hi c = (48 + lo \<le> (of_char c :: nat) \<and> (of_char c :: nat) \<le> 48 + hi)"

definition digit_val :: "char \<Rightarrow> nat" where
  "digit_val c = of_char c - 48"

text \<open>
  The characters that \<^verbatim>\<open>\s\<close> matches in a pattern over \<open>str\<close>, among the first 256 code
  points: tab to carriage return, the four separators 0x1C to 0x1F, the blank, and the
  two white-space characters of Latin-1, next line (0x85) and no-break space (0xA0).
\<close>

definition is_space :: "char \<Rightarrow> bool" where
  "is_space c = (let n = (of_char c :: nat) in
                   (9 \<le> n \<and> n \<le> 13) \<or> (28 \<le> n \<and> n \<le> 32) \<or> n = 133 \<or> n = 160)"

fun two :: "(char \<Rightarrow> bool) \<Rightarrow> (char \<Rightarrow> bool) \<Rightarrow> nat matcher" where
  "two p q (a # b # rest) =
     (if p a \<and> q b then [(10 * digit_val a + digit_val b, rest)] else [])"
| "two p q _ = []"

fun one :: "(char \<Rightarrow> bool) \<Rightarrow> nat matcher" where
  "one p (a # rest) = (if p a then [(digit_val a, rest)] else [])"
| "one p [] = []"

fun space_one :: "nat matcher" where
  "space_one (a # b # rest) =
     (if a = CHR '' '' \<and> between 1 9 b then [(digit_val b, rest)] else [])"
| "space_one _ = []"

fun re_Y :: "nat matcher" where
  "re_Y (a # b # c # d # rest) =
     (if between 0 9 a \<and> between 0 9 b \<and> between 0 9 c \<and> between 0 9 d
      then [(1000 * digit_val a + 100 * digit_val b + 10 * digit_val c + digit_val d, rest)]
      else [])"
| "re_Y _ = []"

definition re_m :: "nat matcher" where
  "re_m s = two (between 1 1) (between 0 2) s @ two (between 0 0) (between 1 9) s @
            one (between 1 9) s"

definition re_d :: "nat matcher" where
  "re_d s = two (between 3 3) (between 0 1) s @ two (between 1 2) (between 0 9) s @
            two (between 0 0) (between 1 9) s @ one (between 1 9) s @ space_one s"

definition re_H :: "nat matcher" where
  "re_H s = two (between 2 2) (between 0 3) s @ two (between 0 1) (between 0 9) s @
            one (between 0 9) s"

definition re_M :: "nat matcher" where
  "re_M s = two (between 0 5) (between 0 9) s @ one (between 0 9) s"

definition re_S :: "nat matcher" where
  "re_S s = two (between 6 6) (between 0 1) s @ two (between 0 5) (between 0 9) s @
            one (between 0 9) s"

fun lit :: "char \<Rightarrow> unit matcher" where
  "lit c (a # rest) = (if a = c then [((), rest)] else [])"
| "lit c [] = []"

text \<open>\<^verbatim>\<open>\s+\<close> is greedy: the longest run of white space first, then shorter ones.\<close>

fun spaces :: "unit matcher" where
  "spaces (a # rest) = (if is_space a then spaces rest @ [((), rest)] else [])"
| "spaces [] = []"

definition match_ymd_hms :: "(nat \<times> nat \<times> nat \<times> nat \<times> nat \<times> nat) matcher" where
  "match_ymd_hms s = do {
     (Y, s1) \<leftarrow> re_Y s;
     (_, s2) \<leftarrow> lit CHR ''-'' s1;
     (m, s3) \<leftarrow> re_m s2;
     (_, s4) \<leftarrow> lit CHR ''-'' s3;
     (d, s5) \<leftarrow> re_d s4;
     (_, s6) \<leftarrow> spaces s5;
     (H, s7) \<leftarrow> re_H s6;
     (_, s8) \<leftarrow> lit CHR '':'' s7;
     (M, s9) \<leftarrow> re_M s8;
     (_, s10) \<leftarrow> lit CHR '':'' s9;
     (S, s11) \<leftarrow> re_S s10;
     [((Y, m, d, H, M, S), s11)]
   }"

definition match_hm :: "(nat \<times> nat) matcher" where
  "match_hm s = do {
     (H, s1) \<leftarrow> re_H s;
     (_, s2) \<leftarrow> lit CHR '':'' s1;
     (M, s3) \<leftarrow> re_M s2;
     [((H, M), s3)]
   }"

text \<open>
  \<open>datetime.strptime(v, '%Y-%m-%d %H:%M:%S')\<close>. The argument comes out of a dict of
  JSON values, so it may be no string at all (\<open>TypeError\<close>). After the match \<open>_strptime\<close>
  builds a date from year, month and day, which refuses year 0 and a day the month does
  not have, and the \<open>datetime\<close> constructor refuses the seconds 60 and 61 that \<open>%S\<close>
  lets through.
\<close>

definition strptime_ymd_hms :: "pyval \<Rightarrow> exn + datetime" where
  "strptime_ymd_hms v =
     (case v of
        PStr s \<Rightarrow>
          (case match_ymd_hms s of
             [] \<Rightarrow> Inl (ValueError ''time data does not match format'')
           | ((Y, m, d, H, M, S), rest) # _ \<Rightarrow>
               if rest \<noteq> [] then Inl (ValueError ''unconverted data remains'')
               else if Y < 1 then Inl (ValueError ''year is out of range'')
               else if days_in_month Y m < d
                 then Inl (ValueError ''day is out of range for month'')
               else if 59 < S then Inl (ValueError ''second must be in 0..59'')
               else Inr \<lparr>year = Y, month = m, day = d, hour = H, minute = M, second = S\<rparr>)
      | _ \<Rightarrow> Inl (TypeError ''strptime() argument 1 must be str''))"

text \<open>\<open>datetime.strptime(v, '%H:%M')\<close>: the date defaults to 1900-01-01, the second to 0.\<close>

definition strptime_hm :: "pyval \<Rightarrow> exn + datetime" where
  "strptime_hm v =
     (case v of
        PStr s \<Rightarrow>
          (case match_hm s of
             [] \<Rightarrow> Inl (ValueError ''time data does not match format'')
           | ((H, M), rest) # _ \<Rightarrow>
               if rest \<noteq> [] then Inl (ValueError ''unconverted data remains'')
               else Inr \<lparr>year = 1900, month = 1, day = 1, hour = H, minute = M, second = 0\<rparr>)
      | _ \<Rightarrow> Inl (TypeError ''strptime() argument 1 must be str''))"

text \<open>
  \<open>strftime\<close>: every field is written in decimal, padded with zeros to its width (the
  year to four digits, as the C library of the platform of the \<open>SQL Server\<close> driver does).
\<close>

definition digit :: "nat \<Rightarrow> char" where
  "digit n = ''0123456789'' ! (n mod 10)"

definition pad2 :: "nat \<Rightarrow> string" where
  "pad2 n = [digit (n div 10), digit n]"

definition pad4 :: "nat \<Rightarrow> string" where
  "pad4 n = [digit (n div 1000), digit (n div 100), digit (n div 10), digit n]"

definition strftime_ymd :: "nat \<Rightarrow> nat \<Rightarrow> nat \<Rightarrow> string" where
  "strftime_ymd y m d = pad4 y @ ''-'' @ pad2 m @ ''-'' @ pad2 d"

definition strftime_hms :: "datetime \<Rightarrow> string" where
  "strftime_hms t = pad2 (hour t) @ '':'' @ pad2 (minute t) @ '':'' @ pad2 (second t)"

definition strftime_ymd_hms :: "datetime \<Rightarrow> string" where
  "strftime_ymd_hms t = strftime_ymd (year t) (month t) (day t) @ '' '' @ strftime_hms t"

section \<open>Normalisation of a harvest record (\<open>main.py\<close>, \<open>insert_data\<close>, lines 126 to 144)\<close>

text \<open>The tuple of parameters that \<open>cursor.execute\<close> receives for one record.\<close>

record hparams =
  p_id :: pyval
  p_farm :: pyval
  p_plot :: pyval
  p_produce :: pyval
  p_worker :: pyval
  p_unit :: pyval
  p_harvest_date :: string
  p_start_time :: string
  p_end_time :: string
  p_duration :: pyval
  p_containers :: pyval
  p_kgs_harvested :: pyval

text \<open>Sequencing of steps that may raise: the first exception ends the computation.\<close>

definition andthen :: "exn + 'a \<Rightarrow> ('a \<Rightarrow> exn + 'b) \<Rightarrow> exn + 'b" where
  "andthen x f = (case x of Inl e \<Rightarrow> Inl e | Inr v \<Rightarrow> f v)"

text \<open>
  The three conversions come first, in the order of the source, then the tuple is built,
  reading the other nine fields from left to right.
\<close>

definition normalize_record :: "raw_row \<Rightarrow> exn + hparams" where
  "normalize_record r =
     andthen (getitem r ''harvest_date'') (\<lambda>v1. andthen (strptime_ymd_hms v1) (\<lambda>t1.
     andthen (getitem r ''start_time'') (\<lambda>v2. andthen (strptime_hm v2) (\<lambda>t2.
     andthen (getitem r ''end_time'') (\<lambda>v3. andthen (strptime_hm v3) (\<lambda>t3.
     andthen (getitem r ''id'') (\<lambda>a. andthen (getitem r ''farm'') (\<lambda>b.
     andthen (getitem r ''plot'') (\<lambda>c. andthen (getitem r ''produce'') (\<lambda>d.
     andthen (getitem r ''worker'') (\<lambda>e. andthen (getitem r ''unit'') (\<lambda>f.
     andthen (getitem r ''duration'') (\<lambda>g. andthen (getitem r ''containers'') (\<lambda>h.
     andthen (getitem r ''kgs_harvested'') (\<lambda>i.
       Inr \<lparr>p_id = a, p_farm = b, p_plot = c, p_produce = d, p_worker = e, p_unit = f,
            p_harvest_date = strftime_ymd_hms t1, p_start_time = strftime_hms t2,
            p_end_time = strftime_hms t3,
            p_duration = g, p_containers = h, p_kgs_harvested = i\<rparr>)))))))))))))))"

definition required_fields :: "string list" where
  "required_fields = [''id'', ''farm'', ''plot'', ''produce'', ''worker'', ''unit'',
     ''harvest_date'', ''start_time'', ''end_time'', ''duration'', ''containers'',
     ''kgs_harvested'']"

text \<open>
  A valid raw row in the words of the specification: every required field is present,
  \<open>harvest_date\<close> matches \<open>%Y-%m-%d %H:%M:%S\<close>, \<open>start_time\<close> and \<open>end_time\<close> match \<open>%H:%M\<close>.
\<close>

definition parses :: "(pyval \<Rightarrow> exn + datetime) \<Rightarrow> pyval option \<Rightarrow> bool" where
  "parses p v = (case v of None \<Rightarrow> False | Some x \<Rightarrow> (case p x of Inl e \<Rightarrow> False | Inr t \<Rightarrow> True))"

definition valid_raw :: "raw_row \<Rightarrow> bool" where
  "valid_raw r =
     (list_all (\<lambda>k. r k \<noteq> None) required_fields \<and>
      parses strptime_ymd_hms (r ''harvest_date'') \<and>
      parses strptime_hm (r ''start_time'') \<and> parses strptime_hm (r ''end_time''))"

text \<open>
  The type constraints that section 3 of the specification declares for a canonical
  harvest row: dates and times parse against the destination's formats, numeric fields
  are finite numbers, the count is an integer, the identifiers are strings, and no
  required field is null.
\<close>

definition is_numeric :: "pyval \<Rightarrow> bool" where
  "is_numeric v = (case v of PInt n \<Rightarrow> True | PFloat m e \<Rightarrow> True | _ \<Rightarrow> False)"

definition is_text :: "pyval \<Rightarrow> bool" where
  "is_text v = (case v of PStr s \<Rightarrow> True | _ \<Rightarrow> False)"

definition is_count :: "pyval \<Rightarrow> bool" where
  "is_count v = (case v of PInt n \<Rightarrow> True | _ \<Rightarrow> False)"

text \<open>
  The reading of a time of day in the destination's format: eight characters, two digits
  for the hour, the minute and the second, with a colon between them.
\<close>

fun read_hms :: "string \<Rightarrow> (nat \<times> nat \<times> nat) option" where
  "read_hms [a, b, c, d, e, f, g, h] =
     (if between 0 9 a \<and> between 0 9 b \<and> c = CHR '':'' \<and> between 0 9 d \<and> between 0 9 e \<and>
         f = CHR '':'' \<and> between 0 9 g \<and> between 0 9 h
      then Some (10 * digit_val a + digit_val b, 10 * digit_val d + digit_val e,
                 10 * digit_val g + digit_val h)
      else None)"
| "read_hms _ = None"

definition is_time_text :: "string \<Rightarrow> bool" where
  "is_time_text s =
     (case read_hms s of None \<Rightarrow> False | Some (H, M, S) \<Rightarrow> H < 24 \<and> M < 60 \<and> S < 60)"

definition wellformed_times :: "hparams \<Rightarrow> bool" where
  "wellformed_times c =
     ((case strptime_ymd_hms (PStr (p_harvest_date c)) of
         Inl e \<Rightarrow> False | Inr t \<Rightarrow> valid_datetime t \<and> strftime_ymd_hms t = p_harvest_date c) \<and>
      length (p_harvest_date c) = 19 \<and>
      length (p_start_time c) = 8 \<and> is_time_text (p_start_time c) \<and>
      length (p_end_time c) = 8 \<and> is_time_text (p_end_time c))"

definition declared_constraints :: "hparams \<Rightarrow> bool" where
  "declared_constraints c =
     (wellformed_times c \<and> p_id c \<noteq> PNone \<and>
      is_text (p_farm c) \<and> is_text (p_plot c) \<and> is_text (p_produce c) \<and>
      is_text (p_worker c) \<and> is_text (p_unit c) \<and>
      is_numeric (p_duration c) \<and> is_count (p_containers c) \<and>
      is_numeric (p_kgs_harvested c))"

section \<open>The destination store\<close>

text \<open>
  A destination table is the list of its rows. Nothing in the scripts says that the key
  column is unique, so that is a property to prove of them, not a property of the type.

  The state of a run: the committed table, the table as the open transaction sees it, the
  statements issued on the cursor so far, the log file, the messages handed to the SMTP
  server and the calls of \<open>send_email_notification\<close>. Console output is not modelled.
\<close>

datatype level = INFO | WARNING | ERROR

datatype mail_body =
    SuccessBody date date nat
  | FailureBody date date "string option"

record email =
  m_from :: string
  m_to :: string
  m_body :: mail_body

record notification =
  n_success :: bool
  n_start :: date
  n_end :: date
  n_error :: "string option"
  n_records :: nat

record ('r, 's) world =
  committed :: "'r list"
  pending :: "'r list"
  issued :: "'s list"
  log :: "(level \<times> string) list"
  mailed :: "email list"
  notified :: "notification list"

text \<open>
  What the scripts cannot decide themselves is a parameter of a run: the calendar date,
  the answer of the source, whether the driver connects, which statements the store
  refuses (a constraint of the table, a value it cannot convert), whether the commit
  goes through, the reading of the server's clock at the \<open>i\<close>-th statement of a run, the
  date that pandas reads from a cell, and the mail settings and server.
  \<open>None\<close> stands for success where the field is an \<open>exn option\<close>.
\<close>

record 's env =
  today :: date
  source :: "date option \<Rightarrow> date option \<Rightarrow> exn + raw_row list"
  connect_fails :: "exn option"
  rejects :: "'s \<Rightarrow> exn option"
  commit_fails :: "exn option"
  getdate :: "nat \<Rightarrow> nat"
  to_datetime :: "pyval \<Rightarrow> exn + date option"
  email_sender :: "string option"
  email_password :: "string option"
  email_recipient :: "string option"
  smtp_fails :: "exn option"

definition logging :: "level \<Rightarrow> string \<Rightarrow> ('r, 's) world \<Rightarrow> ('r, 's) world" where
  "logging l m w = w\<lparr>log := log w @ [(l, m)]\<rparr>"

definition commit :: "('r, 's) world \<Rightarrow> ('r, 's) world" where
  "commit w = w\<lparr>committed := pending w\<rparr>"

definition rollback :: "('r, 's) world \<Rightarrow> ('r, 's) world" where
  "rollback w = w\<lparr>pending := committed w\<rparr>"

text \<open>
  A \<open>MERGE\<close> with a one-row source: every target row that the \<open>ON\<close> condition matches
  is updated; when none matches, the source row is inserted.
\<close>

definition merge_into :: "('r \<Rightarrow> bool) \<Rightarrow> ('r \<Rightarrow> 'r) \<Rightarrow> 'r \<Rightarrow> 'r list \<Rightarrow> 'r list" where
  "merge_into matched upd new t =
     (if list_ex matched t then map (\<lambda>r. if matched r then upd r else r) t else t @ [new])"

text \<open>
  \<open>cursor.execute(sql, params)\<close>: the statement is issued; the store refuses it with an
  exception, or applies it inside the open transaction.
\<close>

definition execute ::
  "(nat \<Rightarrow> 's \<Rightarrow> 'r list \<Rightarrow> 'r list) \<Rightarrow> 's env \<Rightarrow> nat \<Rightarrow> 's \<Rightarrow> ('r, 's) world \<Rightarrow>
     (exn + unit) \<times> ('r, 's) world" where
  "execute stmt env i s w =
     (let w1 = w\<lparr>issued := issued w @ [s]\<rparr> in
      case rejects env s of
        Some e \<Rightarrow> (Inl e, w1)
      | None \<Rightarrow> (Inr (), w1\<lparr>pending := stmt (getdate env i) s (pending w1)\<rparr>))"

text \<open>
  The \<open>for\<close> loop of \<open>insert_data\<close>, the same in both scripts: each record is prepared
  (\<open>prep\<close>: the conversions before \<open>cursor.execute\<close>) and then written, one after the
  other; the first exception leaves the loop. \<open>i\<close> counts the statements of the run.
\<close>

fun insert_loop ::
  "('a \<Rightarrow> exn + 's) \<Rightarrow> (nat \<Rightarrow> 's \<Rightarrow> 'r list \<Rightarrow> 'r list) \<Rightarrow> 's env \<Rightarrow> nat \<Rightarrow> 'a list \<Rightarrow>
     ('r, 's) world \<Rightarrow> (exn + unit) \<times> ('r, 's) world" where
  "insert_loop prep stmt env i [] w = (Inr (), w)"
| "insert_loop prep stmt env i (x # xs) w =
     (case prep x of
        Inl e \<Rightarrow> (Inl e, w)
      | Inr s \<Rightarrow>
          (case execute stmt env i s w of
             (Inl e, w1) \<Rightarrow> (Inl e, w1)
           | (Inr u, w1) \<Rightarrow> insert_loop prep stmt env (Suc i) xs w1))"

fun str_nat :: "nat \<Rightarrow> string" where
  "str_nat n = (if n < 10 then [digit n] else str_nat (n div 10) @ [digit n])"

text \<open>
  \<open>insert_data(conn, data)\<close>: the loop, then \<open>conn.commit()\<close>; any exception of the loop or
  of the commit is answered by \<open>conn.rollback()\<close>, a line in the log, and is raised again.
\<close>

definition insert_data_with ::
  "('a \<Rightarrow> exn + 's) \<Rightarrow> (nat \<Rightarrow> 's \<Rightarrow> 'r list \<Rightarrow> 'r list) \<Rightarrow> 's env \<Rightarrow> 'a list \<Rightarrow>
     ('r, 's) world \<Rightarrow> (exn + unit) \<times> ('r, 's) world" where
  "insert_data_with prep stmt env data w =
     (let failed = (\<lambda>e w1. (Inl e,
            logging ERROR (''Data insertion error: '' @ str_exn e) (rollback w1))) in
      case insert_loop prep stmt env 0 data w of
        (Inl e, w1) \<Rightarrow> failed e w1
      | (Inr u, w1) \<Rightarrow>
          (case commit_fails env of
             Some e \<Rightarrow> failed e w1
           | None \<Rightarrow> (Inr (),
               logging INFO (''Successfully processed '' @ str_nat (length data) @ '' records'')
                 (commit w1))))"

subsection \<open>Harvest records (\<open>main.py\<close>)\<close>

record harvest_row =
  h_id :: pyval
  h_farm :: pyval
  h_plot :: pyval
  h_produce :: pyval
  h_worker :: pyval
  h_unit :: pyval
  h_harvest_date :: string
  h_start_time :: string
  h_end_time :: string
  h_duration :: pyval
  h_containers :: pyval
  h_kgs_harvested :: pyval
  h_insert_date :: nat

text \<open>
  The comparison \<open>target.id = source.id\<close> of the \<open>ON\<close> clause. Python's \<open>None\<close> is sent as
  \<open>NULL\<close>, and in SQL a comparison with \<open>NULL\<close> is never true. For other values the
  comparison is taken to be equality of the values.
\<close>

definition sql_eq :: "pyval \<Rightarrow> pyval \<Rightarrow> bool" where
  "sql_eq a b = (a \<noteq> PNone \<and> b \<noteq> PNone \<and> a = b)"

text \<open>\<open>WHEN MATCHED THEN UPDATE SET ...\<close>: every column but \<open>id\<close>, and \<open>insert_date = GETDATE()\<close>.\<close>

definition harvest_update :: "nat \<Rightarrow> hparams \<Rightarrow> harvest_row \<Rightarrow> harvest_row" where
  "harvest_update now p r =
     r\<lparr>h_farm := p_farm p, h_plot := p_plot p, h_produce := p_produce p,
       h_worker := p_worker p, h_unit := p_unit p, h_harvest_date := p_harvest_date p,
       h_start_time := p_start_time p, h_end_time := p_end_time p,
       h_duration := p_duration p, h_containers := p_containers p,
       h_kgs_harvested := p_kgs_harvested p, h_insert_date := now\<rparr>"

text \<open>\<open>WHEN NOT MATCHED THEN INSERT ... VALUES (..., GETDATE())\<close>.\<close>

definition harvest_insert :: "nat \<Rightarrow> hparams \<Rightarrow> harvest_row" where
  "harvest_insert now p =
     \<lparr>h_id = p_id p, h_farm = p_farm p, h_plot = p_plot p, h_produce = p_produce p,
      h_worker = p_worker p, h_unit = p_unit p, h_harvest_date = p_harvest_date p,
      h_start_time = p_start_time p, h_end_time = p_end_time p,
      h_duration = p_duration p, h_containers = p_containers p,
      h_kgs_harvested = p_kgs_harvested p, h_insert_date = now\<rparr>"

definition harvest_merge :: "nat \<Rightarrow> hparams \<Rightarrow> harvest_row list \<Rightarrow> harvest_row list" where
  "harvest_merge now p t =
     merge_into (\<lambda>r. sql_eq (h_id r) (p_id p)) (harvest_update now p) (harvest_insert now p) t"

type_synonym hworld = "(harvest_row, hparams) world"

definition insert_data :: "hparams env \<Rightarrow> raw_row list \<Rightarrow> hworld \<Rightarrow> (exn + unit) \<times> hworld" where
  "insert_data = insert_data_with normalize_record harvest_merge"

subsection \<open>Daily totals (\<open>get_tvn.py\<close>)\<close>

text \<open>
  A row of the data frame that \<open>get_supabase_data\<close> returns: the date (\<open>None\<close> is pandas'
  \<open>NaT\<close>) and the two renamed columns. A destination row and the statement that writes
  it carry the same three values: the text of the date and the two totals.
\<close>

record tvn_row =
  date :: "date option"
  kgs_harvest_tvn :: pyval
  kgs_packed_cnd :: pyval

record tvn_record =
  t_date :: string
  t_kgs_harvest_tvn :: pyval
  t_kgs_packed_cnd :: pyval

definition strftime_date :: "date \<Rightarrow> string" where
  "strftime_date d = strftime_ymd (d_year d) (d_month d) (d_day d)"

text \<open>\<open>row['date'].strftime('%Y-%m-%d')\<close>, which \<open>NaT\<close> does not support, and the parameters.\<close>

definition tvn_statement :: "tvn_row \<Rightarrow> exn + tvn_record" where
  "tvn_statement row =
     (case date row of
        None \<Rightarrow> Inl (ValueError ''NaTType does not support strftime'')
      | Some d \<Rightarrow> Inr \<lparr>t_date = strftime_date d, t_kgs_harvest_tvn = kgs_harvest_tvn row,
                        t_kgs_packed_cnd = kgs_packed_cnd row\<rparr>)"

definition tvn_merge :: "nat \<Rightarrow> tvn_record \<Rightarrow> tvn_record list \<Rightarrow> tvn_record list" where
  "tvn_merge now s t =
     merge_into (\<lambda>r. t_date r = t_date s)
       (\<lambda>r. r\<lparr>t_kgs_harvest_tvn := t_kgs_harvest_tvn s, t_kgs_packed_cnd := t_kgs_packed_cnd s\<rparr>)
       s t"

type_synonym tworld = "(tvn_record, tvn_record) world"

definition tvn_insert_data :: "tvn_record env \<Rightarrow> tvn_row list \<Rightarrow> tworld \<Rightarrow> (exn + unit) \<times> tworld" where
  "tvn_insert_data = insert_data_with tvn_statement tvn_merge"

section \<open>Fetching, notifying, orchestrating\<close>

text \<open>\<open>str(d)\<close> of a date is its ISO form.\<close>

definition str_date :: "date \<Rightarrow> string" where
  "str_date d = strftime_date d"

text \<open>
  \<open>get_database_connection()\<close>: \<open>pyodbc.connect\<close> raises, which is logged and raised
  again, or returns a connection, whose transaction starts from the committed table.
\<close>

definition get_database_connection :: "'s env \<Rightarrow> ('r, 's) world \<Rightarrow> (exn + unit) \<times> ('r, 's) world" where
  "get_database_connection env w =
     (case connect_fails env of
        Some e \<Rightarrow> (Inl e, logging ERROR (''Database connection error: '' @ str_exn e) w)
      | None \<Rightarrow> (Inr (), w\<lparr>pending := committed w\<rparr>))"

subsection \<open>\<open>main.py\<close>\<close>

text \<open>
  \<open>fetch_api_data\<close>: the request, \<open>raise_for_status\<close> and \<open>response.json()\<close> are the
  answer of the source; an exception is logged and raised again, rows are returned as
  they came.
\<close>

definition fetch_api_data ::
  "'s env \<Rightarrow> date \<Rightarrow> date \<Rightarrow> ('r, 's) world \<Rightarrow> (exn + raw_row list) \<times> ('r, 's) world" where
  "fetch_api_data env start_date end_date w =
     (case source env (Some start_date) (Some end_date) of
        Inl e \<Rightarrow> (Inl e, logging ERROR (''API fetch error: '' @ str_exn e) w)
      | Inr data \<Rightarrow> (Inr data, w))"

text \<open>Python's truth value of a setting: unset (\<open>None\<close>) and the empty string are false.\<close>

definition truthy :: "string option \<Rightarrow> bool" where
  "truthy v = (case v of None \<Rightarrow> False | Some s \<Rightarrow> s \<noteq> [])"

text \<open>
  \<open>send_email_notification\<close>. The call itself is recorded in \<open>notified\<close>. Without the
  three settings it logs a warning and returns. Otherwise it builds the message (the
  success text names the period and the number of records, the failure text the period
  and the error) and hands it to the SMTP server; an exception there is logged and not
  raised.
\<close>

definition send_email_notification :: "'s env \<Rightarrow> notification \<Rightarrow> ('r, 's) world \<Rightarrow> ('r, 's) world" where
  "send_email_notification env n w =
     (let w0 = w\<lparr>notified := notified w @ [n]\<rparr> in
      if \<not> (truthy (email_sender env) \<and> truthy (email_password env) \<and>
             truthy (email_recipient env))
      then logging WARNING ''Email configuration missing. Skipping email notification.'' w0
      else
        (let body = (if n_success n then SuccessBody (n_start n) (n_end n) (n_records n)
                     else FailureBody (n_start n) (n_end n) (n_error n));
             msg = \<lparr>m_from = the (email_sender env), m_to = the (email_recipient env),
                    m_body = body\<rparr>
         in case smtp_fails env of
              Some e \<Rightarrow> logging ERROR (''Failed to send email notification: '' @ str_exn e) w0
            | None \<Rightarrow> logging INFO ''Email notification sent successfully''
                        (w0\<lparr>mailed := mailed w0 @ [msg]\<rparr>)))"

text \<open>
  \<open>sync_data\<close> of \<open>main.py\<close>. The whole body stands in \<open>try\<close>; the handler of
  \<open>except Exception\<close> logs the error and sends the failure mail, with the number of
  records fetched so far (0 when the fetch itself failed). The function returns \<open>None\<close>
  on every path, which is \<open>Inr ()\<close> here; \<open>Inl e\<close> would be an exception that leaves it.
\<close>

definition sync_data ::
  "hparams env \<Rightarrow> date option \<Rightarrow> date option \<Rightarrow> hworld \<Rightarrow> (exn + unit) \<times> hworld" where
  "sync_data env start_date end_date w =
     (let sd = (case start_date of None \<Rightarrow> today env | Some d \<Rightarrow> d);
          ed = (case end_date of None \<Rightarrow> today env | Some d \<Rightarrow> d);
          handler = (\<lambda>e n w1. (Inr (),
             send_email_notification env
               \<lparr>n_success = False, n_start = sd, n_end = ed, n_error = Some (str_exn e),
                n_records = n\<rparr>
               (logging ERROR (''Data sync failed: '' @ str_exn e) w1)))
      in case fetch_api_data env sd ed w of
           (Inl e, w1) \<Rightarrow> handler e 0 w1
         | (Inr data, w1) \<Rightarrow>
             (case get_database_connection env w1 of
                (Inl e, w2) \<Rightarrow> handler e (length data) w2
              | (Inr u, w2) \<Rightarrow>
                  (case insert_data env data w2 of
                     (Inl e, w3) \<Rightarrow> handler e (length data) w3
                   | (Inr u', w3) \<Rightarrow> (Inr (),
                       send_email_notification env
                         \<lparr>n_success = True, n_start = sd, n_end = ed, n_error = None,
                          n_records = length data\<rparr>
                         (logging INFO (''Data sync completed successfully for period '' @
                            str_date sd @ '' to '' @ str_date ed) w3)))))"

subsection \<open>\<open>get_tvn.py\<close>\<close>

text \<open>
  \<open>pd.DataFrame(response.data)\<close> has a column for every key of any row, and NaN in the
  cells a row does not have.
\<close>

definition has_column :: "raw_row list \<Rightarrow> string \<Rightarrow> bool" where
  "has_column data c = list_ex (\<lambda>r. r c \<noteq> None) data"

definition cell :: "raw_row \<Rightarrow> string \<Rightarrow> pyval" where
  "cell r c = (case r c of None \<Rightarrow> PNaN | Some v \<Rightarrow> v)"

definition required_columns :: "string list" where
  "required_columns = [''date'', ''kilos_harvested'', ''kilos_packed'']"

fun repr_list_items :: "string list \<Rightarrow> string" where
  "repr_list_items [] = []"
| "repr_list_items [x] = [CHR 0x27] @ x @ [CHR 0x27]"
| "repr_list_items (x # xs) = [CHR 0x27] @ x @ [CHR 0x27] @ '', '' @ repr_list_items xs"

definition repr_list :: "string list \<Rightarrow> string" where
  "repr_list xs = ''['' @ repr_list_items xs @ '']''"

text \<open>
  The renaming of the two columns and \<open>pd.to_datetime(df['date']).dt.date\<close>, row by row;
  the first cell that pandas cannot read raises. Columns that \<open>insert_data\<close> never reads
  are left out.
\<close>

fun frame_rows :: "'s env \<Rightarrow> raw_row list \<Rightarrow> exn + tvn_row list" where
  "frame_rows env [] = Inr []"
| "frame_rows env (r # rs) =
     (case to_datetime env (cell r ''date'') of
        Inl e \<Rightarrow> Inl e
      | Inr d \<Rightarrow>
          (case frame_rows env rs of
             Inl e \<Rightarrow> Inl e
           | Inr rows \<Rightarrow>
               Inr (\<lparr>date = d, kgs_harvest_tvn = cell r ''kilos_harvested'',
                     kgs_packed_cnd = cell r ''kilos_packed''\<rparr> # rows)))"

definition get_supabase_data ::
  "'s env \<Rightarrow> date option \<Rightarrow> date option \<Rightarrow> ('r, 's) world \<Rightarrow>
     (exn + tvn_row list) \<times> ('r, 's) world" where
  "get_supabase_data env start_date end_date w =
     (let failed = (\<lambda>e. (Inl e, logging ERROR (''Supabase data fetch error: '' @ str_exn e) w)) in
      case source env start_date end_date of
        Inl e \<Rightarrow> failed e
      | Inr data \<Rightarrow>
          if data = [] then (Inr [], w)
          else
            (let missing_columns = filter (\<lambda>col. \<not> has_column data col) required_columns in
             if missing_columns \<noteq> []
             then failed (ValueError (''Missing required columns in Supabase response: '' @
                    repr_list missing_columns))
             else (case frame_rows env data of
                     Inl e \<Rightarrow> failed e
                   | Inr df \<Rightarrow> (Inr df, w))))"

text \<open>
  \<open>sync_data\<close> of \<open>get_tvn.py\<close>: the same \<open>try\<close> and handler, but the handler only logs;
  the script has no notification at all.
\<close>

definition tvn_sync_data ::
  "tvn_record env \<Rightarrow> date option \<Rightarrow> date option \<Rightarrow> tworld \<Rightarrow> (exn + unit) \<times> tworld" where
  "tvn_sync_data env start_date end_date w =
     (let sd = (case start_date of None \<Rightarrow> today env | Some d \<Rightarrow> d);
          ed = (case end_date of None \<Rightarrow> today env | Some d \<Rightarrow> d);
          handler = (\<lambda>e w1. (Inr (),
             logging ERROR (''TVN data sync failed: '' @ str_exn e) w1))
      in case get_supabase_data env (Some sd) (Some ed) w of
           (Inl e, w1) \<Rightarrow> handler e w1
         | (Inr df, w1) \<Rightarrow>
             (case get_database_connection env w1 of
                (Inl e, w2) \<Rightarrow> handler e w2
              | (Inr u, w2) \<Rightarrow>
                  (case tvn_insert_data env df w2 of
                     (Inl e, w3) \<Rightarrow> handler e w3
                   | (Inr u', w3) \<Rightarrow> (Inr (),
                       logging INFO (''TVN data sync completed successfully for period '' @
                         str_date sd @ '' to '' @ str_date ed) w3))))"

section \<open>Auxiliary notions of the proofs and example inputs\<close>

definition first_match :: "'a list \<Rightarrow> 'a option" where
  "first_match xs = (case xs of [] \<Rightarrow> None | x # _ \<Rightarrow> Some x)"

definition example_row :: raw_row where
  "example_row = [''id'' \<mapsto> PStr ''H100'', ''farm'' \<mapsto> PStr ''North'', ''plot'' \<mapsto> PStr ''P7'',
     ''produce'' \<mapsto> PStr ''berries'', ''worker'' \<mapsto> PStr ''W42'', ''unit'' \<mapsto> PStr ''kg'',
     ''harvest_date'' \<mapsto> PStr ''2024-06-01 07:30:00'', ''start_time'' \<mapsto> PStr ''07:30'',
     ''end_time'' \<mapsto> PStr ''9:15'', ''duration'' \<mapsto> PFloat 175 (- 2),
     ''containers'' \<mapsto> PInt 12, ''kgs_harvested'' \<mapsto> PFloat 865 (- 1)]"

definition example_params :: hparams where
  "example_params = \<lparr>p_id = PStr ''H100'', p_farm = PStr ''North'', p_plot = PStr ''P7'',
     p_produce = PStr ''berries'', p_worker = PStr ''W42'', p_unit = PStr ''kg'',
     p_harvest_date = ''2024-06-01 07:30:00'', p_start_time = ''07:30:00'',
     p_end_time = ''09:15:00'', p_duration = PFloat 175 (- 2),
     p_containers = PInt 12, p_kgs_harvested = PFloat 865 (- 1)\<rparr>"

definition kv_merge :: "('k \<Rightarrow> bool) \<Rightarrow> 'k \<times> 'v \<Rightarrow> ('k \<times> 'v) list \<Rightarrow> ('k \<times> 'v) list" where
  "kv_merge ok p t =
     merge_into (\<lambda>q. ok (fst p) \<and> fst q = fst p) (\<lambda>q. (fst q, snd p)) p t"

definition kv_run :: "('k \<Rightarrow> bool) \<Rightarrow> ('k \<times> 'v) list \<Rightarrow> ('k \<times> 'v) list \<Rightarrow> ('k \<times> 'v) list" where
  "kv_run ok ps t = foldl (\<lambda>t p. kv_merge ok p t) t ps"

text \<open>When every key of the batch is present already, a run only overwrites values.\<close>

definition overwrite :: "('k \<times> 'v) list \<Rightarrow> 'k \<times> 'v \<Rightarrow> 'k \<times> 'v" where
  "overwrite ps q =
     (case filter (\<lambda>p. fst p = fst q) ps of [] \<Rightarrow> q | p # fs \<Rightarrow> (fst q, snd (last (p # fs))))"

definition all_accepted :: "('a \<Rightarrow> exn + 's) \<Rightarrow> 's env \<Rightarrow> 'a list \<Rightarrow> bool" where
  "all_accepted prep env data =
     list_all (\<lambda>x. case prep x of Inl e \<Rightarrow> False | Inr s \<Rightarrow> rejects env s = None) data"

definition null_farm_row :: raw_row where
  "null_farm_row = example_row(''farm'' \<mapsto> PNone)"

definition no_date_row :: raw_row where
  "no_date_row = example_row(''harvest_date'' := None)"

text \<open>
  The statements of a batch with the clock readings of their execution, as key/value
  pairs: \<open>skey\<close> is the key a statement carries, \<open>new now s\<close> the row it leaves.
\<close>

definition stamped ::
  "('s \<Rightarrow> 'k) \<Rightarrow> (nat \<Rightarrow> 's \<Rightarrow> 'r) \<Rightarrow> 's env \<Rightarrow> 's list \<Rightarrow> ('k \<times> 'r) list" where
  "stamped skey new env ss =
     map2 (\<lambda>j s. (skey s, new (getdate env j) s)) [0..<0 + length ss] ss"

definition not_null :: "pyval \<Rightarrow> bool" where
  "not_null v = (v \<noteq> PNone)"

text \<open>
  At most one row for every id that is not \<open>NULL\<close>: no two rows whose ids the \<open>ON\<close>
  clause finds equal. Rows with a \<open>NULL\<close> id are not counted, the table may hold any
  number of them. For the daily totals, no two rows with the same date.
\<close>

definition unique_non_null_ids :: "harvest_row list \<Rightarrow> bool" where
  "unique_non_null_ids t = distinct (filter not_null (map h_id t))"

definition unique_dates :: "tvn_record list \<Rightarrow> bool" where
  "unique_dates t = distinct (map t_date t)"

text \<open>A harvest row without its time of synchronisation.\<close>

definition erase_insert_date :: "harvest_row \<Rightarrow> harvest_row" where
  "erase_insert_date r = r\<lparr>h_insert_date := 0\<rparr>"

definition example_env :: "nat \<Rightarrow> 's env" where
  "example_env now =
     \<lparr>today = \<lparr>d_year = 2024, d_month = 6, d_day = 1\<rparr>,
      source = (\<lambda>a b. Inr []), connect_fails = None, rejects = (\<lambda>s. None),
      commit_fails = None, getdate = (\<lambda>i. now), to_datetime = (\<lambda>v. Inr None),
      email_sender = None, email_password = None, email_recipient = None,
      smtp_fails = None\<rparr>"

definition empty_world :: "('r, 's) world" where
  "empty_world = \<lparr>committed = [], pending = [], issued = [], log = [], mailed = [],
     notified = []\<rparr>"

definition example_row2 :: raw_row where
  "example_row2 = example_row(''kgs_harvested'' \<mapsto> PFloat 900 (- 1))"

definition example_params2 :: hparams where
  "example_params2 = example_params\<lparr>p_kgs_harvested := PFloat 900 (- 1)\<rparr>"

definition tvn_day :: tvn_row where
  "tvn_day = \<lparr>date = Some \<lparr>d_year = 2024, d_month = 6, d_day = 1\<rparr>,
     kgs_harvest_tvn = PInt 100, kgs_packed_cnd = PInt 80\<rparr>"

definition tvn_day2 :: tvn_row where
  "tvn_day2 = \<lparr>date = Some \<lparr>d_year = 2024, d_month = 6, d_day = 1\<rparr>,
     kgs_harvest_tvn = PInt 150, kgs_packed_cnd = PInt 120\<rparr>"

definition tvn_rec :: tvn_record where
  "tvn_rec = \<lparr>t_date = ''2024-06-01'', t_kgs_harvest_tvn = PInt 100, t_kgs_packed_cnd = PInt 80\<rparr>"

definition tvn_rec2 :: tvn_record where
  "tvn_rec2 = \<lparr>t_date = ''2024-06-01'', t_kgs_harvest_tvn = PInt 150, t_kgs_packed_cnd = PInt 120\<rparr>"

definition other_day :: tvn_record where
  "other_day = \<lparr>t_date = ''2024-05-31'', t_kgs_harvest_tvn = PInt 90, t_kgs_packed_cnd = PInt 70\<rparr>"

definition other_harvest :: harvest_row where
  "other_harvest = (harvest_insert 3 example_params)\<lparr>h_id := PStr ''H099''\<rparr>"

definition settled :: "'r list \<Rightarrow> ('r, 's) world" where
  "settled t = \<lparr>committed = t, pending = t, issued = [], log = [], mailed = [], notified = []\<rparr>"

definition null_id_row :: raw_row where
  "null_id_row = example_row(''id'' \<mapsto> PNone)"

definition nat_day :: tvn_row where
  "nat_day = \<lparr>date = None, kgs_harvest_tvn = PInt 1, kgs_packed_cnd = PInt 1\<rparr>"

text \<open>\<open>n\<close> runs of \<open>insert_data\<close> on the same batch; \<open>envs k\<close> is the environment of run \<open>k\<close>.\<close>

primrec insert_data_times ::
  "(nat \<Rightarrow> hparams env) \<Rightarrow> nat \<Rightarrow> raw_row list \<Rightarrow> hworld \<Rightarrow> hworld" where
  "insert_data_times envs 0 data w = w"
| "insert_data_times envs (Suc n) data w =
     snd (insert_data (envs n) data (insert_data_times envs n data w))"

primrec tvn_insert_data_times ::
  "(nat \<Rightarrow> tvn_record env) \<Rightarrow> nat \<Rightarrow> tvn_row list \<Rightarrow> tworld \<Rightarrow> tworld" where
  "tvn_insert_data_times envs 0 df w = w"
| "tvn_insert_data_times envs (Suc n) df w =
     snd (tvn_insert_data (envs n) df (tvn_insert_data_times envs n df w))"

text \<open>The window of a run: both bounds default to today's date.\<close>

definition window_start :: "'s env \<Rightarrow> date option \<Rightarrow> date" where
  "window_start env start_date = (case start_date of None \<Rightarrow> today env | Some d \<Rightarrow> d)"

text \<open>The run of \<open>main.py\<close> goes through: the source answers, the driver connects, every row
  is normalised and accepted, and the commit succeeds.\<close>

definition run_succeeds :: "hparams env \<Rightarrow> date option \<Rightarrow> date option \<Rightarrow> bool" where
  "run_succeeds env start_date end_date =
     (case source env (Some (window_start env start_date)) (Some (window_start env end_date)) of
        Inl e \<Rightarrow> False
      | Inr data \<Rightarrow> connect_fails env = None \<and> all_accepted normalize_record env data \<and>
                    commit_fails env = None)"

definition rows_fetched :: "'s env \<Rightarrow> date option \<Rightarrow> date option \<Rightarrow> nat" where
  "rows_fetched env start_date end_date =
     (case source env (Some (window_start env start_date)) (Some (window_start env end_date)) of
        Inl e \<Rightarrow> 0
      | Inr data \<Rightarrow> length data)"

definition tvn_run_succeeds :: "tvn_record env \<Rightarrow> date option \<Rightarrow> date option \<Rightarrow> bool" where
  "tvn_run_succeeds env start_date end_date =
     (case fst (get_supabase_data env (Some (window_start env start_date))
                  (Some (window_start env end_date)) (empty_world :: tworld)) of
        Inl e \<Rightarrow> False
      | Inr df \<Rightarrow> connect_fails env = None \<and> all_accepted tvn_statement env df \<and>
                  commit_fails env = None)"

text \<open>
  The exception that ends the \<open>try\<close> block of \<open>sync_data\<close> of \<open>main.py\<close>: the one raised by
  the first of \<open>fetch_api_data\<close>, \<open>get_database_connection\<close> and \<open>insert_data\<close> that
  raises, each run in the state that the one before it left; \<open>None\<close> when none raises.
\<close>

definition stage_error ::
  "hparams env \<Rightarrow> date option \<Rightarrow> date option \<Rightarrow> hworld \<Rightarrow> exn option" where
  "stage_error env start_date end_date w =
     (case fetch_api_data env (window_start env start_date) (window_start env end_date) w of
        (Inl e, w1) \<Rightarrow> Some e
      | (Inr data, w1) \<Rightarrow>
          (case get_database_connection env w1 of
             (Inl e, w2) \<Rightarrow> Some e
           | (Inr u, w2) \<Rightarrow>
               (case insert_data env data w2 of
                  (Inl e, w3) \<Rightarrow> Some e
                | (Inr u', w3) \<Rightarrow> None)))"

definition bad_batch_env :: "'s env" where
  "bad_batch_env = (example_env 7)\<lparr>source := (\<lambda>a b. Inr [example_row, no_date_row])\<rparr>"

definition empty_rows_env :: "'s env" where
  "empty_rows_env = (example_env 7)\<lparr>source := (\<lambda>a b. Inr [Map.empty])\<rparr>"

definition failing_env :: "'s env" where
  "failing_env = (example_env 7)\<lparr>source := (\<lambda>a b. Inl (RequestError ''503 Server Error''))\<rparr>"

definition warning_text :: string where
  "warning_text = ''Email configuration missing. Skipping email notification.''"

definition example_notification :: notification where
  "example_notification = \<lparr>n_success = True, n_start = \<lparr>d_year = 2024, d_month = 6, d_day = 1\<rparr>,
     n_end = \<lparr>d_year = 2024, d_month = 6, d_day = 1\<rparr>, n_error = None, n_records = 0\<rparr>"

definition missing_columns_of :: "raw_row list \<Rightarrow> string list" where
  "missing_columns_of data = filter (\<lambda>col. \<not> has_column data col) required_columns"

definition partial_row :: raw_row where
  "partial_row = [''date'' \<mapsto> PStr ''2024-06-01'', ''kilos_packed'' \<mapsto> PInt 80]"

definition partial_env :: "'s env" where
  "partial_env = (example_env 7)\<lparr>source := (\<lambda>a b. Inr [partial_row])\<rparr>"

section \<open>Properties\<close>

lemma of_char_digit: "of_char (digit n) = (48::nat) + n mod 10"
proof -
  have "n mod 10 < 10" by simp
  then have "n mod 10 = 0 \<or> n mod 10 = 1 \<or> n mod 10 = 2 \<or> n mod 10 = 3 \<or> n mod 10 = 4 \<or>
      n mod 10 = 5 \<or> n mod 10 = 6 \<or> n mod 10 = 7 \<or> n mod 10 = 8 \<or> n mod 10 = 9"
    by arith
  then show ?thesis
    by (elim disjE) (simp_all add: digit_def)
qed

lemma between_digit: "between lo hi (digit n) = (lo \<le> n mod 10 \<and> n mod 10 \<le> hi)"
  by (simp add: between_def of_char_digit)

lemma digit_val_digit: "digit_val (digit n) = n mod 10"
  by (simp add: digit_val_def of_char_digit)

lemma not_space_digit: "\<not> is_space (digit n)"
proof -
  have "n mod 10 < 10" by simp
  then have "n mod 10 \<noteq> 85" "n mod 10 \<noteq> 112" by linarith+
  then show ?thesis by (simp add: is_space_def of_char_digit Let_def)
qed

lemma digit_not_sep: "digit n \<noteq> CHR ''-''" "digit n \<noteq> CHR '':''" "digit n \<noteq> CHR '' ''"
proof -
  have "of_char (digit n) \<noteq> (45::nat)" "of_char (digit n) \<noteq> (58::nat)" "of_char (digit n) \<noteq> (32::nat)"
    by (simp_all add: of_char_digit) 
  then show "digit n \<noteq> CHR ''-''" "digit n \<noteq> CHR '':''" "digit n \<noteq> CHR '' ''" by auto
qed

lemma between_bounds: "between lo hi c \<Longrightarrow> lo \<le> digit_val c \<and> digit_val c \<le> hi"
  by (auto simp: between_def digit_val_def)

lemma two_bounds: "(v, rest) \<in> set (two (between a b) (between c d) s) \<Longrightarrow> 10 * a + c \<le> v \<and> v \<le> 10 * b + d"
  by (cases "(between a b, between c d, s)" rule: two.cases) (auto split: if_splits dest!: between_bounds)

lemma one_bounds: "(v, rest) \<in> set (one (between a b) s) \<Longrightarrow> a \<le> v \<and> v \<le> b"
  by (cases s) (auto split: if_splits dest!: between_bounds)

lemma space_one_bounds: "(v, rest) \<in> set (space_one s) \<Longrightarrow> 1 \<le> v \<and> v \<le> 9"
  by (cases s rule: space_one.cases) (auto split: if_splits dest!: between_bounds)

lemma re_Y_bounds: "(v, rest) \<in> set (re_Y s) \<Longrightarrow> v \<le> 9999"
  by (cases s rule: re_Y.cases) (auto split: if_splits dest!: between_bounds)

lemma re_m_bounds: "(v, rest) \<in> set (re_m s) \<Longrightarrow> 1 \<le> v \<and> v \<le> 12"
  by (auto simp: re_m_def dest!: two_bounds one_bounds)

lemma re_d_bounds: "(v, rest) \<in> set (re_d s) \<Longrightarrow> 1 \<le> v \<and> v \<le> 31"
  by (auto simp: re_d_def dest!: two_bounds one_bounds space_one_bounds)

lemma re_H_bounds: "(v, rest) \<in> set (re_H s) \<Longrightarrow> v \<le> 23"
  by (auto simp: re_H_def dest!: two_bounds one_bounds)

lemma re_M_bounds: "(v, rest) \<in> set (re_M s) \<Longrightarrow> v \<le> 59"
  by (auto simp: re_M_def dest!: two_bounds one_bounds)

lemma re_S_bounds: "(v, rest) \<in> set (re_S s) \<Longrightarrow> v \<le> 61"
  by (auto simp: re_S_def dest!: two_bounds one_bounds)

lemma match_ymd_hms_bounds:
  "((Y, m, d, H, M, S), rest) \<in> set (match_ymd_hms s) \<Longrightarrow>
     Y \<le> 9999 \<and> 1 \<le> m \<and> m \<le> 12 \<and> 1 \<le> d \<and> H \<le> 23 \<and> M \<le> 59"
  unfolding match_ymd_hms_def
  by (auto simp: List.bind_def dest!: re_Y_bounds re_m_bounds re_d_bounds re_H_bounds re_M_bounds)

lemma match_hm_bounds:
  "((H, M), rest) \<in> set (match_hm s) \<Longrightarrow> H \<le> 23 \<and> M \<le> 59"
  unfolding match_hm_def
  by (auto simp: List.bind_def dest!: re_H_bounds re_M_bounds)

lemma strptime_ymd_hms_valid: "strptime_ymd_hms v = Inr t \<Longrightarrow> valid_datetime t"
proof -
  assume a: "strptime_ymd_hms v = Inr t"
  then obtain s where v: "v = PStr s" by (cases v) (auto simp: strptime_ymd_hms_def)
  from a v obtain x tl where m: "match_ymd_hms s = x # tl"
    by (cases "match_ymd_hms s") (auto simp: strptime_ymd_hms_def)
  obtain Y mo d H M S rest where x: "x = ((Y, mo, d, H, M, S), rest)" by (cases x) auto
  have "((Y, mo, d, H, M, S), rest) \<in> set (match_ymd_hms s)" using m x by simp
  from match_ymd_hms_bounds[OF this] a v m x show ?thesis
    by (auto simp: strptime_ymd_hms_def valid_datetime_def split: if_splits)
qed

lemma strptime_hm_valid: "strptime_hm v = Inr t \<Longrightarrow> valid_datetime t"
proof -
  assume a: "strptime_hm v = Inr t"
  then obtain s where v: "v = PStr s" by (cases v) (auto simp: strptime_hm_def)
  from a v obtain x tl where m: "match_hm s = x # tl"
    by (cases "match_hm s") (auto simp: strptime_hm_def)
  obtain H M rest where x: "x = ((H, M), rest)" by (cases x) auto
  have "((H, M), rest) \<in> set (match_hm s)" using m x by simp
  from match_hm_bounds[OF this] a v m x show ?thesis
    by (auto simp: strptime_hm_def valid_datetime_def days_in_month_def split: if_splits)
qed

lemma decimal4: "y \<le> 9999 \<Longrightarrow> 1000 * (y div 1000 mod 10) + 100 * (y div 100 mod 10) + 10 * (y div 10 mod 10) + y mod 10 = (y::nat)"
proof -
  assume y: "y \<le> 9999"
  have a: "y = 10 * (y div 10) + y mod 10" by simp
  have b: "y div 10 = 10 * (y div 10 div 10) + y div 10 mod 10" by simp
  have b': "y div 10 div 10 = y div 100" using div_mult2_eq[of y 10 10] by simp
  have c: "y div 100 = 10 * (y div 100 div 10) + y div 100 mod 10" by simp
  have c': "y div 100 div 10 = y div 1000" using div_mult2_eq[of y 100 10] by simp
  have d: "y div 1000 mod 10 = y div 1000" using y by simp
  show ?thesis using a b b' c c' d by linarith
qed

lemma mod10_le9: "n mod 10 \<le> (9::nat)"
proof -
  have "n mod 10 < 10" by simp
  then show ?thesis by linarith
qed

lemma re_Y_pad4: "y \<le> 9999 \<Longrightarrow> re_Y (pad4 y @ rest) = [(y, rest)]"
proof -
  assume y: "y \<le> 9999"
  have e: "1000 * (y div 1000 mod 10) + 100 * (y div 100 mod 10) + 10 * (y div 10 mod 10) + y mod 10 = y"
    using y by (rule decimal4)
  have "re_Y (pad4 y @ rest) = [(1000 * (y div 1000 mod 10) + 100 * (y div 100 mod 10) + 10 * (y div 10 mod 10) + y mod 10, rest)]"
    by (simp only: pad4_def append_Cons append_Nil re_Y.simps between_digit digit_val_digit mod10_le9 le0 simp_thms if_True)
  then show ?thesis by (simp only: e)
qed

lemma div10_eq: "10 * q \<le> n \<Longrightarrow> n < 10 * q + 10 \<Longrightarrow> n div 10 = (q::nat)"
  by (rule div_nat_eqI) simp_all

lemma mod10_eq: "10 * q \<le> n \<Longrightarrow> n < 10 * q + 10 \<Longrightarrow> n mod 10 = n - 10 * (q::nat)"
proof -
  assume a: "10 * q \<le> n" "n < 10 * q + 10"
  then have "n div 10 = q" by (rule div10_eq)
  moreover have "n = 10 * (n div 10) + n mod 10" by simp
  ultimately have "n = 10 * q + n mod 10" by simp
  then show ?thesis by linarith
qed

lemma two_pad2:
  "10 * q \<le> n \<Longrightarrow> n < 10 * q + 10 \<Longrightarrow> q < 10 \<Longrightarrow>
   two (between a b) (between c d) (pad2 n @ rest) =
     (if a \<le> q \<and> q \<le> b \<and> c \<le> n - 10 * q \<and> n - 10 * q \<le> d then [(n, rest)] else [])"
proof -
  assume a: "10 * q \<le> n" "n < 10 * q + 10" and q: "q < 10"
  have dv: "n div 10 = q" using a by (rule div10_eq)
  have md: "n mod 10 = n - 10 * q" using a by (rule mod10_eq)
  have qq: "q mod 10 = q" using q by simp
  have e: "10 * q + (n - 10 * q) = n" using a by linarith
  show ?thesis
    by (simp only: pad2_def append_Cons append_Nil two.simps between_digit digit_val_digit dv md qq e conj_assoc)
qed

lemma one_pad2:
  "10 * q \<le> n \<Longrightarrow> n < 10 * q + 10 \<Longrightarrow> q < 10 \<Longrightarrow>
   one (between a b) (pad2 n @ rest) =
     (if a \<le> q \<and> q \<le> b then [(q, digit n # rest)] else [])"
proof -
  assume a: "10 * q \<le> n" "n < 10 * q + 10" and q: "q < 10"
  have dv: "n div 10 = q" using a by (rule div10_eq)
  have qq: "q mod 10 = q" using q by simp
  show ?thesis
    by (simp only: pad2_def append_Cons append_Nil one.simps between_digit digit_val_digit dv qq)
qed

lemma re_m_pad2: "1 \<le> m \<Longrightarrow> m \<le> 12 \<Longrightarrow> \<exists>tl. re_m (pad2 m @ rest) = (m, rest) # tl"
proof -
  assume m: "1 \<le> m" "m \<le> 12"
  show ?thesis
  proof (cases "m < 10")
    case True
    then have r: "10 * 0 \<le> m" "m < 10 * 0 + 10" "(0::nat) < 10" by simp_all
    show ?thesis
      unfolding re_m_def two_pad2[OF r] one_pad2[OF r] using m True by auto
  next
    case False
    with m have r: "10 * 1 \<le> m" "m < 10 * 1 + 10" "(1::nat) < 10" by simp_all
    show ?thesis
      unfolding re_m_def two_pad2[OF r] one_pad2[OF r] using m False by auto
  qed
qed

lemma re_d_pad2: "1 \<le> d \<Longrightarrow> d \<le> 31 \<Longrightarrow> \<exists>tl. re_d (pad2 d @ rest) = (d, rest) # tl"
proof -
  assume d: "1 \<le> d" "d \<le> 31"
  have sp: "space_one (pad2 d @ rest) = []"
    by (simp add: pad2_def digit_not_sep)
  consider "d < 10" | "10 \<le> d \<and> d < 20" | "20 \<le> d \<and> d < 30" | "30 \<le> d" by linarith
  then show ?thesis
  proof cases
    case 1
    then have r: "10 * 0 \<le> d" "d < 10 * 0 + 10" "(0::nat) < 10" by simp_all
    show ?thesis
      unfolding re_d_def two_pad2[OF r] one_pad2[OF r] sp using d 1 by auto
  next
    case 2
    then have r: "10 * 1 \<le> d" "d < 10 * 1 + 10" "(1::nat) < 10" by simp_all
    show ?thesis
      unfolding re_d_def two_pad2[OF r] one_pad2[OF r] sp using d 2 by auto
  next
    case 3
    then have r: "10 * 2 \<le> d" "d < 10 * 2 + 10" "(2::nat) < 10" by simp_all
    show ?thesis
      unfolding re_d_def two_pad2[OF r] one_pad2[OF r] sp using d 3 by auto
  next
    case 4
    with d have r: "10 * 3 \<le> d" "d < 10 * 3 + 10" "(3::nat) < 10" by simp_all
    show ?thesis
      unfolding re_d_def two_pad2[OF r] one_pad2[OF r] sp using d 4 by auto
  qed
qed

lemma re_H_pad2: "h < 24 \<Longrightarrow> \<exists>tl. re_H (pad2 h @ rest) = (h, rest) # tl"
proof -
  assume h: "h < 24"
  consider "h < 10" | "10 \<le> h \<and> h < 20" | "20 \<le> h" by linarith
  then show ?thesis
  proof cases
    case 1
    then have r: "10 * 0 \<le> h" "h < 10 * 0 + 10" "(0::nat) < 10" by simp_all
    show ?thesis
      unfolding re_H_def two_pad2[OF r] one_pad2[OF r] using h 1 by auto
  next
    case 2
    then have r: "10 * 1 \<le> h" "h < 10 * 1 + 10" "(1::nat) < 10" by simp_all
    show ?thesis
      unfolding re_H_def two_pad2[OF r] one_pad2[OF r] using h 2 by auto
  next
    case 3
    with h have r: "10 * 2 \<le> h" "h < 10 * 2 + 10" "(2::nat) < 10" by simp_all
    show ?thesis
      unfolding re_H_def two_pad2[OF r] one_pad2[OF r] using h 3 by auto
  qed
qed

lemma sixty_cases:
  "n < 60 \<Longrightarrow> \<exists>q::nat. 10 * q \<le> n \<and> n < 10 * q + 10 \<and> q \<le> 5"
proof -
  assume "n < 60"
  then have "10 * (n div 10) \<le> n \<and> n < 10 * (n div 10) + 10 \<and> n div 10 \<le> 5"
    by (simp add: div_le_mono[of n 59 10, simplified] ) 
  then show ?thesis by blast
qed

lemma re_M_pad2: "n < 60 \<Longrightarrow> \<exists>tl. re_M (pad2 n @ rest) = (n, rest) # tl"
proof -
  assume n: "n < 60"
  from sixty_cases[OF n] obtain q where q: "10 * q \<le> n" "n < 10 * q + 10" "q \<le> 5" by blast
  then have q10: "q < 10" by simp
  show ?thesis
    unfolding re_M_def two_pad2[OF q(1) q(2) q10] one_pad2[OF q(1) q(2) q10] using q by auto
qed

lemma re_S_pad2: "n < 60 \<Longrightarrow> \<exists>tl. re_S (pad2 n @ rest) = (n, rest) # tl"
proof -
  assume n: "n < 60"
  from sixty_cases[OF n] obtain q where q: "10 * q \<le> n" "n < 10 * q + 10" "q \<le> 5" by blast
  then have q10: "q < 10" by simp
  show ?thesis
    unfolding re_S_def two_pad2[OF q(1) q(2) q10] one_pad2[OF q(1) q(2) q10] using q by auto
qed

lemma is_space_blank: "is_space CHR '' ''"
  by (simp add: is_space_def)

lemma spaces_one_blank: "spaces (CHR '' '' # pad2 n @ rest) = [((), pad2 n @ rest)]"
  by (simp add: pad2_def not_space_digit is_space_blank)

lemma first_match_Cons: "first_match (x # xs) = Some x"
  by (simp add: first_match_def)

lemma first_match_bind:
  "first_match (List.bind (x # xs) f) =
     (case first_match (f x) of Some y \<Rightarrow> Some y | None \<Rightarrow> first_match (List.bind xs f))"
  by (cases "f x") (simp_all add: first_match_def List.bind_def)

lemma first_match_SomeD: "first_match xs = Some x \<Longrightarrow> \<exists>ys. xs = x # ys"
  by (cases xs) (simp_all add: first_match_def)

lemma match_strftime:
  assumes "valid_datetime t"
  shows "\<exists>tl. match_ymd_hms (strftime_ymd_hms t) =
           ((year t, month t, day t, hour t, minute t, second t), []) # tl"
proof -
  let ?r5 = "pad2 (second t)"
  let ?r4 = "pad2 (minute t) @ CHR '':'' # ?r5"
  let ?r3 = "pad2 (hour t) @ CHR '':'' # ?r4"
  let ?r2 = "pad2 (day t) @ CHR '' '' # ?r3"
  let ?r1 = "pad2 (month t) @ CHR ''-'' # ?r2"
  have s: "strftime_ymd_hms t = pad4 (year t) @ CHR ''-'' # ?r1"
    by (simp add: strftime_ymd_hms_def strftime_ymd_def strftime_hms_def)
  from assms have b: "year t \<le> 9999" "1 \<le> month t" "month t \<le> 12" "1 \<le> day t" "day t \<le> 31"
    "hour t < 24" "minute t < 60" "second t < 60"
    by (auto simp: valid_datetime_def days_in_month_def split: if_splits)
  have y: "re_Y (pad4 (year t) @ CHR ''-'' # ?r1) = [(year t, CHR ''-'' # ?r1)]"
    using b(1) by (rule re_Y_pad4)
  obtain t1 where m: "re_m ?r1 = (month t, CHR ''-'' # ?r2) # t1" using b re_m_pad2 by blast
  obtain t2 where d: "re_d ?r2 = (day t, CHR '' '' # ?r3) # t2" using b re_d_pad2 by blast
  have sp: "spaces (CHR '' '' # ?r3) = [((), ?r3)]" by (rule spaces_one_blank)
  obtain t3 where h: "re_H ?r3 = (hour t, CHR '':'' # ?r4) # t3" using b re_H_pad2 by blast
  obtain t4 where mi: "re_M ?r4 = (minute t, CHR '':'' # ?r5) # t4" using b re_M_pad2 by blast
  obtain t5 where se: "re_S ?r5 = (second t, []) # t5" using b re_S_pad2[of "second t" "[]"] by auto
  have "first_match (match_ymd_hms (strftime_ymd_hms t)) =
          Some ((year t, month t, day t, hour t, minute t, second t), [])"
    unfolding s match_ymd_hms_def
    by (simp only: y m d sp h mi se first_match_bind first_match_Cons lit.simps
          prod.case option.case simp_thms if_True)
  then show ?thesis by (rule first_match_SomeD)
qed

lemma strptime_strftime:
  assumes "valid_datetime t"
  shows "strptime_ymd_hms (PStr (strftime_ymd_hms t)) = Inr t"
proof -
  from match_strftime[OF assms] obtain tl where
    "match_ymd_hms (strftime_ymd_hms t) = ((year t, month t, day t, hour t, minute t, second t), []) # tl" ..
  with assms show ?thesis
    by (simp add: strptime_ymd_hms_def valid_datetime_def)
qed

lemma length_strftime [simp]: "length (strftime_ymd_hms t) = 19" "length (strftime_hms t) = 8"
  by (simp_all add: strftime_ymd_hms_def strftime_ymd_def strftime_hms_def pad2_def pad4_def)

lemma andthen_Inr: "andthen x f = Inr c \<longleftrightarrow> (\<exists>v. x = Inr v \<and> f v = Inr c)"
  by (cases x) (simp_all add: andthen_def)

lemma getitem_Inr: "getitem r k = Inr v \<longleftrightarrow> r k = Some v"
  by (simp add: getitem_def split: option.splits)

lemma normalize_record_Inr:
  "normalize_record r = Inr c \<longleftrightarrow>
     (\<exists>v1 t1 v2 t2 v3 t3 a b c' d e f g h i.
        r ''harvest_date'' = Some v1 \<and> strptime_ymd_hms v1 = Inr t1 \<and>
        r ''start_time'' = Some v2 \<and> strptime_hm v2 = Inr t2 \<and>
        r ''end_time'' = Some v3 \<and> strptime_hm v3 = Inr t3 \<and>
        r ''id'' = Some a \<and> r ''farm'' = Some b \<and> r ''plot'' = Some c' \<and>
        r ''produce'' = Some d \<and> r ''worker'' = Some e \<and> r ''unit'' = Some f \<and>
        r ''duration'' = Some g \<and> r ''containers'' = Some h \<and> r ''kgs_harvested'' = Some i \<and>
        c = \<lparr>p_id = a, p_farm = b, p_plot = c', p_produce = d, p_worker = e, p_unit = f,
            p_harvest_date = strftime_ymd_hms t1, p_start_time = strftime_hms t2,
            p_end_time = strftime_hms t3,
            p_duration = g, p_containers = h, p_kgs_harvested = i\<rparr>)"
  unfolding normalize_record_def andthen_Inr getitem_Inr
  by (simp only: ex_simps[symmetric] conj_assoc) (rule iffI; (elim exE conjE)?; blast)

lemma ex1: "strptime_ymd_hms (PStr ''2024-06-01 07:30:00'') = Inr \<lparr>year = 2024, month = 6, day = 1, hour = 7, minute = 30, second = 0\<rparr>"
  by code_simp

lemma ex2: "strptime_hm (PStr ''07:30'') = Inr \<lparr>year = 1900, month = 1, day = 1, hour = 7, minute = 30, second = 0\<rparr>"
  by code_simp

lemma ex3: "strptime_hm (PStr ''9:15'') = Inr \<lparr>year = 1900, month = 1, day = 1, hour = 9, minute = 15, second = 0\<rparr>"
  by code_simp

lemma ex4: "normalize_record example_row = Inr example_params"
  by (simp add: normalize_record_def andthen_def getitem_def example_row_def example_params_def ex1 ex2 ex3
       strftime_ymd_hms_def strftime_ymd_def strftime_hms_def pad2_def pad4_def digit_def)

lemma ex5: "valid_raw example_row"
  by (simp add: valid_raw_def required_fields_def parses_def example_row_def ex1 ex2 ex3)

lemma list_ex_iff_set: "list_ex P xs = (\<exists>x\<in>set xs. P x)"
  by (simp add: list_ex_iff)

lemma map_merge_into:
  assumes "\<And>r. r \<in> set t \<Longrightarrow> m' (A r) = m r"
    and "\<And>r. r \<in> set t \<Longrightarrow> m r \<Longrightarrow> A (u r) = u' (A r)"
  shows "map A (merge_into m u n t) = merge_into m' u' (A n) (map A t)"
  using assms by (auto simp: merge_into_def list_ex_iff)

lemma kv_merge_matched:
  "ok (fst p) \<Longrightarrow> \<exists>q\<in>set t. fst q = fst p \<Longrightarrow>
   kv_merge ok p t = map (\<lambda>q. if fst q = fst p then (fst q, snd p) else q) t"
  by (simp add: kv_merge_def merge_into_def list_ex_iff)

lemma kv_merge_unmatched:
  "\<not> (ok (fst p) \<and> (\<exists>q\<in>set t. fst q = fst p)) \<Longrightarrow> kv_merge ok p t = t @ [p]"
  by (auto simp: kv_merge_def merge_into_def list_ex_iff)

lemma map_fst_update: "map fst (map (\<lambda>q. if fst q = k then (fst q, v) else q) t) = map fst t"
  by (induction t) auto

lemma kv_merge_keys:
  "map fst (kv_merge ok p t) =
     (if ok (fst p) \<and> (\<exists>q\<in>set t. fst q = fst p) then map fst t else map fst t @ [fst p])"
proof (cases "ok (fst p) \<and> (\<exists>q\<in>set t. fst q = fst p)")
  case True
  then have "kv_merge ok p t = map (\<lambda>q. if fst q = fst p then (fst q, snd p) else q) t"
    by (simp add: kv_merge_matched)
  then show ?thesis using True by (simp add: map_fst_update)
next
  case False
  then show ?thesis by (simp add: kv_merge_unmatched)
qed

lemma kv_merge_distinct:
  assumes "distinct (filter ok (map fst t))"
  shows "distinct (filter ok (map fst (kv_merge ok p t)))"
proof (cases "ok (fst p) \<and> (\<exists>q\<in>set t. fst q = fst p)")
  case True
  then show ?thesis using assms by (simp add: kv_merge_keys)
next
  case False
  then have "ok (fst p) \<Longrightarrow> fst p \<notin> set (map fst t)" by auto
  then show ?thesis using assms False by (auto simp: kv_merge_keys)
qed

lemma kv_run_distinct:
  "distinct (filter ok (map fst t)) \<Longrightarrow> distinct (filter ok (map fst (kv_run ok ps t)))"
  unfolding kv_run_def
  by (induction ps arbitrary: t) (simp_all add: kv_merge_distinct)

lemma kv_merge_length: "length t \<le> length (kv_merge ok p t)"
  by (simp add: kv_merge_def merge_into_def)

lemma kv_merge_nth:
  assumes "i < length t"
  shows "fst (kv_merge ok p t ! i) = fst (t ! i) \<and>
         (\<not> (ok (fst p) \<and> fst (t ! i) = fst p) \<longrightarrow> kv_merge ok p t ! i = t ! i)"
  using assms by (auto simp: kv_merge_def merge_into_def nth_append)

lemma kv_run_Nil [simp]: "kv_run ok [] t = t"
  by (simp add: kv_run_def)

lemma kv_run_Cons [simp]: "kv_run ok (p # ps) t = kv_run ok ps (kv_merge ok p t)"
  by (simp add: kv_run_def)

lemma kv_run_snoc [simp]: "kv_run ok (ps @ [p]) t = kv_merge ok p (kv_run ok ps t)"
  by (simp add: kv_run_def)

lemma kv_run_frame:
  "i < length t \<Longrightarrow>
     i < length (kv_run ok ps t) \<and> fst (kv_run ok ps t ! i) = fst (t ! i) \<and>
     ((\<forall>p\<in>set ps. \<not> (ok (fst p) \<and> fst (t ! i) = fst p)) \<longrightarrow> kv_run ok ps t ! i = t ! i)"
proof (induction ps arbitrary: t)
  case Nil
  then show ?case by simp
next
  case (Cons p ps)
  let ?t = "kv_merge ok p t"
  have l: "i < length ?t" using Cons.prems kv_merge_length[of t ok p] by linarith
  from kv_merge_nth[OF Cons.prems, of ok p] Cons.IH[OF l] show ?case by auto
qed

lemma kv_merge_key_present:
  "\<exists>q\<in>set t. fst q = k \<Longrightarrow> \<exists>q\<in>set (kv_merge ok p t). fst q = k"
proof -
  assume "\<exists>q\<in>set t. fst q = k"
  then have "k \<in> set (map fst t)" by auto
  then have "k \<in> set (map fst (kv_merge ok p t))" by (simp add: kv_merge_keys)
  then show ?thesis by auto
qed

lemma kv_merge_own_key:
  "ok (fst p) \<Longrightarrow> (\<exists>q\<in>set (kv_merge ok p t). fst q = fst p) \<and>
     (\<forall>q\<in>set (kv_merge ok p t). fst q = fst p \<longrightarrow> snd q = snd p)"
proof (cases "\<exists>q\<in>set t. fst q = fst p")
  case True
  assume "ok (fst p)"
  with True have "kv_merge ok p t = map (\<lambda>q. if fst q = fst p then (fst q, snd p) else q) t"
    by (simp add: kv_merge_matched)
  with True show ?thesis by auto
next
  case False
  then have "kv_merge ok p t = t @ [p]" by (simp add: kv_merge_unmatched)
  with False show ?thesis by auto
qed

lemma kv_merge_other_key:
  "k \<noteq> fst p \<Longrightarrow> q \<in> set (kv_merge ok p t) \<Longrightarrow> fst q = k \<Longrightarrow> q \<in> set t"
  by (auto simp: kv_merge_def merge_into_def split: if_splits)

text \<open>After a run every key of the batch is present, with the value of its last pair.\<close>

lemma kv_run_last:
  "p \<in> set ps \<Longrightarrow> ok (fst p) \<Longrightarrow>
     (\<exists>q\<in>set (kv_run ok ps t). fst q = fst p) \<and>
     (\<forall>q\<in>set (kv_run ok ps t). fst q = fst p \<longrightarrow>
        snd q = snd (last (filter (\<lambda>p'. fst p' = fst p) ps)))"
proof (induction ps arbitrary: p rule: rev_induct)
  case Nil
  then show ?case by simp
next
  case (snoc x xs)
  show ?case
  proof (cases "fst x = fst p")
    case True
    with snoc.prems have "ok (fst x)" by simp
    from kv_merge_own_key[of ok x "kv_run ok xs t"] this True show ?thesis by simp
  next
    case False
    with snoc.prems have mem: "p \<in> set xs" by auto
    note ih = snoc.IH[OF mem snoc.prems(2)]
    have pres: "\<exists>q\<in>set (kv_merge ok x (kv_run ok xs t)). fst q = fst p"
      using ih kv_merge_key_present by fast
    have vals: "\<forall>q\<in>set (kv_merge ok x (kv_run ok xs t)). fst q = fst p \<longrightarrow>
        snd q = snd (last (filter (\<lambda>p'. fst p' = fst p) xs))"
      using ih kv_merge_other_key[of "fst p" x _ ok "kv_run ok xs t"] False by metis
    from pres vals False show ?thesis by simp
  qed
qed

lemma overwrite_Nil [simp]: "overwrite [] q = q"
  by (simp add: overwrite_def)

lemma overwrite_fst [simp]: "fst (overwrite ps q) = fst q"
  by (simp add: overwrite_def split: list.splits)

lemma overwrite_Cons:
  "overwrite (p # ps) q = overwrite ps (if fst q = fst p then (fst q, snd p) else q)"
  by (auto simp: overwrite_def split: list.splits)

lemma kv_run_present:
  "\<forall>p\<in>set ps. ok (fst p) \<and> (\<exists>q\<in>set t. fst q = fst p) \<Longrightarrow>
     kv_run ok ps t = map (overwrite ps) t"
proof (induction ps arbitrary: t)
  case Nil
  then show ?case by simp
next
  case (Cons p ps)
  let ?u = "\<lambda>q. if fst q = fst p then (fst q, snd p) else q"
  have m: "kv_merge ok p t = map ?u t" using Cons.prems by (simp add: kv_merge_matched)
  have "\<forall>p'\<in>set ps. ok (fst p') \<and> (\<exists>q\<in>set (kv_merge ok p t). fst q = fst p')"
    using Cons.prems kv_merge_key_present[of t _ ok p] by simp
  from Cons.IH[OF this] show ?case by (simp add: m overwrite_Cons)
qed

lemma kv_run_idem:
  assumes "\<forall>p\<in>set ps. ok (fst p)"
  shows "kv_run ok ps (kv_run ok ps t) = kv_run ok ps t"
proof -
  let ?t = "kv_run ok ps t"
  have "\<forall>p\<in>set ps. ok (fst p) \<and> (\<exists>q\<in>set ?t. fst q = fst p)"
    using assms kv_run_last[of _ ps ok t] by blast
  then have "kv_run ok ps ?t = map (overwrite ps) ?t" by (rule kv_run_present)
  also have "\<dots> = ?t"
  proof (rule map_idI)
    fix q assume q: "q \<in> set ?t"
    show "overwrite ps q = q"
    proof (cases "filter (\<lambda>p. fst p = fst q) ps")
      case Nil
      then show ?thesis by (simp add: overwrite_def)
    next
      case (Cons p fs)
      then have "p \<in> set (filter (\<lambda>p. fst p = fst q) ps)" by simp
      then have p: "p \<in> set ps" "fst p = fst q" by auto
      with assms have "ok (fst p)" by blast
      from kv_run_last[of p ps ok t] p(1) this q p(2)
      have "snd q = snd (last (filter (\<lambda>p'. fst p' = fst q) ps))" by auto
      then show ?thesis using Cons by (simp add: overwrite_def prod_eq_iff)
    qed
  qed
  finally show ?thesis .
qed

lemma kv_merge_apsnd:
  "map (apsnd f) (kv_merge ok p t) = kv_merge ok (apsnd f p) (map (apsnd f) t)"
  unfolding kv_merge_def
  by (rule map_merge_into) (auto simp: apsnd_def map_prod_def split: prod.splits)

lemma kv_run_apsnd:
  "map (apsnd f) (kv_run ok ps t) = kv_run ok (map (apsnd f) ps) (map (apsnd f) t)"
  by (induction ps arbitrary: t) (simp_all add: kv_merge_apsnd)

lemma kv_run_idem_upto:
  assumes "\<forall>p\<in>set ps. ok (fst p)" and "map (apsnd f) ps' = map (apsnd f) ps"
  shows "map (apsnd f) (kv_run ok ps' (kv_run ok ps t)) = map (apsnd f) (kv_run ok ps t)"
proof -
  have ok': "\<forall>p\<in>set (map (apsnd f) ps). ok (fst p)" using assms(1) by simp
  show ?thesis
    by (simp only: kv_run_apsnd assms(2) kv_run_idem[OF ok'])
qed

lemma execute_other [simp]:
  "committed (snd (execute stmt env i s w)) = committed w"
  "log (snd (execute stmt env i s w)) = log w"
  "mailed (snd (execute stmt env i s w)) = mailed w"
  "notified (snd (execute stmt env i s w)) = notified w"
  "issued (snd (execute stmt env i s w)) = issued w @ [s]"
  by (simp_all add: execute_def Let_def split: option.splits)

lemma execute_fst:
  "fst (execute stmt env i s w) = (case rejects env s of Some e \<Rightarrow> Inl e | None \<Rightarrow> Inr ())"
  by (simp add: execute_def Let_def split: option.splits)

lemma execute_pending:
  "rejects env s = None \<Longrightarrow>
     pending (snd (execute stmt env i s w)) = stmt (getdate env i) s (pending w)"
  by (simp add: execute_def Let_def)

lemma insert_loop_other:
  "committed (snd (insert_loop prep stmt env i data w)) = committed w \<and>
   log (snd (insert_loop prep stmt env i data w)) = log w \<and>
   mailed (snd (insert_loop prep stmt env i data w)) = mailed w \<and>
   notified (snd (insert_loop prep stmt env i data w)) = notified w"
proof (induction data arbitrary: i w)
  case Nil
  then show ?case by simp
next
  case (Cons x xs)
  show ?case
  proof (cases "prep x")
    case (Inl e)
    then show ?thesis by simp
  next
    case (Inr s)
    obtain r w1 where ex: "execute stmt env i s w = (r, w1)" by (cases "execute stmt env i s w")
    have w1: "committed w1 = committed w" "log w1 = log w" "mailed w1 = mailed w" "notified w1 = notified w"
      using execute_other[of stmt env i s w] ex by simp_all
    show ?thesis
    proof (cases r)
      case (Inl e)
      with Inr ex w1 show ?thesis by simp
    next
      case (Inr u)
      with \<open>prep x = Inr s\<close> ex w1 Cons.IH[of "Suc i" w1] show ?thesis by simp
    qed
  qed
qed

lemma insert_loop_fst:
  "(fst (insert_loop prep stmt env i data w) = Inr ()) = all_accepted prep env data"
proof (induction data arbitrary: i w)
  case Nil
  then show ?case by (simp add: all_accepted_def)
next
  case (Cons x xs)
  show ?case
  proof (cases "prep x")
    case (Inl e)
    then show ?thesis by (simp add: all_accepted_def)
  next
    case (Inr s)
    obtain r w1 where ex: "execute stmt env i s w = (r, w1)" by (cases "execute stmt env i s w")
    have r: "r = (case rejects env s of Some e \<Rightarrow> Inl e | None \<Rightarrow> Inr ())"
      using execute_fst[of stmt env i s w] ex by simp
    show ?thesis
    proof (cases "rejects env s")
      case None
      with r have "r = Inr ()" by simp
      with Inr ex None Cons.IH[of "Suc i" w1] show ?thesis by (simp add: all_accepted_def)
    next
      case (Some e)
      with r have "r = Inl e" by simp
      with Inr ex Some show ?thesis by (simp add: all_accepted_def)
    qed
  qed
qed

lemma insert_loop_issued:
  "\<exists>n\<le>length data.
     map Inr (drop (length (issued w)) (issued (snd (insert_loop prep stmt env i data w)))) =
       map prep (take n data) \<and>
     take (length (issued w)) (issued (snd (insert_loop prep stmt env i data w))) = issued w"
proof (induction data arbitrary: i w)
  case Nil
  then show ?case by simp
next
  case (Cons x xs)
  show ?case
  proof (cases "prep x")
    case (Inl e)
    then show ?thesis by (intro exI[of _ 0]) simp
  next
    case (Inr s)
    obtain r w1 where ex: "execute stmt env i s w = (r, w1)" by (cases "execute stmt env i s w")
    have w1: "issued w1 = issued w @ [s]" using execute_other(5)[of stmt env i s w] ex by simp
    show ?thesis
    proof (cases r)
      case (Inl e)
      with Inr ex w1 show ?thesis by (intro exI[of _ 1]) simp
    next
      case (Inr u)
      let ?w' = "snd (insert_loop prep stmt env (Suc i) xs w1)"
      from Cons.IH[of w1 "Suc i"] obtain n where n: "n \<le> length xs"
        "map Inr (drop (length (issued w1)) (issued ?w')) = map prep (take n xs)"
        "take (length (issued w1)) (issued ?w') = issued w1" by blast
      have res: "insert_loop prep stmt env i (x # xs) w = insert_loop prep stmt env (Suc i) xs w1"
        using \<open>prep x = Inr s\<close> ex Inr by simp
      have split: "issued ?w' = issued w1 @ drop (length (issued w1)) (issued ?w')"
        using n(3) append_take_drop_id[of "length (issued w1)" "issued ?w'"] by simp
      have d: "drop (length (issued w)) (issued ?w') = s # drop (length (issued w1)) (issued ?w')"
        by (subst split) (simp add: w1)
      have t: "take (length (issued w)) (issued ?w') = issued w"
        by (subst split) (simp add: w1)
      show ?thesis
        unfolding res using n(1) n(2) \<open>prep x = Inr s\<close>
        by (intro exI[of _ "Suc n"]) (simp add: d t)
    qed
  qed
qed

lemma insert_loop_invariant:
  assumes "I (pending w)"
    and "\<And>x s now t. x \<in> set data \<Longrightarrow> prep x = Inr s \<Longrightarrow> I t \<Longrightarrow> I (stmt now s t)"
  shows "I (pending (snd (insert_loop prep stmt env i data w)))"
  using assms
proof (induction data arbitrary: i w)
  case Nil
  then show ?case by simp
next
  case (Cons x xs)
  show ?case
  proof (cases "prep x")
    case (Inl e)
    with Cons.prems show ?thesis by simp
  next
    case (Inr s)
    obtain r w1 where ex: "execute stmt env i s w = (r, w1)" by (cases "execute stmt env i s w")
    have I1: "I (pending w1)"
    proof (cases "rejects env s")
      case None
      then have "pending w1 = stmt (getdate env i) s (pending w)"
        using execute_pending[of env s stmt i w] ex by simp
      with Cons.prems(1) Cons.prems(2)[of x s] Inr show ?thesis by simp
    next
      case (Some e)
      then have "pending w1 = pending w" using ex by (auto simp: execute_def Let_def)
      with Cons.prems(1) show ?thesis by simp
    qed
    show ?thesis
    proof (cases r)
      case (Inl e)
      with Inr ex I1 show ?thesis by simp
    next
      case (Inr u)
      have "I (pending (snd (insert_loop prep stmt env (Suc i) xs w1)))"
        by (rule Cons.IH[OF I1]) (use Cons.prems(2) in auto)
      with \<open>prep x = Inr s\<close> ex Inr show ?thesis by simp
    qed
  qed
qed

lemma insert_loop_kv:
  assumes abs: "\<And>now s t. map A (stmt now s t) = kv_merge ok (kv now s) (map A t)"
    and acc: "all_accepted prep env data"
    and ss: "map Inr ss = map prep data"
  shows "map A (pending (snd (insert_loop prep stmt env i data w))) =
         kv_run ok (map2 (\<lambda>j s. kv (getdate env j) s) [i..<i + length ss] ss) (map A (pending w))"
  using acc ss
proof (induction data arbitrary: i w ss)
  case Nil
  then show ?case by simp
next
  case (Cons x xs)
  from Cons.prems(2) obtain s ss' where ss': "ss = s # ss'" "prep x = Inr s" "map Inr ss' = map prep xs"
    by (cases ss) auto
  from Cons.prems(1) ss'(2) have rej: "rejects env s = None" and acc': "all_accepted prep env xs"
    by (simp_all add: all_accepted_def)
  obtain r w1 where ex: "execute stmt env i s w = (r, w1)" by (cases "execute stmt env i s w")
  have r: "r = Inr ()" using execute_fst[of stmt env i s w] ex rej by simp
  have p1: "pending w1 = stmt (getdate env i) s (pending w)"
    using execute_pending[OF rej, of stmt i w] ex by simp
  have res: "insert_loop prep stmt env i (x # xs) w = insert_loop prep stmt env (Suc i) xs w1"
    using ss'(2) ex r by simp
  have up: "[i..<i + length (s # ss')] = i # [Suc i..<Suc i + length ss']"
    by (simp add: upt_rec)
  show ?case
    unfolding res Cons.IH[OF acc' ss'(3), of "Suc i" w1] ss'(1) up
    by (simp add: p1 abs)
qed

lemma insert_data_with_cases:
  obtains (ok) w1 where "all_accepted prep env data" "commit_fails env = None"
      "insert_loop prep stmt env 0 data w = (Inr (), w1)"
      "insert_data_with prep stmt env data w =
         (Inr (), logging INFO (''Successfully processed '' @ str_nat (length data) @ '' records'')
            (commit w1))"
  | (failed) e r w1 where "\<not> (all_accepted prep env data \<and> commit_fails env = None)"
      "insert_loop prep stmt env 0 data w = (r, w1)"
      "insert_data_with prep stmt env data w =
         (Inl e, logging ERROR (''Data insertion error: '' @ str_exn e) (rollback w1))"
proof -
  obtain r w1 where l: "insert_loop prep stmt env 0 data w = (r, w1)"
    by (cases "insert_loop prep stmt env 0 data w")
  have acc: "(r = Inr ()) = all_accepted prep env data"
    using insert_loop_fst[of prep stmt env 0 data w] l by simp
  show ?thesis
  proof (cases r)
    case (Inl e)
    with acc have "\<not> all_accepted prep env data" by simp
    with l Inl show ?thesis by (intro failed[of r w1 e]) (simp_all add: insert_data_with_def)
  next
    case (Inr u)
    with acc have a: "all_accepted prep env data" by simp
    show ?thesis
    proof (cases "commit_fails env")
      case None
      with l Inr a show ?thesis by (intro ok[of w1]) (simp_all add: insert_data_with_def)
    next
      case (Some e)
      with l Inr show ?thesis by (intro failed[of r w1 e]) (simp_all add: insert_data_with_def)
    qed
  qed
qed

lemma loop_snd:
  "insert_loop prep stmt env 0 data w = (r, w1) \<Longrightarrow>
     committed w1 = committed w \<and> log w1 = log w \<and> mailed w1 = mailed w \<and> notified w1 = notified w"
  using insert_loop_other[of prep stmt env 0 data w] by simp

lemma insert_data_with_fst:
  "(fst (insert_data_with prep stmt env data w) = Inr ()) =
     (all_accepted prep env data \<and> commit_fails env = None)"
  by (cases rule: insert_data_with_cases[of prep env data stmt w]) simp_all

lemma insert_data_with_failure:
  assumes "\<not> (all_accepted prep env data \<and> commit_fails env = None)"
  shows "(\<exists>e. fst (insert_data_with prep stmt env data w) = Inl e) \<and>
         committed (snd (insert_data_with prep stmt env data w)) = committed w \<and>
         pending (snd (insert_data_with prep stmt env data w)) = committed w"
proof (cases rule: insert_data_with_cases[of prep env data stmt w])
  case (ok w1)
  with assms show ?thesis by simp
next
  case (failed e r w1)
  with loop_snd[OF failed(2)] show ?thesis by (simp add: logging_def rollback_def)
qed

lemma insert_data_with_success:
  assumes "all_accepted prep env data" "commit_fails env = None"
  shows "fst (insert_data_with prep stmt env data w) = Inr () \<and>
         committed (snd (insert_data_with prep stmt env data w)) =
           pending (snd (insert_loop prep stmt env 0 data w)) \<and>
         pending (snd (insert_data_with prep stmt env data w)) =
           pending (snd (insert_loop prep stmt env 0 data w))"
proof (cases rule: insert_data_with_cases[of prep env data stmt w])
  case (ok w1)
  then show ?thesis by (simp add: logging_def commit_def)
next
  case (failed e r w1)
  with assms show ?thesis by simp
qed

lemma insert_data_with_issued:
  "issued (snd (insert_data_with prep stmt env data w)) =
     issued (snd (insert_loop prep stmt env 0 data w))"
  by (cases rule: insert_data_with_cases[of prep env data stmt w])
     (simp_all add: logging_def commit_def rollback_def)

lemma insert_data_with_mail:
  "mailed (snd (insert_data_with prep stmt env data w)) = mailed w \<and>
   notified (snd (insert_data_with prep stmt env data w)) = notified w"
proof (cases rule: insert_data_with_cases[of prep env data stmt w])
  case (ok w1)
  with loop_snd[OF ok(3)] show ?thesis by (simp add: logging_def commit_def)
next
  case (failed e r w1)
  with loop_snd[OF failed(2)] show ?thesis by (simp add: logging_def rollback_def)
qed

lemma insert_data_with_settled:
  "pending w = committed w \<Longrightarrow>
   pending (snd (insert_data_with prep stmt env data w)) =
     committed (snd (insert_data_with prep stmt env data w))"
  by (cases "all_accepted prep env data \<and> commit_fails env = None")
     (simp_all add: insert_data_with_success insert_data_with_failure)

lemma insert_data_with_invariant:
  assumes "I (committed w)" "pending w = committed w"
    and "\<And>x s now t. x \<in> set data \<Longrightarrow> prep x = Inr s \<Longrightarrow> I t \<Longrightarrow> I (stmt now s t)"
  shows "I (committed (snd (insert_data_with prep stmt env data w)))"
proof (cases "all_accepted prep env data \<and> commit_fails env = None")
  case True
  have "I (pending (snd (insert_loop prep stmt env 0 data w)))"
    by (rule insert_loop_invariant) (use assms in auto)
  with True show ?thesis by (simp add: insert_data_with_success)
next
  case False
  with assms(1) show ?thesis by (simp add: insert_data_with_failure)
qed

lemma all_accepted_iff:
  "all_accepted prep env data = (\<forall>x\<in>set data. \<exists>s. prep x = Inr s \<and> rejects env s = None)"
proof -
  have "\<And>x. (case prep x of Inl e \<Rightarrow> False | Inr s \<Rightarrow> rejects env s = None) =
          (\<exists>s. prep x = Inr s \<and> rejects env s = None)"
    by (simp split: sum.splits)
  then show ?thesis by (simp add: all_accepted_def list_all_iff)
qed

lemma all_accepted_statements:
  "all_accepted prep env data \<Longrightarrow> \<exists>ss. map Inr ss = map prep data"
proof (induction data)
  case Nil
  then show ?case by simp
next
  case (Cons x xs)
  then obtain s where s: "prep x = Inr s" by (auto simp: all_accepted_iff)
  from Cons obtain ss where "map Inr ss = map prep xs" by (auto simp: all_accepted_iff)
  with s have "map Inr (s # ss) = map prep (x # xs)" by simp
  then show ?case by blast
qed

lemma valid_raw_iff: "valid_raw r = (\<exists>c. normalize_record r = Inr c)"
proof
  assume v: "valid_raw r"
  then obtain a b c d e f v1 v2 v3 g h i where k:
    "r ''id'' = Some a" "r ''farm'' = Some b" "r ''plot'' = Some c" "r ''produce'' = Some d"
    "r ''worker'' = Some e" "r ''unit'' = Some f" "r ''harvest_date'' = Some v1"
    "r ''start_time'' = Some v2" "r ''end_time'' = Some v3" "r ''duration'' = Some g"
    "r ''containers'' = Some h" "r ''kgs_harvested'' = Some i"
    by (auto simp: valid_raw_def required_fields_def)
  from v k obtain t1 t2 t3 where
    "strptime_ymd_hms v1 = Inr t1" "strptime_hm v2 = Inr t2" "strptime_hm v3 = Inr t3"
    by (auto simp: valid_raw_def parses_def split: sum.splits)
  with k show "\<exists>c. normalize_record r = Inr c"
    by (simp add: normalize_record_Inr)
next
  assume "\<exists>c. normalize_record r = Inr c"
  then show "valid_raw r"
    by (auto simp: normalize_record_Inr valid_raw_def required_fields_def parses_def)
qed

lemma pad2_value: "n < 100 \<Longrightarrow> 10 * (n div 10 mod 10) + n mod 10 = (n::nat)"
proof -
  assume "n < 100"
  then have "n div 10 < 10" by simp
  then have "n div 10 mod 10 = n div 10" by simp
  then show ?thesis by simp
qed

lemma read_hms_strftime:
  assumes "hour t < 24" "minute t < 60" "second t < 60"
  shows "read_hms (strftime_hms t) = Some (hour t, minute t, second t)"
proof -
  have b: "hour t < 100" "minute t < 100" "second t < 100" using assms by simp_all
  then have "hour t div 10 < 10" "minute t div 10 < 10" "second t div 10 < 10" by simp_all
  then have "hour t div 10 \<le> 9" "minute t div 10 \<le> 9" "second t div 10 \<le> 9" by linarith+
  with b show ?thesis
    by (simp add: strftime_hms_def pad2_def between_digit digit_val_digit mod10_le9 pad2_value)
qed

lemma strptime_hm_second: "strptime_hm v = Inr t \<Longrightarrow> second t = 0"
  by (auto simp: strptime_hm_def split: pyval.splits list.splits if_splits)

lemma read_hms_time:
  assumes "strptime_hm v = Inr t"
  shows "read_hms (strftime_hms t) = Some (hour t, minute t, 0)"
    and "is_time_text (strftime_hms t)"
proof -
  have v: "valid_datetime t" using assms by (rule strptime_hm_valid)
  then have b: "hour t < 24" "minute t < 60" "second t < 60" by (simp_all add: valid_datetime_def)
  from read_hms_strftime[OF b] strptime_hm_second[OF assms]
  show "read_hms (strftime_hms t) = Some (hour t, minute t, 0)" by simp
  from read_hms_strftime[OF b] b show "is_time_text (strftime_hms t)"
    by (simp add: is_time_text_def)
qed

lemma normalize_times:
  assumes "normalize_record r = Inr c"
  shows "\<exists>t1 t2 t3.
           map_option strptime_ymd_hms (r ''harvest_date'') = Some (Inr t1) \<and>
           strptime_ymd_hms (PStr (p_harvest_date c)) = Inr t1 \<and>
           map_option strptime_hm (r ''start_time'') = Some (Inr t2) \<and>
           read_hms (p_start_time c) = Some (hour t2, minute t2, 0) \<and>
           map_option strptime_hm (r ''end_time'') = Some (Inr t3) \<and>
           read_hms (p_end_time c) = Some (hour t3, minute t3, 0)"
proof -
  from assms obtain v1 t1 v2 t2 v3 t3 where t:
    "r ''harvest_date'' = Some v1" "strptime_ymd_hms v1 = Inr t1"
    "r ''start_time'' = Some v2" "strptime_hm v2 = Inr t2"
    "r ''end_time'' = Some v3" "strptime_hm v3 = Inr t3"
    "p_harvest_date c = strftime_ymd_hms t1" "p_start_time c = strftime_hms t2"
    "p_end_time c = strftime_hms t3"
    by (auto simp: normalize_record_Inr)
  have "valid_datetime t1" using t(2) by (rule strptime_ymd_hms_valid)
  then have "strptime_ymd_hms (PStr (p_harvest_date c)) = Inr t1"
    by (simp add: t(7) strptime_strftime)
  with t read_hms_time(1)[OF t(4)] read_hms_time(1)[OF t(6)] show ?thesis by simp
qed

lemma normalize_wellformed:
  assumes "normalize_record r = Inr c"
  shows "wellformed_times c"
proof -
  from assms obtain v1 t1 v2 t2 v3 t3 where t: "strptime_ymd_hms v1 = Inr t1"
    "strptime_hm v2 = Inr t2" "strptime_hm v3 = Inr t3"
    "p_harvest_date c = strftime_ymd_hms t1" "p_start_time c = strftime_hms t2"
    "p_end_time c = strftime_hms t3"
    by (auto simp: normalize_record_Inr)
  have "valid_datetime t1" using t(1) by (rule strptime_ymd_hms_valid)
  then show ?thesis
    using read_hms_time(2)[OF t(2)] read_hms_time(2)[OF t(3)]
    by (simp add: wellformed_times_def t strptime_strftime)
qed

lemma normalize_passthrough:
  assumes "normalize_record r = Inr c"
  shows "r ''id'' = Some (p_id c) \<and> r ''farm'' = Some (p_farm c) \<and> r ''plot'' = Some (p_plot c) \<and>
         r ''produce'' = Some (p_produce c) \<and> r ''worker'' = Some (p_worker c) \<and>
         r ''unit'' = Some (p_unit c) \<and> r ''duration'' = Some (p_duration c) \<and>
         r ''containers'' = Some (p_containers c) \<and>
         r ''kgs_harvested'' = Some (p_kgs_harvested c)"
  using assms by (auto simp: normalize_record_Inr)

text \<open>
  C8, as amended. A raw row is valid when the twelve fields are present and the three
  date and time fields parse. Normalisation succeeds exactly on the valid rows. Its
  result carries \<open>harvest_date\<close> as 19 characters that are the canonical text of a valid
  date and time and parse, against \<open>%Y-%m-%d %H:%M:%S\<close>, to the date and time \<open>t1\<close> that
  the source text parses to. It carries \<open>start_time\<close> and \<open>end_time\<close> as 8 characters
  \<open>HH:MM:SS\<close> of a time of day, which read as the hour and the minute that the source
  text parses to against \<open>%H:%M\<close> (\<open>t2\<close>, \<open>t3\<close>), with second 0. It carries the other
  nine fields as the source gave them, unchecked. A row that is not valid makes
  normalisation raise.
\<close>

theorem normalize_record_valid:
  "(valid_raw r \<longrightarrow>
      (\<exists>c t1 t2 t3. normalize_record r = Inr c \<and> wellformed_times c \<and>
           map_option strptime_ymd_hms (r ''harvest_date'') = Some (Inr t1) \<and>
           strptime_ymd_hms (PStr (p_harvest_date c)) = Inr t1 \<and>
           map_option strptime_hm (r ''start_time'') = Some (Inr t2) \<and>
           read_hms (p_start_time c) = Some (hour t2, minute t2, 0) \<and>
           map_option strptime_hm (r ''end_time'') = Some (Inr t3) \<and>
           read_hms (p_end_time c) = Some (hour t3, minute t3, 0) \<and>
           r ''id'' = Some (p_id c) \<and> r ''farm'' = Some (p_farm c) \<and>
           r ''plot'' = Some (p_plot c) \<and> r ''produce'' = Some (p_produce c) \<and>
           r ''worker'' = Some (p_worker c) \<and> r ''unit'' = Some (p_unit c) \<and>
           r ''duration'' = Some (p_duration c) \<and> r ''containers'' = Some (p_containers c) \<and>
           r ''kgs_harvested'' = Some (p_kgs_harvested c))) \<and>
   (\<not> valid_raw r \<longrightarrow> (\<exists>e. normalize_record r = Inl e))"
proof (intro conjI impI)
  assume "valid_raw r"
  then obtain c where c: "normalize_record r = Inr c" by (auto simp: valid_raw_iff)
  from normalize_times[OF c] obtain t1 t2 t3 where t:
    "map_option strptime_ymd_hms (r ''harvest_date'') = Some (Inr t1)"
    "strptime_ymd_hms (PStr (p_harvest_date c)) = Inr t1"
    "map_option strptime_hm (r ''start_time'') = Some (Inr t2)"
    "read_hms (p_start_time c) = Some (hour t2, minute t2, 0)"
    "map_option strptime_hm (r ''end_time'') = Some (Inr t3)"
    "read_hms (p_end_time c) = Some (hour t3, minute t3, 0)"
    by blast
  from normalize_wellformed[OF c] normalize_passthrough[OF c] c t
  show "\<exists>c t1 t2 t3. normalize_record r = Inr c \<and> wellformed_times c \<and>
           map_option strptime_ymd_hms (r ''harvest_date'') = Some (Inr t1) \<and>
           strptime_ymd_hms (PStr (p_harvest_date c)) = Inr t1 \<and>
           map_option strptime_hm (r ''start_time'') = Some (Inr t2) \<and>
           read_hms (p_start_time c) = Some (hour t2, minute t2, 0) \<and>
           map_option strptime_hm (r ''end_time'') = Some (Inr t3) \<and>
           read_hms (p_end_time c) = Some (hour t3, minute t3, 0) \<and>
           r ''id'' = Some (p_id c) \<and> r ''farm'' = Some (p_farm c) \<and>
           r ''plot'' = Some (p_plot c) \<and> r ''produce'' = Some (p_produce c) \<and>
           r ''worker'' = Some (p_worker c) \<and> r ''unit'' = Some (p_unit c) \<and>
           r ''duration'' = Some (p_duration c) \<and> r ''containers'' = Some (p_containers c) \<and>
           r ''kgs_harvested'' = Some (p_kgs_harvested c)"
    by blast
next
  assume "\<not> valid_raw r"
  then have "\<nexists>c. normalize_record r = Inr c" by (simp add: valid_raw_iff)
  then show "\<exists>e. normalize_record r = Inl e" by (cases "normalize_record r") auto
qed

lemma valid_example_row: "valid_raw example_row"
  by (simp add: valid_raw_def required_fields_def parses_def example_row_def ex1 ex2 ex3)

lemma invalid_no_date_row: "\<not> valid_raw no_date_row"
  by (simp add: valid_raw_def required_fields_def no_date_row_def)

lemma nbsp_date_parses:
  "strptime_ymd_hms (PStr (''2024-06-01'' @ [CHR 0xA0] @ ''07:30:00'')) =
     Inr \<lparr>year = 2024, month = 6, day = 1, hour = 7, minute = 30, second = 0\<rparr>"
  by code_simp

theorem normalize_record_valid_witness:
  "valid_raw example_row \<and> normalize_record example_row = Inr example_params \<and>
   wellformed_times example_params \<and>
   strptime_ymd_hms (PStr (p_harvest_date example_params)) =
     Inr \<lparr>year = 2024, month = 6, day = 1, hour = 7, minute = 30, second = 0\<rparr> \<and>
   read_hms (p_start_time example_params) = Some (7, 30, 0) \<and>
   read_hms (p_end_time example_params) = Some (9, 15, 0) \<and>
   \<not> valid_raw no_date_row \<and> (\<exists>e. normalize_record no_date_row = Inl e)"
proof -
  from normalize_record_valid[of example_row] valid_example_row
  obtain c t1 t2 t3 where c: "normalize_record example_row = Inr c" "wellformed_times c"
    "map_option strptime_ymd_hms (example_row ''harvest_date'') = Some (Inr t1)"
    "strptime_ymd_hms (PStr (p_harvest_date c)) = Inr t1"
    "map_option strptime_hm (example_row ''start_time'') = Some (Inr t2)"
    "read_hms (p_start_time c) = Some (hour t2, minute t2, 0)"
    "map_option strptime_hm (example_row ''end_time'') = Some (Inr t3)"
    "read_hms (p_end_time c) = Some (hour t3, minute t3, 0)"
    by blast
  from c(1) have e: "c = example_params" by (simp add: ex4)
  from c(3) have t1: "t1 = \<lparr>year = 2024, month = 6, day = 1, hour = 7, minute = 30, second = 0\<rparr>"
    by (simp add: example_row_def ex1)
  from c(5) have t2: "hour t2 = 7" "minute t2 = 30" by (auto simp: example_row_def ex2)
  from c(7) have t3: "hour t3 = 9" "minute t3 = 15" by (auto simp: example_row_def ex3)
  have a: "wellformed_times example_params \<and>
     strptime_ymd_hms (PStr (p_harvest_date example_params)) =
       Inr \<lparr>year = 2024, month = 6, day = 1, hour = 7, minute = 30, second = 0\<rparr> \<and>
     read_hms (p_start_time example_params) = Some (7, 30, 0) \<and>
     read_hms (p_end_time example_params) = Some (9, 15, 0)"
    using c(2,4,6,8) unfolding e t1 t2 t3 by simp
  from normalize_record_valid[of no_date_row] invalid_no_date_row
  have "\<exists>e. normalize_record no_date_row = Inl e" by blast
  with a show ?thesis using valid_example_row invalid_no_date_row ex4 by blast
qed

text \<open>
  C8 as stated fails: a row with every field present and well-formed dates, but a null
  \<open>farm\<close>, is valid in the sense of the claim and normalises without error, yet the
  canonical row breaks the declared constraint that required fields are not null.
\<close>

theorem normalize_record_null_farm_counterexample:
  "valid_raw null_farm_row \<and>
   normalize_record null_farm_row = Inr (example_params\<lparr>p_farm := PNone\<rparr>) \<and>
   \<not> declared_constraints (example_params\<lparr>p_farm := PNone\<rparr>)"
proof -
  have "valid_raw null_farm_row"
    by (simp add: valid_raw_def required_fields_def parses_def null_farm_row_def example_row_def
          ex1 ex2 ex3)
  moreover have "normalize_record null_farm_row = Inr (example_params\<lparr>p_farm := PNone\<rparr>)"
    by (simp add: normalize_record_def andthen_def getitem_def null_farm_row_def example_row_def
          example_params_def ex1 ex2 ex3
          strftime_ymd_hms_def strftime_ymd_def strftime_hms_def pad2_def pad4_def digit_def)
  moreover have "\<not> declared_constraints (example_params\<lparr>p_farm := PNone\<rparr>)"
    by (simp add: declared_constraints_def is_text_def)
  ultimately show ?thesis by blast
qed

lemma map2_apsnd:
  "length js = length ss \<Longrightarrow> (\<And>j s. f (new j s) = new0 s) \<Longrightarrow>
   map (apsnd f) (map2 (\<lambda>j s. (skey s, new j s)) js ss) = map (\<lambda>s. (skey s, new0 s)) ss"
  by (induction js ss rule: list_induct2) simp_all

lemma stamped_apsnd:
  assumes "\<And>now s. f (new now s) = new0 s"
  shows "map (apsnd f) (stamped skey new env ss) = map (\<lambda>s. (skey s, new0 s)) ss"
proof -
  have "map (apsnd f) (map2 (\<lambda>j s. (skey s, (\<lambda>j. new (getdate env j)) j s)) [0..<0 + length ss] ss) =
        map (\<lambda>s. (skey s, new0 s)) ss"
    by (rule map2_apsnd) (simp_all add: assms)
  then show ?thesis by (simp add: stamped_def)
qed

lemma stamped_keys: "map fst (stamped skey new env ss) = map skey ss"
proof -
  have "\<And>js. length js = length ss \<Longrightarrow>
          map fst (map2 (\<lambda>j s. (skey s, new (getdate env j) s)) js ss) = map skey ss"
  proof -
    fix js :: "nat list" assume "length js = length ss"
    then show "map fst (map2 (\<lambda>j s. (skey s, new (getdate env j) s)) js ss) = map skey ss"
      by (induction js ss rule: list_induct2) simp_all
  qed
  then show ?thesis by (simp add: stamped_def)
qed

lemma stamped_key_mem:
  "p \<in> set (stamped skey new env ss) \<Longrightarrow> \<exists>s\<in>set ss. fst p = skey s"
proof -
  assume "p \<in> set (stamped skey new env ss)"
  then have "fst p \<in> set (map fst (stamped skey new env ss))" by simp
  then show ?thesis by (auto simp: stamped_keys)
qed

lemma mem_stamped_key:
  "s \<in> set ss \<Longrightarrow> \<exists>p\<in>set (stamped skey new env ss). fst p = skey s"
proof -
  assume "s \<in> set ss"
  then have "skey s \<in> set (map fst (stamped skey new env ss))" by (simp add: stamped_keys)
  then obtain p where "p \<in> set (stamped skey new env ss)" "fst p = skey s"
    by (auto simp: in_set_conv_nth)
  then show ?thesis by blast
qed

text \<open>The committed table after \<open>insert_data\<close>, as a run over key/value pairs.\<close>

lemma insert_data_with_kv:
  assumes abs: "\<And>now s t. map (\<lambda>r. (key r, r)) (stmt now s t) =
                  kv_merge ok (skey s, new now s) (map (\<lambda>r. (key r, r)) t)"
    and acc: "all_accepted prep env data" "commit_fails env = None"
    and ss: "map Inr ss = map prep data"
    and fresh: "pending w = committed w"
  shows "map (\<lambda>r. (key r, r)) (committed (snd (insert_data_with prep stmt env data w))) =
         kv_run ok (stamped skey new env ss) (map (\<lambda>r. (key r, r)) (committed w))"
proof -
  have "map (\<lambda>r. (key r, r)) (pending (snd (insert_loop prep stmt env 0 data w))) =
        kv_run ok (map2 (\<lambda>j s. (\<lambda>now s. (skey s, new now s)) (getdate env j) s)
                     [0..<0 + length ss] ss) (map (\<lambda>r. (key r, r)) (pending w))"
    by (rule insert_loop_kv[OF _ acc(1) ss]) (rule abs)
  then show ?thesis
    using acc fresh by (simp add: insert_data_with_success stamped_def)
qed

lemma distinct_filter_count:
  "distinct (filter P (map f xs)) \<Longrightarrow> P k \<Longrightarrow> length (filter (\<lambda>x. f x = k) xs) \<le> 1"
proof (induction xs)
  case Nil
  then show ?case by simp
next
  case (Cons x xs)
  show ?case
  proof (cases "f x = k")
    case True
    with Cons.prems have "k \<notin> set (map f xs)" by auto
    then have "filter (\<lambda>x. f x = k) xs = []" by (auto simp: filter_empty_conv)
    with True show ?thesis by simp
  next
    case False
    with Cons show ?thesis by (auto split: if_splits)
  qed
qed

lemma filter_singleton:
  assumes "length (filter P xs) \<le> 1" "x \<in> set xs" "P x"
  shows "filter P xs = [x]"
proof -
  from assms(2,3) have m: "x \<in> set (filter P xs)" by simp
  then obtain y ys where f: "filter P xs = y # ys" by (cases "filter P xs") auto
  with assms(1) have "ys = []" by simp
  with f m show ?thesis by simp
qed

lemma insert_data_with_unique:
  assumes abs: "\<And>now s t. map (\<lambda>r. (key r, r)) (stmt now s t) =
                  kv_merge ok (skey s, new now s) (map (\<lambda>r. (key r, r)) t)"
    and "distinct (filter ok (map key (committed w)))" "pending w = committed w"
  shows "distinct (filter ok (map key (committed (snd (insert_data_with prep stmt env data w)))))"
proof (rule insert_data_with_invariant[where I = "\<lambda>t. distinct (filter ok (map key t))"])
  show "distinct (filter ok (map key (committed w)))" by (rule assms(2))
  show "pending w = committed w" by (rule assms(3))
next
  fix x s now t
  assume d: "distinct (filter ok (map key t))"
  have "map key (stmt now s t) = map fst (map (\<lambda>r. (key r, r)) (stmt now s t))"
    by (simp add: comp_def)
  also have "\<dots> = map fst (kv_merge ok (skey s, new now s) (map (\<lambda>r. (key r, r)) t))"
    by (simp only: abs)
  finally have e: "map key (stmt now s t) =
      map fst (kv_merge ok (skey s, new now s) (map (\<lambda>r. (key r, r)) t))" .
  have "distinct (filter ok (map fst (map (\<lambda>r. (key r, r)) t)))" using d by (simp add: comp_def)
  then show "distinct (filter ok (map key (stmt now s t)))"
    unfolding e by (rule kv_merge_distinct)
qed

lemma insert_data_with_frame:
  assumes abs: "\<And>now s t. map (\<lambda>r. (key r, r)) (stmt now s t) =
                  kv_merge ok (skey s, new now s) (map (\<lambda>r. (key r, r)) t)"
    and fresh: "pending w = committed w"
    and i: "i < length (committed w)"
  shows "i < length (committed (snd (insert_data_with prep stmt env data w))) \<and>
         key (committed (snd (insert_data_with prep stmt env data w)) ! i) = key (committed w ! i) \<and>
         ((\<forall>x\<in>set data. \<forall>s. prep x = Inr s \<longrightarrow> \<not> (ok (skey s) \<and> key (committed w ! i) = skey s)) \<longrightarrow>
            committed (snd (insert_data_with prep stmt env data w)) ! i = committed w ! i)"
proof (cases "all_accepted prep env data \<and> commit_fails env = None")
  case False
  then show ?thesis using i by (simp add: insert_data_with_failure)
next
  case True
  let ?A = "\<lambda>r. (key r, r)"
  let ?t = "committed w"
  let ?t' = "committed (snd (insert_data_with prep stmt env data w))"
  from True obtain ss where ss: "map Inr ss = map prep data"
    using all_accepted_statements by blast
  let ?ps = "stamped skey new env ss"
  have kv: "map ?A ?t' = kv_run ok ?ps (map ?A ?t)"
    using True by (intro insert_data_with_kv[OF abs _ _ ss fresh]) simp_all
  have i': "i < length (map ?A ?t)" using i by simp
  note fr = kv_run_frame[OF i', of ok ?ps, folded kv]
  from fr have l: "i < length ?t'" by simp
  have n: "map ?A ?t' ! i = ?A (?t' ! i)" "map ?A ?t ! i = ?A (?t ! i)"
    using l i by simp_all
  have k: "key (?t' ! i) = key (?t ! i)" using fr n by simp
  have u: "?t' ! i = ?t ! i"
    if h: "\<forall>x\<in>set data. \<forall>s. prep x = Inr s \<longrightarrow> \<not> (ok (skey s) \<and> key (?t ! i) = skey s)"
  proof -
    have "\<forall>p\<in>set ?ps. \<not> (ok (fst p) \<and> fst (map ?A ?t ! i) = fst p)"
    proof
      fix p assume "p \<in> set ?ps"
      then obtain s where s: "s \<in> set ss" "fst p = skey s" using stamped_key_mem by fast
      from s(1) have "Inr s \<in> set (map prep data)" using ss[symmetric] by simp
      then obtain x where "x \<in> set data" "prep x = Inr s" by auto
      with h have "\<not> (ok (skey s) \<and> key (?t ! i) = skey s)" by blast
      with s(2) n(2) show "\<not> (ok (fst p) \<and> fst (map ?A ?t ! i) = fst p)" by simp
    qed
    with fr have "map ?A ?t' ! i = map ?A ?t ! i" by blast
    with n show ?thesis by simp
  qed
  from l k u show ?thesis by blast
qed

lemma insert_data_with_last:
  assumes abs: "\<And>now s t. map (\<lambda>r. (key r, r)) (stmt now s t) =
                  kv_merge ok (skey s, new now s) (map (\<lambda>r. (key r, r)) t)"
    and er: "\<And>now s. E (new now s) = new0 s"
    and fresh: "pending w = committed w"
    and uniq: "distinct (filter ok (map key (committed w)))"
    and res: "fst (insert_data_with prep stmt env data w) = Inr ()"
    and ss: "map Inr ss = map prep data"
    and s: "s \<in> set ss" "ok (skey s)"
  shows "\<exists>r. filter (\<lambda>r. key r = skey s) (committed (snd (insert_data_with prep stmt env data w))) = [r] \<and>
             E r = new0 (last (filter (\<lambda>s'. skey s' = skey s) ss))"
proof -
  let ?A = "\<lambda>r. (key r, r)"
  let ?t = "committed w"
  let ?t' = "committed (snd (insert_data_with prep stmt env data w))"
  let ?ps = "stamped skey new env ss"
  let ?qs = "map (\<lambda>s. (skey s, new0 s)) ss"
  from res have acc: "all_accepted prep env data" "commit_fails env = None"
    by (simp_all add: insert_data_with_fst)
  have kv: "map ?A ?t' = kv_run ok ?ps (map ?A ?t)"
    by (rule insert_data_with_kv[OF abs acc ss fresh])
  have "map (apsnd E) (map ?A ?t') = kv_run ok (map (apsnd E) ?ps) (map (apsnd E) (map ?A ?t))"
    by (simp only: kv kv_run_apsnd)
  then have kve: "map (\<lambda>r. (key r, E r)) ?t' = kv_run ok ?qs (map (\<lambda>r. (key r, E r)) ?t)"
    by (simp add: stamped_apsnd[of E new new0, OF er] comp_def)
  have q: "(skey s, new0 s) \<in> set ?qs" using s(1) by auto
  from kv_run_last[of "(skey s, new0 s)" ?qs ok "map (\<lambda>r. (key r, E r)) ?t"] q s(2)
  have ex: "\<exists>q\<in>set (map (\<lambda>r. (key r, E r)) ?t'). fst q = skey s"
    and all: "\<forall>q\<in>set (map (\<lambda>r. (key r, E r)) ?t'). fst q = skey s \<longrightarrow>
               snd q = snd (last (filter (\<lambda>p'. fst p' = skey s) ?qs))"
    by (simp_all add: kve)
  from ex obtain r where r: "r \<in> set ?t'" "key r = skey s" by auto
  have "distinct (filter ok (map key ?t'))"
    by (rule insert_data_with_unique[OF abs uniq fresh])
  then have "length (filter (\<lambda>r. key r = skey s) ?t') \<le> 1"
    using s(2) by (rule distinct_filter_count)
  then have f: "filter (\<lambda>r. key r = skey s) ?t' = [r]"
    using r by (rule filter_singleton)
  have ne: "filter (\<lambda>s'. skey s' = skey s) ss \<noteq> []"
    using s(1) by (auto simp: filter_empty_conv)
  have "filter (\<lambda>p'. fst p' = skey s) ?qs = map (\<lambda>s. (skey s, new0 s)) (filter (\<lambda>s'. skey s' = skey s) ss)"
    by (simp add: filter_map comp_def)
  then have l: "snd (last (filter (\<lambda>p'. fst p' = skey s) ?qs)) =
                  new0 (last (filter (\<lambda>s'. skey s' = skey s) ss))"
    using ne by (simp add: last_map)
  from all r have "E r = snd (last (filter (\<lambda>p'. fst p' = skey s) ?qs))" by auto
  with l f show ?thesis by simp
qed

lemma all_accepted_cong:
  "rejects env' = rejects env \<Longrightarrow> all_accepted prep env' data = all_accepted prep env data"
proof -
  assume a: "rejects env' = rejects env"
  show ?thesis unfolding all_accepted_def a ..
qed

lemma insert_data_with_idem:
  assumes abs: "\<And>now s t. map (\<lambda>r. (key r, r)) (stmt now s t) =
                  kv_merge ok (skey s, new now s) (map (\<lambda>r. (key r, r)) t)"
    and er: "\<And>now s. E (new now s) = new0 s"
    and fresh: "pending w = committed w"
    and keys: "\<forall>x\<in>set data. \<forall>s. prep x = Inr s \<longrightarrow> ok (skey s)"
    and same: "rejects env' = rejects env" "commit_fails env' = commit_fails env"
  shows "map E (committed (snd (insert_data_with prep stmt env' data
                                  (snd (insert_data_with prep stmt env data w))))) =
         map E (committed (snd (insert_data_with prep stmt env data w)))"
proof (cases "all_accepted prep env data \<and> commit_fails env = None")
  case False
  with same have "\<not> (all_accepted prep env' data \<and> commit_fails env' = None)"
    by (simp add: all_accepted_cong[OF same(1)])
  then show ?thesis by (simp add: insert_data_with_failure)
next
  case True
  let ?A = "\<lambda>r. (key r, r)"
  let ?w1 = "snd (insert_data_with prep stmt env data w)"
  let ?w2 = "snd (insert_data_with prep stmt env' data ?w1)"
  let ?qs = "map (\<lambda>s. (skey s, new0 s)) ss"
  from True have acc: "all_accepted prep env data" "commit_fails env = None" by simp_all
  with same have acc': "all_accepted prep env' data" "commit_fails env' = None"
    by (simp_all add: all_accepted_cong[OF same(1)])
  from acc obtain ss where ss: "map Inr ss = map prep data"
    using all_accepted_statements by blast
  have fresh1: "pending ?w1 = committed ?w1" using fresh by (rule insert_data_with_settled)
  have kv1: "map ?A (committed ?w1) = kv_run ok (stamped skey new env ss) (map ?A (committed w))"
    by (rule insert_data_with_kv[OF abs acc ss fresh])
  have kv2: "map ?A (committed ?w2) =
               kv_run ok (stamped skey new env' ss) (map ?A (committed ?w1))"
    by (rule insert_data_with_kv[OF abs acc' ss fresh1])
  have okk: "\<forall>p\<in>set (stamped skey new env ss). ok (fst p)"
  proof
    fix p assume "p \<in> set (stamped skey new env ss)"
    then obtain s where s: "s \<in> set ss" "fst p = skey s" using stamped_key_mem by fast
    from s(1) have "Inr s \<in> set (map prep data)" using ss[symmetric] by simp
    then obtain x where "x \<in> set data" "prep x = Inr s" by auto
    with keys s(2) show "ok (fst p)" by auto
  qed
  have eqp: "map (apsnd E) (stamped skey new env' ss) = map (apsnd E) (stamped skey new env ss)"
    by (simp add: stamped_apsnd[of E new new0, OF er])
  have "map (apsnd E) (map ?A (committed ?w2)) = map (apsnd E) (map ?A (committed ?w1))"
    unfolding kv2 unfolding kv1 by (rule kv_run_idem_upto[OF okk eqp])
  then have "map snd (map (apsnd E) (map ?A (committed ?w2))) =
             map snd (map (apsnd E) (map ?A (committed ?w1)))" by simp
  then show ?thesis by (simp add: comp_def)
qed

lemma harvest_update_matched:
  "h_id r = p_id p \<Longrightarrow> harvest_update now p r = harvest_insert now p"
  by (cases r) (simp add: harvest_update_def harvest_insert_def)

lemma harvest_abs:
  "map (\<lambda>r. (h_id r, r)) (harvest_merge now p t) =
     kv_merge not_null (p_id p, harvest_insert now p) (map (\<lambda>r. (h_id r, r)) t)"
proof -
  let ?A = "\<lambda>r. (h_id r, r)"
  have "map ?A (merge_into (\<lambda>r. sql_eq (h_id r) (p_id p)) (harvest_update now p)
          (harvest_insert now p) t) =
        merge_into (\<lambda>q. not_null (p_id p) \<and> fst q = p_id p) (\<lambda>q. (fst q, harvest_insert now p))
          (?A (harvest_insert now p)) (map ?A t)"
    by (rule map_merge_into)
       (auto simp: sql_eq_def not_null_def harvest_update_matched harvest_insert_def)
  moreover have "?A (harvest_insert now p) = (p_id p, harvest_insert now p)"
    by (simp add: harvest_insert_def)
  ultimately show ?thesis by (simp add: harvest_merge_def kv_merge_def)
qed

lemma tvn_abs:
  "map (\<lambda>r. (t_date r, r)) (tvn_merge now s t) =
     kv_merge (\<lambda>k. True) (t_date s, s) (map (\<lambda>r. (t_date r, r)) t)"
proof -
  let ?A = "\<lambda>r. (t_date r, r)"
  have "map ?A (merge_into (\<lambda>r. t_date r = t_date s)
          (\<lambda>r. r\<lparr>t_kgs_harvest_tvn := t_kgs_harvest_tvn s, t_kgs_packed_cnd := t_kgs_packed_cnd s\<rparr>)
          s t) =
        merge_into (\<lambda>q. True \<and> fst q = t_date s) (\<lambda>q. (fst q, s)) (?A s) (map ?A t)"
    by (rule map_merge_into) auto
  then show ?thesis by (simp add: tvn_merge_def kv_merge_def)
qed

lemma harvest_erase: "erase_insert_date (harvest_insert now p) = harvest_insert 0 p"
  by (simp add: erase_insert_date_def harvest_insert_def)

lemma normalize_id: "normalize_record x = Inr s \<Longrightarrow> x ''id'' = Some (p_id s)"
  using normalize_passthrough by blast

lemma example2_normalizes: "normalize_record example_row2 = Inr example_params2"
  by (simp add: normalize_record_def andthen_def getitem_def example_row2_def example_row_def
        example_params2_def example_params_def ex1 ex2 ex3
        strftime_ymd_hms_def strftime_ymd_def strftime_hms_def pad2_def pad4_def digit_def)

lemma example_env_simps [simp]:
  "rejects (example_env now) s = None" "commit_fails (example_env now) = None"
  "getdate (example_env now) i = now" "connect_fails (example_env now) = None"
  by (simp_all add: example_env_def)

lemma empty_world_simps [simp]:
  "committed empty_world = []" "pending empty_world = []" "issued empty_world = []"
  "log empty_world = []" "mailed empty_world = []" "notified empty_world = []"
  by (simp_all add: empty_world_def)

lemma kv_run_length: "length t \<le> length (kv_run ok ps t)"
proof (induction ps arbitrary: t)
  case Nil
  then show ?case by simp
next
  case (Cons p ps)
  have "length t \<le> length (kv_merge ok p t)" by (rule kv_merge_length)
  also have "\<dots> \<le> length (kv_run ok ps (kv_merge ok p t))" by (rule Cons.IH)
  finally show ?case by simp
qed

lemma key_mem: "(k \<in> fst ` set t) = (\<exists>q\<in>set t. fst q = k)"
  by (induction t) auto

lemma kv_run_new:
  "length t \<le> j \<Longrightarrow> j < length (kv_run ok ps t) \<Longrightarrow>
     \<not> (ok (fst (kv_run ok ps t ! j)) \<and> (\<exists>q\<in>set t. fst q = fst (kv_run ok ps t ! j)))"
proof (induction ps arbitrary: t)
  case Nil
  then show ?case by simp
next
  case (Cons p ps)
  let ?t1 = "kv_merge ok p t"
  let ?k = "fst (kv_run ok ps ?t1 ! j)"
  have j: "j < length (kv_run ok ps ?t1)" using Cons.prems(2) by simp
  show ?case
  proof (cases "ok (fst p) \<and> (\<exists>q\<in>set t. fst q = fst p)")
    case True
    then have m: "map fst ?t1 = map fst t" by (simp add: kv_merge_keys)
    then have "length ?t1 = length t" using length_map by metis
    with Cons.prems(1) have "length ?t1 \<le> j" by simp
    have mi: "fst ` set ?t1 = fst ` set t" using m by (metis set_map)
    from Cons.IH[OF \<open>length ?t1 \<le> j\<close> j] have "\<not> (ok ?k \<and> ?k \<in> fst ` set ?t1)"
      by (simp add: key_mem)
    then have "\<not> (ok ?k \<and> ?k \<in> fst ` set t)" unfolding mi .
    then show ?thesis by (simp add: key_mem)
  next
    case False
    then have t1: "?t1 = t @ [p]" by (simp add: kv_merge_unmatched)
    show ?thesis
    proof (cases "j = length t")
      case True
      then have "j < length ?t1" by (simp add: t1)
      from kv_run_frame[OF this, of ok ps] have "?k = fst (?t1 ! j)" by simp
      also have "\<dots> = fst p" using True by (simp add: t1)
      finally show ?thesis using False by simp
    next
      case False
      with Cons.prems(1) have "length ?t1 \<le> j" by (simp add: t1)
      from Cons.IH[OF this j] have "\<not> (ok ?k \<and> (\<exists>q\<in>set ?t1. fst q = ?k))" .
      then show ?thesis by (auto simp: t1)
    qed
  qed
qed

lemma insert_data_with_new:
  assumes abs: "\<And>now s t. map (\<lambda>r. (key r, r)) (stmt now s t) =
                  kv_merge ok (skey s, new now s) (map (\<lambda>r. (key r, r)) t)"
    and fresh: "pending w = committed w"
    and j: "length (committed w) \<le> j"
      "j < length (committed (snd (insert_data_with prep stmt env data w)))"
  shows "\<not> (ok (key (committed (snd (insert_data_with prep stmt env data w)) ! j)) \<and>
            (\<exists>r\<in>set (committed w).
               key r = key (committed (snd (insert_data_with prep stmt env data w)) ! j)))"
proof (cases "all_accepted prep env data \<and> commit_fails env = None")
  case False
  then show ?thesis using j by (simp add: insert_data_with_failure)
next
  case True
  let ?A = "\<lambda>r. (key r, r)"
  let ?t = "committed w"
  let ?t' = "committed (snd (insert_data_with prep stmt env data w))"
  from True obtain ss where ss: "map Inr ss = map prep data"
    using all_accepted_statements by blast
  let ?ps = "stamped skey new env ss"
  have kv: "map ?A ?t' = kv_run ok ?ps (map ?A ?t)"
    using True by (intro insert_data_with_kv[OF abs _ _ ss fresh]) simp_all
  have "\<not> (ok (fst (kv_run ok ?ps (map ?A ?t) ! j)) \<and>
           (\<exists>q\<in>set (map ?A ?t). fst q = fst (kv_run ok ?ps (map ?A ?t) ! j)))"
    by (rule kv_run_new) (use j kv[symmetric] in simp_all)
  then have "\<not> (ok (fst (map ?A ?t' ! j)) \<and> (\<exists>q\<in>set (map ?A ?t). fst q = fst (map ?A ?t' ! j)))"
    unfolding kv .
  then show ?thesis using j(2) by auto
qed

text \<open>
  C4, as amended: for ids that are not \<open>NULL\<close>, and for dates. When the destination
  holds at most one row per such key before \<open>insert_data\<close>, it does so after it, whatever
  the outcome. After a successful batch, for every row of the batch whose id is not
  \<open>NULL\<close> (for every row, in the daily totals) there is exactly one destination row with
  its key, and it carries the values of the last row of the batch with that key (for a
  harvest row, beside the time of synchronisation). \<open>ss\<close> are the statements of the
  batch, in its order.
\<close>

theorem upsert_keeps_one_row_per_key:
  "(unique_non_null_ids (committed w) \<and> pending w = committed w \<longrightarrow>
      unique_non_null_ids (committed (snd (insert_data env data w))) \<and>
      (fst (insert_data env data w) = Inr () \<and> map Inr ss = map normalize_record data \<and>
       s \<in> set ss \<and> p_id s \<noteq> PNone \<longrightarrow>
         (\<exists>r. filter (\<lambda>r. h_id r = p_id s) (committed (snd (insert_data env data w))) = [r] \<and>
              erase_insert_date r =
                harvest_insert 0 (last (filter (\<lambda>s'. p_id s' = p_id s) ss))))) \<and>
   (unique_dates (committed tw) \<and> pending tw = committed tw \<longrightarrow>
      unique_dates (committed (snd (tvn_insert_data tenv df tw))) \<and>
      (fst (tvn_insert_data tenv df tw) = Inr () \<and> map Inr tss = map tvn_statement df \<and>
       ts \<in> set tss \<longrightarrow>
         filter (\<lambda>r. t_date r = t_date ts) (committed (snd (tvn_insert_data tenv df tw))) =
           [last (filter (\<lambda>s'. t_date s' = t_date ts) tss)]))"
proof (intro conjI impI; (elim conjE)?)
  assume u: "unique_non_null_ids (committed w)" and f: "pending w = committed w"
  show "unique_non_null_ids (committed (snd (insert_data env data w)))"
    using u unfolding unique_non_null_ids_def insert_data_def
    by (intro insert_data_with_unique[where key = h_id and skey = p_id and new = harvest_insert
          and ok = not_null and stmt = harvest_merge, OF harvest_abs _ f])
next
  assume u: "unique_non_null_ids (committed w)" and f: "pending w = committed w"
    and r: "fst (insert_data env data w) = Inr ()" "map Inr ss = map normalize_record data"
      "s \<in> set ss" "p_id s \<noteq> PNone"
  have "not_null (p_id s)" using r(4) by (simp add: not_null_def)
  with u f r(1-3) show "\<exists>r. filter (\<lambda>r. h_id r = p_id s) (committed (snd (insert_data env data w))) = [r] \<and>
      erase_insert_date r = harvest_insert 0 (last (filter (\<lambda>s'. p_id s' = p_id s) ss))"
    unfolding unique_non_null_ids_def insert_data_def
    by (intro insert_data_with_last[where key = h_id and skey = p_id and new = harvest_insert
          and ok = not_null and E = erase_insert_date and ?new0.0 = "harvest_insert 0"
          and stmt = harvest_merge, OF harvest_abs harvest_erase])
next
  assume u: "unique_dates (committed tw)" and f: "pending tw = committed tw"
  have "distinct (filter (\<lambda>k. True) (map t_date (committed tw)))"
    using u by (simp add: unique_dates_def)
  then have "distinct (filter (\<lambda>k. True) (map t_date (committed (snd (tvn_insert_data tenv df tw)))))"
    unfolding tvn_insert_data_def
    by (intro insert_data_with_unique[where key = t_date and skey = t_date
          and new = "\<lambda>now s. s" and ok = "\<lambda>k. True" and stmt = tvn_merge, OF tvn_abs _ f])
  then show "unique_dates (committed (snd (tvn_insert_data tenv df tw)))"
    by (simp add: unique_dates_def)
next
  assume u: "unique_dates (committed tw)" and f: "pending tw = committed tw"
    and r: "fst (tvn_insert_data tenv df tw) = Inr ()" "map Inr tss = map tvn_statement df"
      "ts \<in> set tss"
  have d: "distinct (filter (\<lambda>k. True) (map t_date (committed tw)))"
    using u by (simp add: unique_dates_def)
  have "\<exists>r. filter (\<lambda>r. t_date r = t_date ts) (committed (snd (tvn_insert_data tenv df tw))) = [r] \<and>
          id r = (\<lambda>s. s) (last (filter (\<lambda>s'. t_date s' = t_date ts) tss))"
    using d f r unfolding tvn_insert_data_def
    by (intro insert_data_with_last[where key = t_date and skey = t_date and new = "\<lambda>now s. s"
          and ok = "\<lambda>k. True" and E = id and ?new0.0 = "\<lambda>s. s" and stmt = tvn_merge,
          OF tvn_abs]) simp_all
  then show "filter (\<lambda>r. t_date r = t_date ts) (committed (snd (tvn_insert_data tenv df tw))) =
           [last (filter (\<lambda>s'. t_date s' = t_date ts) tss)]"
    by auto
qed

lemma tvn_day_statement: "tvn_statement tvn_day = Inr tvn_rec" "tvn_statement tvn_day2 = Inr tvn_rec2"
  by (simp_all add: tvn_statement_def tvn_day_def tvn_day2_def tvn_rec_def tvn_rec2_def
        strftime_date_def strftime_ymd_def pad4_def pad2_def digit_def)

lemma settled_simps [simp]:
  "committed (settled t) = t" "pending (settled t) = t" "issued (settled t) = []"
  "log (settled t) = []" "mailed (settled t) = []" "notified (settled t) = []"
  by (simp_all add: settled_def)

lemma two_rows_accepted:
  "fst (insert_data (example_env now) [example_row, example_row2] w) = Inr ()"
  by (simp add: insert_data_def insert_data_with_fst all_accepted_def ex4 example2_normalizes)

lemma two_days_accepted:
  "fst (tvn_insert_data (example_env now) [tvn_day, tvn_day2] w) = Inr ()"
  by (simp add: tvn_insert_data_def insert_data_with_fst all_accepted_def tvn_day_statement)

theorem upsert_keeps_one_row_per_key_witness:
  "unique_non_null_ids (committed (snd (insert_data (example_env 7) [example_row, example_row2]
      (empty_world :: hworld)))) \<and>
   (\<exists>r. filter (\<lambda>r. h_id r = PStr ''H100'')
          (committed (snd (insert_data (example_env 7) [example_row, example_row2]
             (empty_world :: hworld)))) = [r] \<and>
        erase_insert_date r = harvest_insert 0 example_params2) \<and>
   unique_dates (committed (snd (tvn_insert_data (example_env 7) [tvn_day, tvn_day2]
      (empty_world :: tworld)))) \<and>
   filter (\<lambda>r. t_date r = ''2024-06-01'')
     (committed (snd (tvn_insert_data (example_env 7) [tvn_day, tvn_day2]
        (empty_world :: tworld)))) = [tvn_rec2]"
proof -
  have h: "unique_non_null_ids (committed (empty_world :: hworld))"
    "pending (empty_world :: hworld) = committed (empty_world :: hworld)"
    "map Inr [example_params, example_params2] = map normalize_record [example_row, example_row2]"
    "example_params \<in> set [example_params, example_params2]" "p_id example_params \<noteq> PNone"
    "p_id example_params = PStr ''H100''" "p_id example_params2 = PStr ''H100''"
    by (simp_all add: unique_non_null_ids_def ex4 example2_normalizes example_params_def example_params2_def)
  have t: "unique_dates (committed (empty_world :: tworld))"
    "pending (empty_world :: tworld) = committed (empty_world :: tworld)"
    "map Inr [tvn_rec, tvn_rec2] = map tvn_statement [tvn_day, tvn_day2]"
    "tvn_rec \<in> set [tvn_rec, tvn_rec2]"
    "t_date tvn_rec = ''2024-06-01''" "t_date tvn_rec2 = ''2024-06-01''"
    by (simp_all add: unique_dates_def tvn_day_statement tvn_rec_def tvn_rec2_def)
  from upsert_keeps_one_row_per_key[where w = "empty_world :: hworld" and env = "example_env 7"
      and data = "[example_row, example_row2]" and ss = "[example_params, example_params2]"
      and s = example_params and tw = "empty_world :: tworld" and tenv = "example_env 7"
      and df = "[tvn_day, tvn_day2]" and tss = "[tvn_rec, tvn_rec2]" and ts = tvn_rec]
    h t two_rows_accepted[of 7 empty_world] two_days_accepted[of 7 empty_world]
  show ?thesis by simp
qed

text \<open>
  C5. \<open>insert_data\<close> removes no row and moves none: whatever the outcome, every row of
  the destination is still at its place with its key, and it is unchanged when its key
  is the key of no row of the batch. A row that the run adds has a key that no row had
  before.
\<close>

theorem upsert_leaves_other_rows:
  "(pending w = committed w \<and> i < length (committed w) \<longrightarrow>
      i < length (committed (snd (insert_data env data w))) \<and>
      h_id (committed (snd (insert_data env data w)) ! i) = h_id (committed w ! i) \<and>
      ((\<forall>x\<in>set data. x ''id'' \<noteq> Some (h_id (committed w ! i))) \<longrightarrow>
         committed (snd (insert_data env data w)) ! i = committed w ! i)) \<and>
   (pending w = committed w \<and> length (committed w) \<le> j \<and>
    j < length (committed (snd (insert_data env data w))) \<longrightarrow>
      \<not> (\<exists>r\<in>set (committed w).
            sql_eq (h_id r) (h_id (committed (snd (insert_data env data w)) ! j)))) \<and>
   (pending tw = committed tw \<and> i < length (committed tw) \<longrightarrow>
      i < length (committed (snd (tvn_insert_data tenv df tw))) \<and>
      t_date (committed (snd (tvn_insert_data tenv df tw)) ! i) = t_date (committed tw ! i) \<and>
      ((\<forall>x\<in>set df. \<forall>d. date x = Some d \<longrightarrow> strftime_date d \<noteq> t_date (committed tw ! i)) \<longrightarrow>
         committed (snd (tvn_insert_data tenv df tw)) ! i = committed tw ! i)) \<and>
   (pending tw = committed tw \<and> length (committed tw) \<le> j \<and>
    j < length (committed (snd (tvn_insert_data tenv df tw))) \<longrightarrow>
      \<not> (\<exists>r\<in>set (committed tw).
            t_date r = t_date (committed (snd (tvn_insert_data tenv df tw)) ! j)))"
proof (intro conjI impI; (elim conjE)?)
  assume f: "pending w = committed w" and i: "i < length (committed w)"
  note fr = insert_data_with_frame[where key = h_id and skey = p_id and new = harvest_insert
      and ok = not_null and stmt = harvest_merge and prep = normalize_record and env = env
      and data = data, OF harvest_abs f i, folded insert_data_def]
  from fr show "i < length (committed (snd (insert_data env data w)))" by simp
  from fr show "h_id (committed (snd (insert_data env data w)) ! i) = h_id (committed w ! i)"
    by simp
  assume n: "\<forall>x\<in>set data. x ''id'' \<noteq> Some (h_id (committed w ! i))"
  have "\<forall>x\<in>set data. \<forall>s. normalize_record x = Inr s \<longrightarrow>
          \<not> (not_null (p_id s) \<and> h_id (committed w ! i) = p_id s)"
    using n normalize_id by fastforce
  with fr show "committed (snd (insert_data env data w)) ! i = committed w ! i" by blast
next
  assume f: "pending w = committed w" and j: "length (committed w) \<le> j"
    "j < length (committed (snd (insert_data env data w)))"
  from insert_data_with_new[where key = h_id and skey = p_id and new = harvest_insert
      and ok = not_null and stmt = harvest_merge and prep = normalize_record and env = env
      and data = data, OF harvest_abs f, folded insert_data_def, OF j]
  show "\<not> (\<exists>r\<in>set (committed w).
            sql_eq (h_id r) (h_id (committed (snd (insert_data env data w)) ! j)))"
    by (auto simp: sql_eq_def not_null_def)
next
  assume f: "pending tw = committed tw" and i: "i < length (committed tw)"
  note fr = insert_data_with_frame[where key = t_date and skey = t_date and new = "\<lambda>now s. s"
      and ok = "\<lambda>k. True" and stmt = tvn_merge and prep = tvn_statement and env = tenv
      and data = df, OF tvn_abs f i, folded tvn_insert_data_def]
  from fr show "i < length (committed (snd (tvn_insert_data tenv df tw)))" by simp
  from fr show "t_date (committed (snd (tvn_insert_data tenv df tw)) ! i) = t_date (committed tw ! i)"
    by simp
  assume n: "\<forall>x\<in>set df. \<forall>d. date x = Some d \<longrightarrow> strftime_date d \<noteq> t_date (committed tw ! i)"
  have "\<forall>x\<in>set df. \<forall>s. tvn_statement x = Inr s \<longrightarrow>
          \<not> (True \<and> t_date (committed tw ! i) = t_date s)"
    using n by (auto simp: tvn_statement_def split: option.splits)
  with fr show "committed (snd (tvn_insert_data tenv df tw)) ! i = committed tw ! i" by blast
next
  assume f: "pending tw = committed tw" and j: "length (committed tw) \<le> j"
    "j < length (committed (snd (tvn_insert_data tenv df tw)))"
  from insert_data_with_new[where key = t_date and skey = t_date and new = "\<lambda>now s. s"
      and ok = "\<lambda>k. True" and stmt = tvn_merge and prep = tvn_statement and env = tenv
      and data = df, OF tvn_abs f, folded tvn_insert_data_def, OF j]
  show "\<not> (\<exists>r\<in>set (committed tw).
            t_date r = t_date (committed (snd (tvn_insert_data tenv df tw)) ! j))"
    by auto
qed

lemma run_one:
  assumes "prep x = Inr s" "rejects env s = None" "commit_fails env = None"
  shows "committed (snd (insert_data_with prep stmt env [x] w)) = stmt (getdate env 0) s (pending w)"
    and "pending (snd (insert_data_with prep stmt env [x] w)) = stmt (getdate env 0) s (pending w)"
    and "issued (snd (insert_data_with prep stmt env [x] w)) = issued w @ [s]"
  using assms
  by (simp_all add: insert_data_with_def execute_def Let_def logging_def commit_def)

lemma not_accepted_iff:
  "(\<not> all_accepted prep env data) =
     (\<exists>x\<in>set data. case prep x of Inl e \<Rightarrow> True | Inr s \<Rightarrow> rejects env s \<noteq> None)"
proof -
  have "\<And>x. (\<not> (case prep x of Inl e \<Rightarrow> False | Inr s \<Rightarrow> rejects env s = None)) =
          (case prep x of Inl e \<Rightarrow> True | Inr s \<Rightarrow> rejects env s \<noteq> None)"
    by (simp split: sum.splits)
  then show ?thesis by (simp add: all_accepted_def list_all_iff)
qed

lemma insert_data_with_trace:
  "\<exists>n\<le>length data.
     map Inr (drop (length (issued w)) (issued (snd (insert_data_with prep stmt env data w)))) =
       map prep (take n data)"
  using insert_loop_issued[of data w prep stmt env 0]
  by (auto simp: insert_data_with_issued)

text \<open>
  C2. When a row of the batch fails in the mapping or is refused by the store, or the
  commit fails, \<open>insert_data\<close> raises and the committed table is the one before the
  call. Nothing is tried twice: the statements issued are those of the first \<open>n\<close> rows,
  one each, in the order of the batch.
\<close>

theorem insert_data_all_or_nothing:
  "((\<exists>x\<in>set data. case normalize_record x of Inl e \<Rightarrow> True | Inr s \<Rightarrow> rejects env s \<noteq> None) \<or>
    commit_fails env \<noteq> None \<longrightarrow>
      (\<exists>e. fst (insert_data env data w) = Inl e) \<and>
      committed (snd (insert_data env data w)) = committed w \<and>
      (\<exists>n\<le>length data.
         map Inr (drop (length (issued w)) (issued (snd (insert_data env data w)))) =
           map normalize_record (take n data))) \<and>
   ((\<exists>x\<in>set df. case tvn_statement x of Inl e \<Rightarrow> True | Inr s \<Rightarrow> rejects tenv s \<noteq> None) \<or>
    commit_fails tenv \<noteq> None \<longrightarrow>
      (\<exists>e. fst (tvn_insert_data tenv df tw) = Inl e) \<and>
      committed (snd (tvn_insert_data tenv df tw)) = committed tw \<and>
      (\<exists>n\<le>length df.
         map Inr (drop (length (issued tw)) (issued (snd (tvn_insert_data tenv df tw)))) =
           map tvn_statement (take n df)))"
proof (intro conjI impI)
  assume "(\<exists>x\<in>set data. case normalize_record x of Inl e \<Rightarrow> True | Inr s \<Rightarrow> rejects env s \<noteq> None) \<or>
    commit_fails env \<noteq> None"
  then have n: "\<not> (all_accepted normalize_record env data \<and> commit_fails env = None)"
    by (simp add: not_accepted_iff)
  from insert_data_with_failure[OF n, of harvest_merge w]
  show "\<exists>e. fst (insert_data env data w) = Inl e"
    and "committed (snd (insert_data env data w)) = committed w"
    by (simp_all add: insert_data_def)
  show "\<exists>n\<le>length data.
         map Inr (drop (length (issued w)) (issued (snd (insert_data env data w)))) =
           map normalize_record (take n data)"
    unfolding insert_data_def by (rule insert_data_with_trace)
next
  assume "(\<exists>x\<in>set df. case tvn_statement x of Inl e \<Rightarrow> True | Inr s \<Rightarrow> rejects tenv s \<noteq> None) \<or>
    commit_fails tenv \<noteq> None"
  then have n: "\<not> (all_accepted tvn_statement tenv df \<and> commit_fails tenv = None)"
    by (simp add: not_accepted_iff)
  from insert_data_with_failure[OF n, of tvn_merge tw]
  show "\<exists>e. fst (tvn_insert_data tenv df tw) = Inl e"
    and "committed (snd (tvn_insert_data tenv df tw)) = committed tw"
    by (simp_all add: tvn_insert_data_def)
  show "\<exists>n\<le>length df.
         map Inr (drop (length (issued tw)) (issued (snd (tvn_insert_data tenv df tw)))) =
           map tvn_statement (take n df)"
    unfolding tvn_insert_data_def by (rule insert_data_with_trace)
qed

lemma no_date_fails: "normalize_record no_date_row = Inl (KeyError ''harvest_date'')"
  by (simp add: normalize_record_def andthen_def getitem_def no_date_row_def)

lemma nat_day_fails: "tvn_statement nat_day = Inl (ValueError ''NaTType does not support strftime'')"
  by (simp add: tvn_statement_def nat_day_def)

theorem insert_data_all_or_nothing_witness:
  "(\<exists>e. fst (insert_data (example_env 7) [example_row, no_date_row] (settled [other_harvest])) = Inl e) \<and>
   committed (snd (insert_data (example_env 7) [example_row, no_date_row] (settled [other_harvest]))) =
     [other_harvest] \<and>
   (\<exists>e. fst (tvn_insert_data (example_env 7) [tvn_day, nat_day] (settled [other_day])) = Inl e) \<and>
   committed (snd (tvn_insert_data (example_env 7) [tvn_day, nat_day] (settled [other_day]))) =
     [other_day]"
  using insert_data_all_or_nothing[where env = "example_env 7"
      and data = "[example_row, no_date_row]" and w = "settled [other_harvest]"
      and tenv = "example_env 7" and df = "[tvn_day, nat_day]" and tw = "settled [other_day]"]
  by (simp add: no_date_fails nat_day_fails)

lemma insert_loop_prefix:
  "all_accepted prep env xs \<Longrightarrow> prep b = Inl e \<Longrightarrow>
     insert_loop prep stmt env i (xs @ b # ys) w = (Inl e, snd (insert_loop prep stmt env i xs w))"
proof (induction xs arbitrary: i w)
  case Nil
  then show ?case by simp
next
  case (Cons x xs)
  then obtain s where s: "prep x = Inr s" "rejects env s = None" and acc: "all_accepted prep env xs"
    by (auto simp: all_accepted_iff)
  obtain r w1 where ex: "execute stmt env i s w = (r, w1)" by (cases "execute stmt env i s w")
  have r: "r = Inr ()" using execute_fst[of stmt env i s w] ex s(2) by simp
  from Cons.IH[OF acc Cons.prems(2), of "Suc i" w1] s(1) ex r show ?case by simp
qed

lemma insert_loop_issued_all:
  "all_accepted prep env xs \<Longrightarrow>
     map Inr (drop (length (issued w)) (issued (snd (insert_loop prep stmt env i xs w)))) =
       map prep xs"
proof (induction xs arbitrary: i w)
  case Nil
  then show ?case by simp
next
  case (Cons x xs)
  then obtain s where s: "prep x = Inr s" "rejects env s = None" and acc: "all_accepted prep env xs"
    by (auto simp: all_accepted_iff)
  obtain r w1 where ex: "execute stmt env i s w = (r, w1)" by (cases "execute stmt env i s w")
  have r: "r = Inr ()" using execute_fst[of stmt env i s w] ex s(2) by simp
  have w1: "issued w1 = issued w @ [s]" using execute_other(5)[of stmt env i s w] ex by simp
  let ?w' = "snd (insert_loop prep stmt env (Suc i) xs w1)"
  have res: "insert_loop prep stmt env i (x # xs) w = insert_loop prep stmt env (Suc i) xs w1"
    using s(1) ex r by simp
  from insert_loop_issued[of xs w1 prep stmt env "Suc i"]
  have tk: "take (length (issued w1)) (issued ?w') = issued w1" by blast
  have split: "issued ?w' = issued w1 @ drop (length (issued w1)) (issued ?w')"
    using tk append_take_drop_id[of "length (issued w1)" "issued ?w'"] by simp
  have d: "drop (length (issued w)) (issued ?w') = s # drop (length (issued w1)) (issued ?w')"
    by (subst split) (simp add: w1)
  show ?case unfolding res d using Cons.IH[OF acc, of w1 "Suc i"] s(1) by simp
qed

lemma prefix_of_good:
  assumes "n \<le> length (good @ bad # rest)"
    and "map Inr ss = map prep (take n (good @ bad # rest))"
    and "prep bad = Inl e"
  shows "n \<le> length good \<and> take n (good @ bad # rest) = take n good"
proof -
  have "n \<le> length good"
  proof (rule ccontr)
    assume "\<not> n \<le> length good"
    then have "bad \<in> set (take n (good @ bad # rest))"
      by (auto simp: take_Cons' )
    then have "prep bad \<in> set (map prep (take n (good @ bad # rest)))"
      unfolding set_map by (rule imageI)
    then have "Inl e \<in> set (map Inr ss)" unfolding assms(2) assms(3) .
    then show False by auto
  qed
  then show ?thesis by simp
qed

text \<open>
  C3 as stated fails: with a good row before a row that has no \<open>harvest_date\<close>, the
  statement of the good row has been issued when the mapping of the second row fails.
\<close>

theorem statement_issued_before_mapping_failure_counterexample:
  "normalize_record no_date_row = Inl (KeyError ''harvest_date'') \<and>
   issued (snd (insert_data (example_env 7) [example_row, no_date_row] (empty_world :: hworld))) =
     [example_params]"
  by (simp add: no_date_fails insert_data_def insert_data_with_def ex4 execute_def Let_def
        logging_def rollback_def)

text \<open>
  C3, as amended. When a row of the batch fails normalisation and the rows before it do
  not, \<open>insert_data\<close> raises and commits nothing. No statement is issued for the failing
  row nor for any row after it; the statements issued are those of the first \<open>n\<close> rows before
  it, and they are all of them when the store refuses none, in which case the exception
  raised is the one of the mapping. What these statements wrote is undone by the
  rollback: the table that the connection sees after the call is the committed table
  of before the call.
\<close>

theorem mapping_failure_aborts_batch:
  "data = good @ bad # rest \<and> (\<forall>x\<in>set good. \<exists>s. normalize_record x = Inr s) \<and>
   normalize_record bad = Inl e \<longrightarrow>
     (\<exists>e'. fst (insert_data env data w) = Inl e') \<and>
     committed (snd (insert_data env data w)) = committed w \<and>
     pending (snd (insert_data env data w)) = committed w \<and>
     (\<exists>n\<le>length good.
        map Inr (drop (length (issued w)) (issued (snd (insert_data env data w)))) =
          map normalize_record (take n good)) \<and>
     ((\<forall>x\<in>set good. \<forall>s. normalize_record x = Inr s \<longrightarrow> rejects env s = None) \<longrightarrow>
        fst (insert_data env data w) = Inl e \<and>
        map Inr (drop (length (issued w)) (issued (snd (insert_data env data w)))) =
          map normalize_record good)"
proof (intro impI; elim conjE)
  assume d: "data = good @ bad # rest"
    and g: "\<forall>x\<in>set good. \<exists>s. normalize_record x = Inr s"
    and b: "normalize_record bad = Inl e"
  have "\<not> all_accepted normalize_record env data"
    using d b by (auto simp: all_accepted_iff)
  then have n: "\<not> (all_accepted normalize_record env data \<and> commit_fails env = None)" by simp
  note fl = insert_data_with_failure[OF n, of harvest_merge w, folded insert_data_def]
  from insert_data_with_trace[of data w normalize_record harvest_merge env, folded insert_data_def]
  obtain k where k: "k \<le> length data"
    "map Inr (drop (length (issued w)) (issued (snd (insert_data env data w)))) =
       map normalize_record (take k data)" by blast
  have kg: "k \<le> length good \<and> take k data = take k good"
    unfolding d
    by (rule prefix_of_good[where prep = normalize_record and e = e
          and ss = "drop (length (issued w)) (issued (snd (insert_data env data w)))"])
       (use k b d in simp_all)
  have tr: "\<exists>n\<le>length good.
        map Inr (drop (length (issued w)) (issued (snd (insert_data env data w)))) =
          map normalize_record (take n good)"
    using k(2) kg by auto
  have all: "fst (insert_data env data w) = Inl e \<and>
        map Inr (drop (length (issued w)) (issued (snd (insert_data env data w)))) =
          map normalize_record good"
    if a: "\<forall>x\<in>set good. \<forall>s. normalize_record x = Inr s \<longrightarrow> rejects env s = None"
  proof -
    have acc: "all_accepted normalize_record env good"
      using g a by (auto simp: all_accepted_iff)
    have l: "insert_loop normalize_record harvest_merge env 0 data w =
               (Inl e, snd (insert_loop normalize_record harvest_merge env 0 good w))"
      using insert_loop_prefix[of normalize_record env good bad e harvest_merge 0 rest w] acc b d
      by simp
    have f: "fst (insert_data env data w) = Inl e"
      by (simp add: insert_data_def insert_data_with_def l)
    have "issued (snd (insert_data env data w)) =
            issued (snd (insert_loop normalize_record harvest_merge env 0 good w))"
      by (simp add: insert_data_def insert_data_with_issued l)
    with insert_loop_issued_all[OF acc, of w harvest_merge 0] f show ?thesis by simp
  qed
  from fl tr all show "(\<exists>e'. fst (insert_data env data w) = Inl e') \<and>
     committed (snd (insert_data env data w)) = committed w \<and>
     pending (snd (insert_data env data w)) = committed w \<and>
     (\<exists>n\<le>length good.
        map Inr (drop (length (issued w)) (issued (snd (insert_data env data w)))) =
          map normalize_record (take n good)) \<and>
     ((\<forall>x\<in>set good. \<forall>s. normalize_record x = Inr s \<longrightarrow> rejects env s = None) \<longrightarrow>
        fst (insert_data env data w) = Inl e \<and>
        map Inr (drop (length (issued w)) (issued (snd (insert_data env data w)))) =
          map normalize_record good)"
    by blast
qed

theorem mapping_failure_aborts_batch_witness:
  "fst (insert_data (example_env 7) [example_row, no_date_row, example_row2]
          (settled [other_harvest])) = Inl (KeyError ''harvest_date'') \<and>
   committed (snd (insert_data (example_env 7) [example_row, no_date_row, example_row2]
          (settled [other_harvest]))) = [other_harvest] \<and>
   pending (snd (insert_data (example_env 7) [example_row, no_date_row, example_row2]
          (settled [other_harvest]))) = [other_harvest] \<and>
   issued (snd (insert_data (example_env 7) [example_row, no_date_row, example_row2]
          (settled [other_harvest]))) = [example_params]"
proof -
  have "map Inr (issued (snd (insert_data (example_env 7) [example_row, no_date_row, example_row2]
          (settled [other_harvest])))) = map Inr [example_params]"
    and "fst (insert_data (example_env 7) [example_row, no_date_row, example_row2]
          (settled [other_harvest])) = Inl (KeyError ''harvest_date'')"
    and "committed (snd (insert_data (example_env 7) [example_row, no_date_row, example_row2]
          (settled [other_harvest]))) = [other_harvest]"
    and "pending (snd (insert_data (example_env 7) [example_row, no_date_row, example_row2]
          (settled [other_harvest]))) = [other_harvest]"
    using mapping_failure_aborts_batch[where data = "[example_row, no_date_row, example_row2]"
      and good = "[example_row]" and bad = no_date_row and rest = "[example_row2]"
      and e = "KeyError ''harvest_date''" and env = "example_env 7"
      and w = "settled [other_harvest]"]
    by (auto simp: no_date_fails ex4)
  then show ?thesis by (auto simp: map_eq_Cons_conv)
qed

lemma one_row_run:
  "committed (snd (insert_data (example_env now) [example_row] w)) =
     harvest_merge now example_params (pending w)"
  "pending (snd (insert_data (example_env now) [example_row] w)) =
     harvest_merge now example_params (pending w)"
  unfolding insert_data_def
  by (simp_all add: run_one[where s = example_params] ex4)

lemma one_day_run:
  "committed (snd (tvn_insert_data (example_env now) [tvn_day] w)) =
     tvn_merge now tvn_rec (pending w)"
  unfolding tvn_insert_data_def
  by (simp add: run_one[where s = tvn_rec] tvn_day_statement)

lemma other_harvest_id: "h_id other_harvest = PStr ''H099''"
  by (simp add: other_harvest_def)

theorem upsert_leaves_other_rows_witness:
  "committed (snd (insert_data (example_env 7) [example_row] (settled [other_harvest]))) ! 0 =
     other_harvest \<and>
   \<not> sql_eq (h_id other_harvest)
       (h_id (committed (snd (insert_data (example_env 7) [example_row]
          (settled [other_harvest]))) ! 1)) \<and>
   committed (snd (tvn_insert_data (example_env 7) [tvn_day] (settled [other_day]))) ! 0 =
     other_day \<and>
   t_date other_day \<noteq>
     t_date (committed (snd (tvn_insert_data (example_env 7) [tvn_day] (settled [other_day]))) ! 1)"
proof -
  have l: "length (committed (snd (insert_data (example_env 7) [example_row]
             (settled [other_harvest])))) = 2"
    by (simp add: one_row_run harvest_merge_def merge_into_def sql_eq_def other_harvest_id
          example_params_def)
  have tl: "length (committed (snd (tvn_insert_data (example_env 7) [tvn_day]
             (settled [other_day])))) = 2"
    by (simp add: one_day_run tvn_merge_def merge_into_def other_day_def tvn_rec_def)
  have k: "\<forall>x\<in>set [example_row]. x ''id'' \<noteq> Some (h_id (committed (settled [other_harvest]) ! 0))"
    by (simp add: example_row_def other_harvest_id)
  have tk: "\<forall>x\<in>set [tvn_day]. \<forall>d. date x = Some d \<longrightarrow>
              strftime_date d \<noteq> t_date (committed (settled [other_day]) ! 0)"
    by (simp add: tvn_day_def other_day_def strftime_date_def strftime_ymd_def pad4_def pad2_def
          digit_def)
  from upsert_leaves_other_rows[where w = "settled [other_harvest]" and i = 0 and j = 1
      and env = "example_env 7" and data = "[example_row]" and tw = "settled [other_day]"
      and tenv = "example_env 7" and df = "[tvn_day]"] l tl k tk
  show ?thesis by simp
qed

lemma insert_data_times_settled:
  "pending w = committed w \<Longrightarrow>
     pending (insert_data_times envs n data w) = committed (insert_data_times envs n data w)"
proof (induction n)
  case 0
  then show ?case by simp
next
  case (Suc n)
  then show ?case by (simp add: insert_data_def insert_data_with_settled)
qed

lemma tvn_insert_data_times_settled:
  "pending w = committed w \<Longrightarrow>
     pending (tvn_insert_data_times envs n df w) = committed (tvn_insert_data_times envs n df w)"
proof (induction n)
  case 0
  then show ?case by simp
next
  case (Suc n)
  then show ?case by (simp add: tvn_insert_data_def insert_data_with_settled)
qed

text \<open>
  C1, as amended. \<open>envs k\<close> is the environment of run \<open>k\<close>: the clock may read differently
  from run to run, the store refuses the same statements in every run. When no row of
  the batch has a null id, the harvest table after \<open>n + 1\<close> runs of \<open>insert_data\<close> on the
  same batch is the table after the first run, beside the times of synchronisation.
  The table of daily totals after \<open>n + 1\<close> runs is the table after the first run.
\<close>

theorem rerun_changes_timestamps_only:
  "(pending w = committed w \<and> (\<forall>x\<in>set data. x ''id'' \<noteq> Some PNone) \<and>
    (\<forall>k. rejects (envs k) = rejects (envs 0) \<and> commit_fails (envs k) = commit_fails (envs 0)) \<longrightarrow>
      map erase_insert_date (committed (insert_data_times envs (Suc n) data w)) =
      map erase_insert_date (committed (insert_data_times envs 1 data w))) \<and>
   (pending tw = committed tw \<and>
    (\<forall>k. rejects (tenvs k) = rejects (tenvs 0) \<and>
         commit_fails (tenvs k) = commit_fails (tenvs 0)) \<longrightarrow>
      committed (tvn_insert_data_times tenvs (Suc n) df tw) =
      committed (tvn_insert_data_times tenvs 1 df tw))"
proof (intro conjI impI; elim conjE)
  assume f: "pending w = committed w" and ids: "\<forall>x\<in>set data. x ''id'' \<noteq> Some PNone"
    and same: "\<forall>k. rejects (envs k) = rejects (envs 0) \<and> commit_fails (envs k) = commit_fails (envs 0)"
  have keys: "\<forall>x\<in>set data. \<forall>s. normalize_record x = Inr s \<longrightarrow> not_null (p_id s)"
    using ids normalize_id by (fastforce simp: not_null_def)
  show "map erase_insert_date (committed (insert_data_times envs (Suc n) data w)) =
        map erase_insert_date (committed (insert_data_times envs 1 data w))"
  proof (induction n)
    case 0
    then show ?case by simp
  next
    case (Suc n)
    let ?w = "insert_data_times envs n data w"
    have s: "pending ?w = committed ?w" using f by (rule insert_data_times_settled)
    have r: "rejects (envs (Suc n)) = rejects (envs n)"
      "commit_fails (envs (Suc n)) = commit_fails (envs n)"
      using same by metis+
    have "map erase_insert_date (committed (snd (insert_data_with normalize_record harvest_merge
              (envs (Suc n)) data (snd (insert_data_with normalize_record harvest_merge (envs n) data ?w))))) =
          map erase_insert_date (committed (snd (insert_data_with normalize_record harvest_merge
              (envs n) data ?w)))"
      by (rule insert_data_with_idem[where key = h_id and skey = p_id and new = harvest_insert
            and ok = not_null and ?new0.0 = "harvest_insert 0", OF harvest_abs harvest_erase s keys r])
    then have "map erase_insert_date (committed (insert_data_times envs (Suc (Suc n)) data w)) =
               map erase_insert_date (committed (insert_data_times envs (Suc n) data w))"
      by (simp add: insert_data_def)
    with Suc show ?case by simp
  qed
next
  assume f: "pending tw = committed tw"
    and same: "\<forall>k. rejects (tenvs k) = rejects (tenvs 0) \<and>
                 commit_fails (tenvs k) = commit_fails (tenvs 0)"
  show "committed (tvn_insert_data_times tenvs (Suc n) df tw) =
        committed (tvn_insert_data_times tenvs 1 df tw)"
  proof (induction n)
    case 0
    then show ?case by simp
  next
    case (Suc n)
    let ?w = "tvn_insert_data_times tenvs n df tw"
    have s: "pending ?w = committed ?w" using f by (rule tvn_insert_data_times_settled)
    have r: "rejects (tenvs (Suc n)) = rejects (tenvs n)"
      "commit_fails (tenvs (Suc n)) = commit_fails (tenvs n)"
      using same by metis+
    have "map id (committed (snd (insert_data_with tvn_statement tvn_merge
              (tenvs (Suc n)) df (snd (insert_data_with tvn_statement tvn_merge (tenvs n) df ?w))))) =
          map id (committed (snd (insert_data_with tvn_statement tvn_merge (tenvs n) df ?w)))"
      by (rule insert_data_with_idem[where key = t_date and skey = t_date and new = "\<lambda>now s. s"
            and ok = "\<lambda>k. True" and ?new0.0 = "\<lambda>s. s", OF tvn_abs _ s _ r]) simp_all
    then have "committed (tvn_insert_data_times tenvs (Suc (Suc n)) df tw) =
               committed (tvn_insert_data_times tenvs (Suc n) df tw)"
      by (simp add: tvn_insert_data_def)
    with Suc show ?case by simp
  qed
qed

lemma insert_data_mail [simp]:
  "mailed (snd (insert_data env data w)) = mailed w"
  "notified (snd (insert_data env data w)) = notified w"
  using insert_data_with_mail[of normalize_record harvest_merge env data w]
  by (simp_all add: insert_data_def)

lemma tvn_insert_data_mail [simp]:
  "mailed (snd (tvn_insert_data env df w)) = mailed w"
  "notified (snd (tvn_insert_data env df w)) = notified w"
  using insert_data_with_mail[of tvn_statement tvn_merge env df w]
  by (simp_all add: tvn_insert_data_def)

lemma logging_simps [simp]:
  "mailed (logging l m w) = mailed w" "notified (logging l m w) = notified w"
  "committed (logging l m w) = committed w" "pending (logging l m w) = pending w"
  "log (logging l m w) = log w @ [(l, m)]"
  by (simp_all add: logging_def)

lemma send_email_notified [simp]:
  "notified (send_email_notification env n w) = notified w @ [n]"
  by (simp add: send_email_notification_def Let_def split: option.splits)

lemma send_email_mailed:
  "mailed (send_email_notification env n w) =
     (if truthy (email_sender env) \<and> truthy (email_password env) \<and> truthy (email_recipient env) \<and>
         smtp_fails env = None
      then mailed w @ [\<lparr>m_from = the (email_sender env), m_to = the (email_recipient env),
             m_body = (if n_success n then SuccessBody (n_start n) (n_end n) (n_records n)
                       else FailureBody (n_start n) (n_end n) (n_error n))\<rparr>]
      else mailed w)"
  by (simp add: send_email_notification_def Let_def split: option.splits)

lemma fetch_api_data_mail [simp]:
  "mailed (snd (fetch_api_data env sd ed w)) = mailed w"
  "notified (snd (fetch_api_data env sd ed w)) = notified w"
  by (simp_all add: fetch_api_data_def split: sum.splits)

lemma get_database_connection_mail [simp]:
  "mailed (snd (get_database_connection env w)) = mailed w"
  "notified (snd (get_database_connection env w)) = notified w"
  by (simp_all add: get_database_connection_def split: option.splits)

lemma get_database_connection_fresh:
  "fst (get_database_connection env w) = Inr u \<Longrightarrow>
     pending (snd (get_database_connection env w)) = committed (snd (get_database_connection env w)) \<and>
     committed (snd (get_database_connection env w)) = committed w"
  by (simp add: get_database_connection_def split: option.splits)

text \<open>The four ways through \<open>sync_data\<close> of \<open>main.py\<close>.\<close>

lemma sync_data_cases:
  fixes env :: "hparams env" and start_date end_date :: "date option"
  defines "sd \<equiv> window_start env start_date" and "ed \<equiv> window_start env end_date"
  obtains
    (fetch) e w1 where "source env (Some sd) (Some ed) = Inl e"
      "sync_data env start_date end_date w = (Inr (), send_email_notification env
         \<lparr>n_success = False, n_start = sd, n_end = ed, n_error = Some (str_exn e), n_records = 0\<rparr>
         (logging ERROR (''Data sync failed: '' @ str_exn e) w1))"
      "mailed w1 = mailed w" "notified w1 = notified w"
  | (connect) data e w1 where "source env (Some sd) (Some ed) = Inr data" "connect_fails env = Some e"
      "sync_data env start_date end_date w = (Inr (), send_email_notification env
         \<lparr>n_success = False, n_start = sd, n_end = ed, n_error = Some (str_exn e),
          n_records = length data\<rparr>
         (logging ERROR (''Data sync failed: '' @ str_exn e) w1))"
      "mailed w1 = mailed w" "notified w1 = notified w"
  | (insert) data e w1 where "source env (Some sd) (Some ed) = Inr data" "connect_fails env = None"
      "\<not> (all_accepted normalize_record env data \<and> commit_fails env = None)"
      "sync_data env start_date end_date w = (Inr (), send_email_notification env
         \<lparr>n_success = False, n_start = sd, n_end = ed, n_error = Some (str_exn e),
          n_records = length data\<rparr>
         (logging ERROR (''Data sync failed: '' @ str_exn e) w1))"
      "mailed w1 = mailed w" "notified w1 = notified w"
  | (success) data w1 where "source env (Some sd) (Some ed) = Inr data" "connect_fails env = None"
      "all_accepted normalize_record env data" "commit_fails env = None"
      "sync_data env start_date end_date w = (Inr (), send_email_notification env
         \<lparr>n_success = True, n_start = sd, n_end = ed, n_error = None, n_records = length data\<rparr>
         (logging INFO (''Data sync completed successfully for period '' @
                            str_date sd @ '' to '' @ str_date ed) w1))"
      "mailed w1 = mailed w" "notified w1 = notified w"
proof (cases "source env (Some sd) (Some ed)")
  case (Inl e)
  show ?thesis
    by (rule fetch[of e "logging ERROR (''API fetch error: '' @ str_exn e) w"])
       (use Inl in \<open>simp_all add: sync_data_def Let_def fetch_api_data_def sd_def ed_def window_start_def\<close>)
next
  case (Inr data)
  show ?thesis
  proof (cases "connect_fails env")
    case (Some e)
    show ?thesis
      by (rule connect[of data e "logging ERROR (''Database connection error: '' @ str_exn e) w"])
         (use Inr Some in \<open>simp_all add: sync_data_def Let_def fetch_api_data_def
            get_database_connection_def sd_def ed_def window_start_def\<close>)
  next
    case None
    let ?w2 = "w\<lparr>pending := committed w\<rparr>"
    obtain r w3 where i: "insert_data env data ?w2 = (r, w3)" by (cases "insert_data env data ?w2")
    have m: "mailed w3 = mailed w" "notified w3 = notified w"
      using insert_data_mail[of env data ?w2] i by simp_all
    have f: "(r = Inr ()) = (all_accepted normalize_record env data \<and> commit_fails env = None)"
      using insert_data_with_fst[of normalize_record harvest_merge env data ?w2] i
      by (simp add: insert_data_def)
    show ?thesis
    proof (cases r)
      case (Inl e)
      with f have n: "\<not> (all_accepted normalize_record env data \<and> commit_fails env = None)" by simp
      show ?thesis
        by (rule insert[of data e w3])
           (use Inr None Inl i n m in \<open>simp_all add: sync_data_def Let_def fetch_api_data_def
              get_database_connection_def sd_def ed_def window_start_def\<close>)
    next
      case (Inr u)
      with f have a: "all_accepted normalize_record env data" "commit_fails env = None" by simp_all
      show ?thesis
        by (rule success[of data w3])
           (use \<open>source env (Some sd) (Some ed) = Inr data\<close> None Inr i a m in
             \<open>simp_all add: sync_data_def Let_def fetch_api_data_def
              get_database_connection_def sd_def ed_def window_start_def\<close>)
    qed
  qed
qed

lemma get_supabase_data_fst:
  "fst (get_supabase_data env a b w) = fst (get_supabase_data env a b w')"
  by (simp add: get_supabase_data_def Let_def split: sum.splits)

lemma get_supabase_data_mail [simp]:
  "mailed (snd (get_supabase_data env a b w)) = mailed w"
  "notified (snd (get_supabase_data env a b w)) = notified w"
  by (simp_all add: get_supabase_data_def Let_def split: sum.splits)

lemma tvn_sync_data_notified:
  "notified (snd (tvn_sync_data env start_date end_date w)) = notified w \<and>
   mailed (snd (tvn_sync_data env start_date end_date w)) = mailed w"
proof -
  let ?sd = "window_start env start_date" and ?ed = "window_start env end_date"
  obtain r1 w1 where g: "get_supabase_data env (Some ?sd) (Some ?ed) w = (r1, w1)"
    by (cases "get_supabase_data env (Some ?sd) (Some ?ed) w")
  have m1: "notified w1 = notified w" "mailed w1 = mailed w"
    using get_supabase_data_mail[of env "Some ?sd" "Some ?ed" w] g by simp_all
  obtain r2 w2 where c: "get_database_connection env w1 = (r2, w2)"
    by (cases "get_database_connection env w1")
  have m2: "notified w2 = notified w" "mailed w2 = mailed w"
    using get_database_connection_mail[of env w1] c m1 by simp_all
  show ?thesis
  proof (cases r1)
    case (Inl e)
    with g m1 show ?thesis by (simp add: tvn_sync_data_def Let_def window_start_def)
  next
    case (Inr df)
    obtain r3 w3 where i: "tvn_insert_data env df w2 = (r3, w3)"
      by (cases "tvn_insert_data env df w2")
    have m3: "notified w3 = notified w" "mailed w3 = mailed w"
      using tvn_insert_data_mail[of env df w2] i m2 by simp_all
    from Inr g c i m2 m3 show ?thesis
      by (cases r2; cases r3) (simp_all add: tvn_sync_data_def Let_def window_start_def)
  qed
qed

lemma sync_data_last_step:
  "\<exists>w'. snd (sync_data env start_date end_date w) =
          send_email_notification env
            \<lparr>n_success = (stage_error env start_date end_date w = None),
             n_start = window_start env start_date, n_end = window_start env end_date,
             n_error = map_option str_exn (stage_error env start_date end_date w),
             n_records = rows_fetched env start_date end_date\<rparr> w' \<and>
        notified w' = notified w \<and> mailed w' = mailed w \<and>
        (stage_error env start_date end_date w = None) = run_succeeds env start_date end_date"
proof -
  let ?sd = "window_start env start_date" and ?ed = "window_start env end_date"
  show ?thesis
  proof (cases "source env (Some ?sd) (Some ?ed)")
    case (Inl e)
    show ?thesis
      by (rule exI[of _ "logging ERROR (''Data sync failed: '' @ str_exn e)
                           (logging ERROR (''API fetch error: '' @ str_exn e) w)"])
         (use Inl in \<open>simp add: sync_data_def stage_error_def run_succeeds_def rows_fetched_def
            Let_def fetch_api_data_def window_start_def\<close>)
  next
    case (Inr data)
    show ?thesis
    proof (cases "connect_fails env")
      case (Some e)
      show ?thesis
        by (rule exI[of _ "logging ERROR (''Data sync failed: '' @ str_exn e)
                             (logging ERROR (''Database connection error: '' @ str_exn e) w)"])
           (use Inr Some in \<open>simp add: sync_data_def stage_error_def run_succeeds_def
              rows_fetched_def Let_def fetch_api_data_def get_database_connection_def
              window_start_def\<close>)
    next
      case None
      let ?w2 = "w\<lparr>pending := committed w\<rparr>"
      obtain r w3 where i: "insert_data env data ?w2 = (r, w3)"
        by (cases "insert_data env data ?w2")
      have m: "mailed w3 = mailed w" "notified w3 = notified w"
        using insert_data_mail[of env data ?w2] i by simp_all
      have f: "(r = Inr ()) = (all_accepted normalize_record env data \<and> commit_fails env = None)"
        using insert_data_with_fst[of normalize_record harvest_merge env data ?w2] i
        by (simp add: insert_data_def)
      show ?thesis
      proof (cases r)
        case (Inl e)
        with f have n: "\<not> (all_accepted normalize_record env data \<and> commit_fails env = None)"
          by simp
        show ?thesis
          by (rule exI[of _ "logging ERROR (''Data sync failed: '' @ str_exn e) w3"])
             (use \<open>source env (Some ?sd) (Some ?ed) = Inr data\<close> None Inl i m n in
               \<open>simp add: sync_data_def stage_error_def run_succeeds_def rows_fetched_def Let_def
                  fetch_api_data_def get_database_connection_def window_start_def\<close>)
      next
        case (Inr u)
        with f have a: "all_accepted normalize_record env data" "commit_fails env = None"
          by simp_all
        show ?thesis
          by (rule exI[of _ "logging INFO (''Data sync completed successfully for period '' @
                            str_date ?sd @ '' to '' @ str_date ?ed) w3"])
             (use \<open>source env (Some ?sd) (Some ?ed) = Inr data\<close> None Inr i m a in
               \<open>simp add: sync_data_def stage_error_def run_succeeds_def rows_fetched_def Let_def
                  fetch_api_data_def get_database_connection_def window_start_def\<close>)
      qed
    qed
  qed
qed

text \<open>
  C6, as amended. Every run of \<open>sync_data\<close> of \<open>main.py\<close> calls the notification once, and
  last: the state after the run is the state after the call \<open>send_email_notification\<close>
  made in a state \<open>w'\<close> in which no notification and no mail had been added. The
  notification \<open>n\<close> carries the window of the run and the number of rows fetched (0 when
  the fetch failed); it reports success when no stage raised, and otherwise failure with
  the text \<open>str(e)\<close> of the exception \<open>e\<close> that the failing stage raised. A run of
  \<open>sync_data\<close> of \<open>get_tvn.py\<close> calls no notification and sends no mail.
\<close>

theorem sync_data_notifies_once:
  "(\<exists>n w'. snd (sync_data env start_date end_date w) = send_email_notification env n w' \<and>
        notified w' = notified w \<and> mailed w' = mailed w \<and>
        notified (snd (sync_data env start_date end_date w)) = notified w @ [n] \<and>
        n_start n = window_start env start_date \<and> n_end n = window_start env end_date \<and>
        n_success n = run_succeeds env start_date end_date \<and>
        n_success n = (stage_error env start_date end_date w = None) \<and>
        n_error n = map_option str_exn (stage_error env start_date end_date w) \<and>
        n_records n = rows_fetched env start_date end_date \<and>
        (n_success n \<longrightarrow> n_error n = None) \<and>
        (\<not> n_success n \<longrightarrow>
           (\<exists>e. stage_error env start_date end_date w = Some e \<and> n_error n = Some (str_exn e)))) \<and>
   notified (snd (tvn_sync_data tenv start_date end_date tw)) = notified tw \<and>
   mailed (snd (tvn_sync_data tenv start_date end_date tw)) = mailed tw"
proof (intro conjI)
  let ?n = "\<lparr>n_success = (stage_error env start_date end_date w = None),
             n_start = window_start env start_date, n_end = window_start env end_date,
             n_error = map_option str_exn (stage_error env start_date end_date w),
             n_records = rows_fetched env start_date end_date\<rparr>"
  from sync_data_last_step[of env start_date end_date w] obtain w' where
    "snd (sync_data env start_date end_date w) = send_email_notification env ?n w' \<and>
      notified w' = notified w \<and> mailed w' = mailed w \<and>
      (stage_error env start_date end_date w = None) = run_succeeds env start_date end_date" ..
  then have w': "snd (sync_data env start_date end_date w) = send_email_notification env ?n w'"
      "notified w' = notified w" "mailed w' = mailed w"
      "(stage_error env start_date end_date w = None) = run_succeeds env start_date end_date"
    by simp_all
  have n: "notified (snd (sync_data env start_date end_date w)) = notified w @ [?n]"
    unfolding w'(1) by (simp add: w'(2))
  have e: "\<not> n_success ?n \<longrightarrow>
      (\<exists>e. stage_error env start_date end_date w = Some e \<and> n_error ?n = Some (str_exn e))"
    by (cases "stage_error env start_date end_date w") simp_all
  have s: "n_success ?n \<longrightarrow> n_error ?n = None" by simp
  have inst: "snd (sync_data env start_date end_date w) = send_email_notification env ?n w' \<and>
        notified w' = notified w \<and> mailed w' = mailed w \<and>
        notified (snd (sync_data env start_date end_date w)) = notified w @ [?n] \<and>
        n_start ?n = window_start env start_date \<and> n_end ?n = window_start env end_date \<and>
        n_success ?n = run_succeeds env start_date end_date \<and>
        n_success ?n = (stage_error env start_date end_date w = None) \<and>
        n_error ?n = map_option str_exn (stage_error env start_date end_date w) \<and>
        n_records ?n = rows_fetched env start_date end_date \<and>
        (n_success ?n \<longrightarrow> n_error ?n = None) \<and>
        (\<not> n_success ?n \<longrightarrow>
           (\<exists>e. stage_error env start_date end_date w = Some e \<and> n_error ?n = Some (str_exn e)))"
    using w' n e s by simp
  show "\<exists>n w'. snd (sync_data env start_date end_date w) = send_email_notification env n w' \<and>
        notified w' = notified w \<and> mailed w' = mailed w \<and>
        notified (snd (sync_data env start_date end_date w)) = notified w @ [n] \<and>
        n_start n = window_start env start_date \<and> n_end n = window_start env end_date \<and>
        n_success n = run_succeeds env start_date end_date \<and>
        n_success n = (stage_error env start_date end_date w = None) \<and>
        n_error n = map_option str_exn (stage_error env start_date end_date w) \<and>
        n_records n = rows_fetched env start_date end_date \<and>
        (n_success n \<longrightarrow> n_error n = None) \<and>
        (\<not> n_success n \<longrightarrow>
           (\<exists>e. stage_error env start_date end_date w = Some e \<and> n_error n = Some (str_exn e)))"
    by (rule exI[of _ ?n], rule exI[of _ w'], rule inst)
  show "notified (snd (tvn_sync_data tenv start_date end_date tw)) = notified tw"
    and "mailed (snd (tvn_sync_data tenv start_date end_date tw)) = mailed tw"
    using tvn_sync_data_notified[of tenv start_date end_date tw] by simp_all
qed

lemma example_run_succeeds: "run_succeeds (example_env now) None None"
  by (simp add: run_succeeds_def example_env_def all_accepted_def)

lemma failing_run_fails: "\<not> run_succeeds failing_env None None"
  by (simp add: run_succeeds_def failing_env_def example_env_def)

lemma failing_stage_error:
  "stage_error failing_env None None empty_world = Some (RequestError ''503 Server Error'')"
  by (simp add: stage_error_def fetch_api_data_def failing_env_def example_env_def)

lemma bad_batch_stage_error:
  "stage_error bad_batch_env None None empty_world = Some (KeyError ''harvest_date'')"
  by (simp add: stage_error_def fetch_api_data_def get_database_connection_def bad_batch_env_def
        example_env_def window_start_def insert_data_def insert_data_with_def ex4 no_date_fails
        execute_def Let_def)

theorem sync_data_notifies_once_witness:
  "notified (snd (sync_data (example_env 7) None None (empty_world :: hworld))) =
     [\<lparr>n_success = True, n_start = \<lparr>d_year = 2024, d_month = 6, d_day = 1\<rparr>,
       n_end = \<lparr>d_year = 2024, d_month = 6, d_day = 1\<rparr>, n_error = None, n_records = 0\<rparr>] \<and>
   notified (snd (sync_data failing_env None None (empty_world :: hworld))) =
     [\<lparr>n_success = False, n_start = \<lparr>d_year = 2024, d_month = 6, d_day = 1\<rparr>,
       n_end = \<lparr>d_year = 2024, d_month = 6, d_day = 1\<rparr>,
       n_error = Some ''503 Server Error'', n_records = 0\<rparr>] \<and>
   notified (snd (sync_data bad_batch_env None None (empty_world :: hworld))) =
     [\<lparr>n_success = False, n_start = \<lparr>d_year = 2024, d_month = 6, d_day = 1\<rparr>,
       n_end = \<lparr>d_year = 2024, d_month = 6, d_day = 1\<rparr>,
       n_error = Some ([CHR 0x27] @ ''harvest_date'' @ [CHR 0x27]), n_records = 2\<rparr>]"
proof -
  have w: "window_start (example_env 7 :: hparams env) None = \<lparr>d_year = 2024, d_month = 6, d_day = 1\<rparr>"
    "window_start (failing_env :: hparams env) None = \<lparr>d_year = 2024, d_month = 6, d_day = 1\<rparr>"
    "window_start (bad_batch_env :: hparams env) None = \<lparr>d_year = 2024, d_month = 6, d_day = 1\<rparr>"
    by (simp_all add: window_start_def example_env_def failing_env_def bad_batch_env_def)
  have r: "rows_fetched (example_env 7 :: hparams env) None None = 0"
    "rows_fetched (failing_env :: hparams env) None None = 0"
    "rows_fetched (bad_batch_env :: hparams env) None None = 2"
    by (simp_all add: rows_fetched_def example_env_def failing_env_def bad_batch_env_def)
  from sync_data_notifies_once[of "example_env 7" None None empty_world failing_env empty_world]
  obtain n where n: "notified (snd (sync_data (example_env 7) None None (empty_world :: hworld))) =
      notified (empty_world :: hworld) @ [n]"
    "n_start n = window_start (example_env 7 :: hparams env) None"
    "n_end n = window_start (example_env 7 :: hparams env) None"
    "n_success n = run_succeeds (example_env 7) None None"
    "n_records n = rows_fetched (example_env 7 :: hparams env) None None"
    "n_success n \<longrightarrow> n_error n = None"
    by blast
  from n example_run_succeeds[of 7] have "n = \<lparr>n_success = True,
      n_start = \<lparr>d_year = 2024, d_month = 6, d_day = 1\<rparr>,
      n_end = \<lparr>d_year = 2024, d_month = 6, d_day = 1\<rparr>, n_error = None, n_records = 0\<rparr>"
    by (cases n) (simp add: w r)
  with n(1) have a: "notified (snd (sync_data (example_env 7) None None (empty_world :: hworld))) =
     [\<lparr>n_success = True, n_start = \<lparr>d_year = 2024, d_month = 6, d_day = 1\<rparr>,
       n_end = \<lparr>d_year = 2024, d_month = 6, d_day = 1\<rparr>, n_error = None, n_records = 0\<rparr>]"
    by simp
  from sync_data_notifies_once[of failing_env None None empty_world failing_env empty_world]
  have "\<exists>m. notified (snd (sync_data failing_env None None (empty_world :: hworld))) =
      notified (empty_world :: hworld) @ [m] \<and>
    n_start m = window_start (failing_env :: hparams env) None \<and>
    n_end m = window_start (failing_env :: hparams env) None \<and>
    n_success m = (stage_error failing_env None None empty_world = None) \<and>
    n_error m = map_option str_exn (stage_error failing_env None None empty_world) \<and>
    n_records m = rows_fetched (failing_env :: hparams env) None None"
    apply (elim conjE exE)
    apply (intro exI conjI)
         apply assumption+
    done
  then obtain m where "notified (snd (sync_data failing_env None None (empty_world :: hworld))) =
      notified (empty_world :: hworld) @ [m] \<and>
    n_start m = window_start (failing_env :: hparams env) None \<and>
    n_end m = window_start (failing_env :: hparams env) None \<and>
    n_success m = (stage_error failing_env None None empty_world = None) \<and>
    n_error m = map_option str_exn (stage_error failing_env None None empty_world) \<and>
    n_records m = rows_fetched (failing_env :: hparams env) None None" ..
  then have m: "notified (snd (sync_data failing_env None None (empty_world :: hworld))) =
      notified (empty_world :: hworld) @ [m]"
    "n_start m = window_start (failing_env :: hparams env) None"
    "n_end m = window_start (failing_env :: hparams env) None"
    "n_success m = (stage_error failing_env None None empty_world = None)"
    "n_error m = map_option str_exn (stage_error failing_env None None empty_world)"
    "n_records m = rows_fetched (failing_env :: hparams env) None None"
    by (rule conjunct1, rule conjunct2[THEN conjunct1], rule conjunct2[THEN conjunct2, THEN conjunct1],
        rule conjunct2[THEN conjunct2, THEN conjunct2, THEN conjunct1],
        rule conjunct2[THEN conjunct2, THEN conjunct2, THEN conjunct2, THEN conjunct1],
        rule conjunct2[THEN conjunct2, THEN conjunct2, THEN conjunct2, THEN conjunct2])
  from m have "m = \<lparr>n_success = False, n_start = \<lparr>d_year = 2024, d_month = 6, d_day = 1\<rparr>,
       n_end = \<lparr>d_year = 2024, d_month = 6, d_day = 1\<rparr>,
       n_error = Some ''503 Server Error'', n_records = 0\<rparr>"
    by (cases m) (simp add: w r failing_stage_error)
  with m(1) have b: "notified (snd (sync_data failing_env None None (empty_world :: hworld))) =
     [\<lparr>n_success = False, n_start = \<lparr>d_year = 2024, d_month = 6, d_day = 1\<rparr>,
       n_end = \<lparr>d_year = 2024, d_month = 6, d_day = 1\<rparr>,
       n_error = Some ''503 Server Error'', n_records = 0\<rparr>]"
    by simp
  from sync_data_notifies_once[of bad_batch_env None None empty_world failing_env empty_world]
  have "\<exists>k. notified (snd (sync_data bad_batch_env None None (empty_world :: hworld))) =
      notified (empty_world :: hworld) @ [k] \<and>
    n_start k = window_start (bad_batch_env :: hparams env) None \<and>
    n_end k = window_start (bad_batch_env :: hparams env) None \<and>
    n_success k = (stage_error bad_batch_env None None empty_world = None) \<and>
    n_error k = map_option str_exn (stage_error bad_batch_env None None empty_world) \<and>
    n_records k = rows_fetched (bad_batch_env :: hparams env) None None"
    apply (elim conjE exE)
    apply (intro exI conjI)
         apply assumption+
    done
  then obtain k where "notified (snd (sync_data bad_batch_env None None (empty_world :: hworld))) =
      notified (empty_world :: hworld) @ [k] \<and>
    n_start k = window_start (bad_batch_env :: hparams env) None \<and>
    n_end k = window_start (bad_batch_env :: hparams env) None \<and>
    n_success k = (stage_error bad_batch_env None None empty_world = None) \<and>
    n_error k = map_option str_exn (stage_error bad_batch_env None None empty_world) \<and>
    n_records k = rows_fetched (bad_batch_env :: hparams env) None None" ..
  then have k: "notified (snd (sync_data bad_batch_env None None (empty_world :: hworld))) =
      notified (empty_world :: hworld) @ [k]"
    "n_start k = window_start (bad_batch_env :: hparams env) None"
    "n_end k = window_start (bad_batch_env :: hparams env) None"
    "n_success k = (stage_error bad_batch_env None None empty_world = None)"
    "n_error k = map_option str_exn (stage_error bad_batch_env None None empty_world)"
    "n_records k = rows_fetched (bad_batch_env :: hparams env) None None"
    by (rule conjunct1, rule conjunct2[THEN conjunct1], rule conjunct2[THEN conjunct2, THEN conjunct1],
        rule conjunct2[THEN conjunct2, THEN conjunct2, THEN conjunct1],
        rule conjunct2[THEN conjunct2, THEN conjunct2, THEN conjunct2, THEN conjunct1],
        rule conjunct2[THEN conjunct2, THEN conjunct2, THEN conjunct2, THEN conjunct2])
  from k have "k = \<lparr>n_success = False, n_start = \<lparr>d_year = 2024, d_month = 6, d_day = 1\<rparr>,
       n_end = \<lparr>d_year = 2024, d_month = 6, d_day = 1\<rparr>,
       n_error = Some ([CHR 0x27] @ ''harvest_date'' @ [CHR 0x27]), n_records = 2\<rparr>"
    by (cases k) (simp add: w r bad_batch_stage_error)
  with k(1) have c: "notified (snd (sync_data bad_batch_env None None (empty_world :: hworld))) =
     [\<lparr>n_success = False, n_start = \<lparr>d_year = 2024, d_month = 6, d_day = 1\<rparr>,
       n_end = \<lparr>d_year = 2024, d_month = 6, d_day = 1\<rparr>,
       n_error = Some ([CHR 0x27] @ ''harvest_date'' @ [CHR 0x27]), n_records = 2\<rparr>]"
    by simp
  from a b c show ?thesis by blast
qed

text \<open>
  C6 as stated fails for \<open>get_tvn.py\<close>: a run of its \<open>sync_data\<close>, successful or not,
  ends without any call of a notification.
\<close>

theorem tvn_sync_data_no_notification_counterexample:
  "notified (snd (tvn_sync_data (example_env 7) None None (empty_world :: tworld))) = [] \<and>
   notified (snd (tvn_sync_data failing_env None None (empty_world :: tworld))) = []"
  using tvn_sync_data_notified[of "example_env 7" None None "empty_world :: tworld"]
    tvn_sync_data_notified[of failing_env None None "empty_world :: tworld"]
  by simp

lemma not_truthy_None [simp]: "\<not> truthy None"
  by (simp add: truthy_def)

lemma sync_data_mailed_unset:
  assumes "\<not> (truthy (email_sender env) \<and> truthy (email_password env) \<and>
              truthy (email_recipient env))"
  shows "mailed (snd (sync_data env start_date end_date w)) = mailed w"
  by (cases rule: sync_data_cases[of env start_date end_date w])
     (use assms in \<open>auto simp: send_email_mailed\<close>)

text \<open>
  C9. When one of the three mail settings is unset, \<open>send_email_notification\<close> only
  writes the warning to the log and returns: no message is handed to the mail server.
  A run of \<open>sync_data\<close> with such settings sends no mail, whether it succeeds or fails.
\<close>

theorem unset_mail_setting_skips_notification:
  "email_sender env = None \<or> email_password env = None \<or> email_recipient env = None \<longrightarrow>
     send_email_notification env n w =
       logging WARNING warning_text (w\<lparr>notified := notified w @ [n]\<rparr>) \<and>
     mailed (send_email_notification env n w) = mailed w \<and>
     mailed (snd (sync_data env start_date end_date hw)) = mailed hw"
proof
  assume "email_sender env = None \<or> email_password env = None \<or> email_recipient env = None"
  then have u: "\<not> (truthy (email_sender env) \<and> truthy (email_password env) \<and>
                   truthy (email_recipient env))"
    by auto
  then have "send_email_notification env n w =
       logging WARNING warning_text (w\<lparr>notified := notified w @ [n]\<rparr>)"
    by (simp add: send_email_notification_def Let_def warning_text_def)
  moreover have "mailed (send_email_notification env n w) = mailed w"
    using u by (auto simp: send_email_mailed)
  moreover have "mailed (snd (sync_data env start_date end_date hw)) = mailed hw"
    using u by (rule sync_data_mailed_unset)
  ultimately show "send_email_notification env n w =
       logging WARNING warning_text (w\<lparr>notified := notified w @ [n]\<rparr>) \<and>
     mailed (send_email_notification env n w) = mailed w \<and>
     mailed (snd (sync_data env start_date end_date hw)) = mailed hw"
    by blast
qed

theorem unset_mail_setting_skips_notification_witness:
  "mailed (snd (sync_data (example_env 7) None None (empty_world :: hworld))) = [] \<and>
   mailed (snd (sync_data failing_env None None (empty_world :: hworld))) = [] \<and>
   mailed (send_email_notification (example_env 7 :: hparams env) example_notification
             (empty_world :: hworld)) = []"
proof -
  have e: "email_sender (example_env 7 :: hparams env) = None"
    "email_sender (failing_env :: hparams env) = None"
    by (simp_all add: example_env_def failing_env_def)
  from unset_mail_setting_skips_notification[of "example_env 7" example_notification
      "empty_world :: hworld" None None "empty_world :: hworld"] e(1)
  have a: "mailed (snd (sync_data (example_env 7) None None (empty_world :: hworld))) = []"
    "mailed (send_email_notification (example_env 7 :: hparams env) example_notification
             (empty_world :: hworld)) = []"
    by simp_all
  from unset_mail_setting_skips_notification[of failing_env example_notification
      "empty_world :: hworld" None None "empty_world :: hworld"] e(2)
  have b: "mailed (snd (sync_data failing_env None None (empty_world :: hworld))) = []"
    by simp
  from a b show ?thesis by blast
qed

lemma send_email_log:
  "\<exists>x. log (send_email_notification env n w) = log w @ [x]"
  by (simp add: send_email_notification_def Let_def split: option.splits)

lemma tvn_sync_data_result:
  "fst (tvn_sync_data env start_date end_date w) = Inr () \<and>
   (\<not> tvn_run_succeeds env start_date end_date \<longrightarrow>
      (\<exists>e. last (log (snd (tvn_sync_data env start_date end_date w))) =
             (ERROR, ''TVN data sync failed: '' @ str_exn e)))"
proof -
  let ?sd = "window_start env start_date" and ?ed = "window_start env end_date"
  obtain r1 w1 where g: "get_supabase_data env (Some ?sd) (Some ?ed) w = (r1, w1)"
    by (cases "get_supabase_data env (Some ?sd) (Some ?ed) w")
  have r1: "fst (get_supabase_data env (Some ?sd) (Some ?ed) (empty_world :: tworld)) = r1"
    using get_supabase_data_fst[of env "Some ?sd" "Some ?ed" empty_world w] g by simp
  show ?thesis
  proof (cases r1)
    case (Inl e)
    with g show ?thesis by (auto simp: tvn_sync_data_def Let_def window_start_def)
  next
    case (Inr df)
    show ?thesis
    proof (cases "connect_fails env")
      case (Some e)
      with Inr g show ?thesis
        by (auto simp: tvn_sync_data_def Let_def window_start_def get_database_connection_def)
    next
      case None
      let ?w2 = "w1\<lparr>pending := committed w1\<rparr>"
      obtain r3 w3 where i: "tvn_insert_data env df ?w2 = (r3, w3)"
        by (cases "tvn_insert_data env df ?w2")
      have f: "(r3 = Inr ()) = (all_accepted tvn_statement env df \<and> commit_fails env = None)"
        using insert_data_with_fst[of tvn_statement tvn_merge env df ?w2] i
        by (simp add: tvn_insert_data_def)
      show ?thesis
      proof (cases r3)
        case (Inl e)
        with Inr None g i show ?thesis
          by (auto simp: tvn_sync_data_def Let_def window_start_def get_database_connection_def)
      next
        case (Inr u)
        with f have "all_accepted tvn_statement env df \<and> commit_fails env = None" by simp
        with \<open>r1 = Inr df\<close> r1 None have "tvn_run_succeeds env start_date end_date"
          by (simp add: tvn_run_succeeds_def)
        with \<open>r1 = Inr df\<close> None Inr g i show ?thesis
          by (auto simp: tvn_sync_data_def Let_def window_start_def get_database_connection_def)
      qed
    qed
  qed
qed

text \<open>
  C10. \<open>sync_data\<close> returns normally on every path, in both scripts: the value is \<open>None\<close>
  after a failed run as after a successful one. A failed run of \<open>main.py\<close> leaves the
  error in the log and ends with the failure notification carrying its text; a failed
  run of \<open>get_tvn.py\<close> ends with the error in the log.
\<close>

theorem sync_data_never_raises:
  "fst (sync_data env start_date end_date w) = Inr () \<and>
   fst (tvn_sync_data tenv start_date end_date tw) = Inr () \<and>
   (\<not> run_succeeds env start_date end_date \<longrightarrow>
      (\<exists>e. (ERROR, ''Data sync failed: '' @ str_exn e) \<in>
             set (log (snd (sync_data env start_date end_date w))) \<and>
           \<not> n_success (last (notified (snd (sync_data env start_date end_date w)))) \<and>
           n_error (last (notified (snd (sync_data env start_date end_date w)))) =
             Some (str_exn e))) \<and>
   (\<not> tvn_run_succeeds tenv start_date end_date \<longrightarrow>
      (\<exists>e. last (log (snd (tvn_sync_data tenv start_date end_date tw))) =
             (ERROR, ''TVN data sync failed: '' @ str_exn e)))"
proof (intro conjI)
  show "fst (sync_data env start_date end_date w) = Inr ()"
    by (cases rule: sync_data_cases[of env start_date end_date w]) simp_all
  show "fst (tvn_sync_data tenv start_date end_date tw) = Inr ()"
    using tvn_sync_data_result[of tenv start_date end_date tw] by simp
  show "\<not> tvn_run_succeeds tenv start_date end_date \<longrightarrow>
      (\<exists>e. last (log (snd (tvn_sync_data tenv start_date end_date tw))) =
             (ERROR, ''TVN data sync failed: '' @ str_exn e))"
    using tvn_sync_data_result[of tenv start_date end_date tw] by simp
  show "\<not> run_succeeds env start_date end_date \<longrightarrow>
      (\<exists>e. (ERROR, ''Data sync failed: '' @ str_exn e) \<in>
             set (log (snd (sync_data env start_date end_date w))) \<and>
           \<not> n_success (last (notified (snd (sync_data env start_date end_date w)))) \<and>
           n_error (last (notified (snd (sync_data env start_date end_date w)))) =
             Some (str_exn e))"
  proof (cases rule: sync_data_cases[of env start_date end_date w])
    case (fetch e w1)
    obtain x where "log (snd (sync_data env start_date end_date w)) =
        (log w1 @ [(ERROR, ''Data sync failed: '' @ str_exn e)]) @ [x]"
      using send_email_log fetch(2) by (metis logging_simps(5) snd_conv)
    with fetch show ?thesis by (intro impI exI[of _ e]) simp
  next
    case (connect data e w1)
    obtain x where "log (snd (sync_data env start_date end_date w)) =
        (log w1 @ [(ERROR, ''Data sync failed: '' @ str_exn e)]) @ [x]"
      using send_email_log connect(3) by (metis logging_simps(5) snd_conv)
    with connect show ?thesis by (intro impI exI[of _ e]) simp
  next
    case (insert data e w1)
    obtain x where "log (snd (sync_data env start_date end_date w)) =
        (log w1 @ [(ERROR, ''Data sync failed: '' @ str_exn e)]) @ [x]"
      using send_email_log insert(4) by (metis logging_simps(5) snd_conv)
    with insert show ?thesis by (intro impI exI[of _ e]) simp
  next
    case (success data w1)
    then show ?thesis by (simp add: run_succeeds_def)
  qed
qed

lemma failing_tvn_run_fails: "\<not> tvn_run_succeeds failing_env None None"
  by (simp add: tvn_run_succeeds_def failing_env_def example_env_def get_supabase_data_def)

theorem sync_data_never_raises_witness:
  "fst (sync_data failing_env None None (empty_world :: hworld)) = Inr () \<and>
   fst (tvn_sync_data failing_env None None (empty_world :: tworld)) = Inr () \<and>
   (\<exists>e. (ERROR, ''Data sync failed: '' @ str_exn e) \<in>
           set (log (snd (sync_data failing_env None None (empty_world :: hworld))))) \<and>
   (\<exists>e. last (log (snd (tvn_sync_data failing_env None None (empty_world :: tworld)))) =
           (ERROR, ''TVN data sync failed: '' @ str_exn e))"
  using sync_data_never_raises[of failing_env None None empty_world failing_env empty_world]
    failing_run_fails failing_tvn_run_fails
  by blast

lemma missing_row_field_fails:
  assumes "k \<in> set required_fields" "x \<in> set data" "x k = None"
  shows "\<not> all_accepted normalize_record env data"
proof -
  from assms(1,3) have "\<not> valid_raw x" by (auto simp: valid_raw_def list_all_iff)
  then have "\<nexists>s. normalize_record x = Inr s" by (simp add: valid_raw_iff)
  with assms(2) show ?thesis by (auto simp: all_accepted_iff)
qed

text \<open>
  C7, as amended. \<open>get_supabase_data\<close>: when the response is not empty and one of the
  columns \<open>date\<close>, \<open>kilos_harvested\<close>, \<open>kilos_packed\<close> is in none of its rows, the fetch
  raises the \<open>ValueError\<close> that lists the missing columns, that one among them.
  \<open>fetch_api_data\<close> has no such check: it returns the rows as the source gave them; a
  row without one of the twelve fields then makes \<open>insert_data\<close> raise, with nothing
  committed.
\<close>

theorem missing_columns_raise:
  "(source env start_date end_date = Inr data \<and> data \<noteq> [] \<and> c \<in> set required_columns \<and>
    (\<forall>r\<in>set data. r c = None) \<longrightarrow>
      fst (get_supabase_data env start_date end_date w) =
        Inl (ValueError (''Missing required columns in Supabase response: '' @
               repr_list (missing_columns_of data))) \<and>
      c \<in> set (missing_columns_of data)) \<and>
   (source henv (Some sd) (Some ed) = Inr hdata \<longrightarrow>
      fetch_api_data henv sd ed hw = (Inr hdata, hw)) \<and>
   (k \<in> set required_fields \<and> x \<in> set hdata \<and> x k = None \<longrightarrow>
      (\<exists>e. fst (insert_data henv hdata hw) = Inl e) \<and>
      committed (snd (insert_data henv hdata hw)) = committed hw)"
proof (intro conjI impI; (elim conjE)?)
  assume s: "source env start_date end_date = Inr data" and ne: "data \<noteq> []"
    and c: "c \<in> set required_columns" and a: "\<forall>r\<in>set data. r c = None"
  from a have "\<not> has_column data c" by (simp add: has_column_def list_ex_iff)
  with c show m: "c \<in> set (missing_columns_of data)" by (simp add: missing_columns_of_def)
  then have "missing_columns_of data \<noteq> []" by auto
  with s ne show "fst (get_supabase_data env start_date end_date w) =
        Inl (ValueError (''Missing required columns in Supabase response: '' @
               repr_list (missing_columns_of data)))"
    by (simp add: get_supabase_data_def Let_def missing_columns_of_def)
next
  assume "source henv (Some sd) (Some ed) = Inr hdata"
  then show "fetch_api_data henv sd ed hw = (Inr hdata, hw)"
    by (simp add: fetch_api_data_def)
next
  assume "k \<in> set required_fields" "x \<in> set hdata" "x k = None"
  then have "\<not> (all_accepted normalize_record henv hdata \<and> commit_fails henv = None)"
    using missing_row_field_fails by blast
  from insert_data_with_failure[OF this, of harvest_merge hw]
  show "\<exists>e. fst (insert_data henv hdata hw) = Inl e"
    and "committed (snd (insert_data henv hdata hw)) = committed hw"
    by (simp_all add: insert_data_def)
qed

theorem missing_columns_raise_witness:
  "fst (get_supabase_data partial_env None None (empty_world :: tworld)) =
     Inl (ValueError ''Missing required columns in Supabase response: ['kilos_harvested']'') \<and>
   fetch_api_data empty_rows_env (today empty_rows_env) (today empty_rows_env)
     (empty_world :: hworld) = (Inr [Map.empty], empty_world) \<and>
   (\<exists>e. fst (insert_data empty_rows_env [Map.empty] (empty_world :: hworld)) = Inl e)"
proof -
  have m: "missing_columns_of [partial_row] = [''kilos_harvested'']"
    by (simp add: missing_columns_of_def required_columns_def has_column_def partial_row_def)
  have p: "source (partial_env :: tvn_record env) None None = Inr [partial_row]"
    "''kilos_harvested'' \<in> set required_columns"
    "\<forall>r\<in>set [partial_row]. r ''kilos_harvested'' = None"
    by (simp_all add: partial_env_def example_env_def required_columns_def partial_row_def)
  have h: "source (empty_rows_env :: hparams env) (Some (today empty_rows_env))
             (Some (today empty_rows_env)) = Inr [Map.empty]"
    "''id'' \<in> set required_fields"
    by (simp_all add: empty_rows_env_def required_fields_def)
  note T = missing_columns_raise[where env = "partial_env :: tvn_record env" and start_date = None
      and end_date = None and data = "[partial_row]" and c = "''kilos_harvested''"
      and w = "empty_world :: tworld" and henv = "empty_rows_env :: hparams env"
      and sd = "today empty_rows_env" and ed = "today empty_rows_env"
      and hdata = "[Map.empty]" and hw = "empty_world :: hworld" and k = "''id''"
      and x = Map.empty]
  have ne: "[partial_row] \<noteq> []" "Map.empty \<in> set [Map.empty :: raw_row]"
    "(Map.empty :: raw_row) ''id'' = None" by simp_all
  from T p ne(1)
  have a: "fst (get_supabase_data partial_env None None (empty_world :: tworld)) =
        Inl (ValueError (''Missing required columns in Supabase response: '' @
               repr_list (missing_columns_of [partial_row])))"
    by blast
  from T h(1)
  have b: "fetch_api_data empty_rows_env (today empty_rows_env) (today empty_rows_env)
     (empty_world :: hworld) = (Inr [Map.empty], empty_world)"
    by blast
  from T h(2) ne(2,3)
  have c: "\<exists>e. fst (insert_data empty_rows_env [Map.empty] (empty_world :: hworld)) = Inl e"
    by blast
  from a b c show ?thesis by (simp add: m repr_list_def)
qed

text \<open>
  C7 as stated fails for \<open>fetch_api_data\<close>: a response of one row that has none of the
  expected fields is returned to the caller, and no error is signalled by the fetch.
\<close>

theorem fetch_api_data_no_schema_check_counterexample:
  "fst (fetch_api_data empty_rows_env (today empty_rows_env) (today empty_rows_env)
          (empty_world :: hworld)) = Inr [Map.empty] \<and>
   log (snd (fetch_api_data empty_rows_env (today empty_rows_env) (today empty_rows_env)
          (empty_world :: hworld))) = []"
  by (simp add: fetch_api_data_def empty_rows_env_def)

lemma null_id_normalizes:
  "normalize_record null_id_row = Inr (example_params\<lparr>p_id := PNone\<rparr>)"
  by (simp add: normalize_record_def andthen_def getitem_def null_id_row_def example_row_def
        example_params_def ex1 ex2 ex3
        strftime_ymd_hms_def strftime_ymd_def strftime_hms_def pad2_def pad4_def digit_def)

lemma null_id_run:
  "committed (snd (insert_data (example_env now) [null_id_row] w)) =
     harvest_merge now (example_params\<lparr>p_id := PNone\<rparr>) (pending w)"
  "pending (snd (insert_data (example_env now) [null_id_row] w)) =
     harvest_merge now (example_params\<lparr>p_id := PNone\<rparr>) (pending w)"
  unfolding insert_data_def
  by (simp_all add: run_one[where s = "example_params\<lparr>p_id := PNone\<rparr>"] null_id_normalizes)

text \<open>
  C1 as stated fails twice. A second run at a later reading of the clock leaves the row
  with a later \<open>insert_date\<close>; and a row with a null id is inserted again by every run.
\<close>

theorem rerun_is_not_identity_counterexample:
  "committed (snd (insert_data (example_env 8) [example_row]
      (snd (insert_data (example_env 7) [example_row] (empty_world :: hworld))))) \<noteq>
   committed (snd (insert_data (example_env 7) [example_row] (empty_world :: hworld))) \<and>
   length (committed (snd (insert_data (example_env 7) [null_id_row]
      (empty_world :: hworld)))) = 1 \<and>
   length (committed (snd (insert_data (example_env 7) [null_id_row]
      (snd (insert_data (example_env 7) [null_id_row] (empty_world :: hworld)))))) = 2"
  by (simp add: one_row_run null_id_run harvest_merge_def merge_into_def sql_eq_def
        harvest_update_def harvest_insert_def example_params_def)

theorem rerun_changes_timestamps_only_witness:
  "map erase_insert_date (committed (insert_data_times (\<lambda>k. example_env (7 + k)) 3
      [example_row, example_row2] (empty_world :: hworld))) =
   map erase_insert_date (committed (insert_data_times (\<lambda>k. example_env (7 + k)) 1
      [example_row, example_row2] (empty_world :: hworld))) \<and>
   committed (tvn_insert_data_times (\<lambda>k. example_env (7 + k)) 3 [tvn_day, tvn_day2]
      (empty_world :: tworld)) =
   committed (tvn_insert_data_times (\<lambda>k. example_env (7 + k)) 1 [tvn_day, tvn_day2]
      (empty_world :: tworld))"
proof -
  have h: "pending (empty_world :: hworld) = committed (empty_world :: hworld)"
    "\<forall>x\<in>set [example_row, example_row2]. x ''id'' \<noteq> Some PNone"
    "\<forall>k. rejects (example_env (7 + k) :: hparams env) = rejects (example_env (7 + 0) :: hparams env) \<and>
         commit_fails (example_env (7 + k) :: hparams env) =
           commit_fails (example_env (7 + 0) :: hparams env)"
    by (simp_all add: example_row_def example_row2_def example_env_def)
  have t: "pending (empty_world :: tworld) = committed (empty_world :: tworld)"
    "\<forall>k. rejects (example_env (7 + k) :: tvn_record env) =
           rejects (example_env (7 + 0) :: tvn_record env) \<and>
         commit_fails (example_env (7 + k) :: tvn_record env) =
           commit_fails (example_env (7 + 0) :: tvn_record env)"
    by (simp_all add: example_env_def)
  from rerun_changes_timestamps_only[where w = "empty_world :: hworld"
      and data = "[example_row, example_row2]" and envs = "\<lambda>k. example_env (7 + k)" and n = 2
      and tw = "empty_world :: tworld" and tenvs = "\<lambda>k. example_env (7 + k)"
      and df = "[tvn_day, tvn_day2]"] h t
  show ?thesis by (simp add: numeral_3_eq_3)
qed

text \<open>
  C4 as stated fails for the harvest table: two rows of one batch that carry the same
  id, \<open>null\<close>, are both inserted, since \<open>NULL = NULL\<close> is not true in the \<open>ON\<close> clause. The
  batch succeeds, and the destination holds two rows with that id.
\<close>

theorem null_ids_not_merged_counterexample:
  "null_id_row ''id'' = Some PNone \<and>
   fst (insert_data (example_env 7) [null_id_row, null_id_row] (empty_world :: hworld)) = Inr () \<and>
   map h_id (committed (snd (insert_data (example_env 7) [null_id_row, null_id_row]
      (empty_world :: hworld)))) = [PNone, PNone]"
proof -
  have a: "null_id_row ''id'' = Some PNone" by (simp add: null_id_row_def)
  have b: "fst (insert_data (example_env 7) [null_id_row, null_id_row] (empty_world :: hworld)) =
             Inr ()"
    by (simp add: insert_data_def insert_data_with_fst all_accepted_def null_id_normalizes)
  have c: "map h_id (committed (snd (insert_data (example_env 7) [null_id_row, null_id_row]
      (empty_world :: hworld)))) = [PNone, PNone]"
    by (simp add: insert_data_def insert_data_with_def null_id_normalizes
          execute_def Let_def commit_def logging_def harvest_merge_def merge_into_def sql_eq_def
          harvest_insert_def)
  from a b c show ?thesis by simp
qed

end
